theory Spec2Isabelle
  imports Main "HOL-Library.Word"
begin

unbundle bit_operations_syntax

section \<open>connbridge: a journaling TCP connection bridge\<close>

text \<open>
  This theory embeds \<^verbatim>\<open>src/connbridge.c\<close>.  Every C function that the
  verified properties depend on is a HOL function of the same name.  The
  operating system and the C library are an explicit environment: what the
  kernel answers to \<^verbatim>\<open>read\<close>, \<^verbatim>\<open>write\<close> and \<^verbatim>\<open>accept4\<close> is taken from
  scripts held in the world state, and every other call that can fail takes
  its outcome from a list of injected faults.
\<close>

subsection \<open>Error numbers\<close>

datatype errno =
    EINTR | EAGAIN | EWOULDBLOCK | EINPROGRESS | EINVAL | EAFNOSUPPORT | EILSEQ
  | ECONNRESET | ECONNABORTED | ECONNREFUSED | ENOTCONN | EPIPE | EMFILE | ENOMEM | EIO

subsection \<open>Number formatting (\<^verbatim>\<open>%u\<close> and \<^verbatim>\<open>%x\<close> of \<^verbatim>\<open>printf\<close>)\<close>

definition digit_char :: "nat \<Rightarrow> char" where
  "digit_char d = ''0123456789abcdef'' ! d"

function show_radix :: "nat \<Rightarrow> nat \<Rightarrow> string" where
  "show_radix r n =
     (if r < 2 \<or> n < r then [digit_char n]
      else show_radix r (n div r) @ [digit_char (n mod r)])"
  by pat_completeness auto
termination
  by (relation "measure (\<lambda>(r, n). n)") auto

declare show_radix.simps [simp del]

definition show_dec :: "nat \<Rightarrow> string" where
  "show_dec n = show_radix 10 n"

definition show_hex :: "nat \<Rightarrow> string" where
  "show_hex n = show_radix 16 n"

subsection \<open>Socket addresses\<close>

text \<open>
  A \<^verbatim>\<open>struct sockaddr\<close> as the code reads it: the family tag, the port at
  bytes 2..3 (\<^verbatim>\<open>sin_port\<close> and \<^verbatim>\<open>sin6_port\<close> share the place) and the two
  address members.  Port and addresses are kept as the numbers their bytes
  spell in network order, most significant byte first, so \<^verbatim>\<open>ntohs\<close> reads
  the port as it is.  The constants are those of Linux.
\<close>

record sockaddr =
  sa_family :: nat
  sa_port :: "16 word"
  sin_addr :: "32 word"
  sin6_addr :: "128 word"

definition AF_INET :: nat where "AF_INET = 2"
definition AF_INET6 :: nat where "AF_INET6 = 10"
definition sizeof_sockaddr_in :: nat where "sizeof_sockaddr_in = 16"
definition sizeof_sockaddr_in6 :: nat where "sizeof_sockaddr_in6 = 28"

definition ntohs :: "16 word \<Rightarrow> nat" where
  "ntohs p = unat p"

definition byte_at :: "'a::len word \<Rightarrow> nat \<Rightarrow> nat" where
  "byte_at a k = unat (drop_bit (8 * k) a) mod 256"

definition word16_at :: "'a::len word \<Rightarrow> nat \<Rightarrow> nat" where
  "word16_at a k = unat (drop_bit (16 * k) a) mod 65536"

text \<open>
  \<^verbatim>\<open>inet_ntop\<close> is the C library's.  For \<^verbatim>\<open>AF_INET\<close> it prints the four
  address bytes in decimal, separated by dots.
\<close>

definition inet_ntop4 :: "32 word \<Rightarrow> string" where
  "inet_ntop4 a =
     show_dec (byte_at a 3) @ ''.'' @ show_dec (byte_at a 2) @ ''.'' @
     show_dec (byte_at a 1) @ ''.'' @ show_dec (byte_at a 0)"

text \<open>
  For \<^verbatim>\<open>AF_INET6\<close> it prints the eight 16-bit groups in lower-case
  hexadecimal without leading zeros, replaces the first longest run of at
  least two zero groups by \<^verbatim>\<open>::\<close>, and prints the last 32 bits in dotted
  decimal when the address encapsulates an IPv4 address.  A run is its
  first index and its length; \<open>None\<close> is the library's base \<open>-1\<close>.
\<close>

type_synonym zero_run = "(nat \<times> nat) option"

definition better_run :: "zero_run \<Rightarrow> nat \<times> nat \<Rightarrow> zero_run" where
  "better_run best cur =
     (case best of
        None \<Rightarrow> Some cur
      | Some (bb, bl) \<Rightarrow> if bl < snd cur then Some cur else best)"

fun scan_runs :: "nat list \<Rightarrow> nat \<Rightarrow> zero_run \<Rightarrow> zero_run \<Rightarrow> zero_run" where
  "scan_runs [] i best cur =
     (case cur of None \<Rightarrow> best | Some c \<Rightarrow> better_run best c)"
| "scan_runs (w # ws) i best cur =
     (if w = 0 then
        scan_runs ws (i + 1) best
          (case cur of None \<Rightarrow> Some (i, 1) | Some (b, l) \<Rightarrow> Some (b, l + 1))
      else
        (case cur of
           None \<Rightarrow> scan_runs ws (i + 1) best None
         | Some c \<Rightarrow> scan_runs ws (i + 1) (better_run best c) None))"

definition best_run :: "nat list \<Rightarrow> zero_run" where
  "best_run ws =
     (case scan_runs ws 0 None None of
        None \<Rightarrow> None
      | Some (b, l) \<Rightarrow> if l < 2 then None else Some (b, l))"

definition in_run :: "zero_run \<Rightarrow> nat \<Rightarrow> bool" where
  "in_run best i = (case best of None \<Rightarrow> False | Some (b, l) \<Rightarrow> b \<le> i \<and> i < b + l)"

definition encapsulated_v4 :: "zero_run \<Rightarrow> nat \<Rightarrow> bool" where
  "encapsulated_v4 best w5 =
     (case best of
        None \<Rightarrow> False
      | Some (b, l) \<Rightarrow> b = 0 \<and> (l = 6 \<or> (l = 5 \<and> w5 = 65535)))"

fun ntop6_groups :: "zero_run \<Rightarrow> nat \<Rightarrow> string \<Rightarrow> nat list \<Rightarrow> nat \<Rightarrow> string" where
  "ntop6_groups best w5 v4 [] i = []"
| "ntop6_groups best w5 v4 (w # ws) i =
     (if in_run best i then
        (if Some i = map_option fst best then '':'' else []) @
        ntop6_groups best w5 v4 ws (i + 1)
      else
        (if i \<noteq> 0 then '':'' else []) @
        (if i = 6 \<and> encapsulated_v4 best w5 then v4
         else show_hex w @ ntop6_groups best w5 v4 ws (i + 1)))"

definition inet_ntop6 :: "128 word \<Rightarrow> string" where
  "inet_ntop6 a =
     (let ws = [word16_at a 7, word16_at a 6, word16_at a 5, word16_at a 4,
                word16_at a 3, word16_at a 2, word16_at a 1, word16_at a 0];
          best = best_run ws;
          v4 = inet_ntop4 (ucast a)
      in ntop6_groups best (word16_at a 2) v4 ws 0 @
         (case best of
            None \<Rightarrow> []
          | Some (b, l) \<Rightarrow> if b + l = 8 then '':'' else []))"

subsection \<open>The address formatter \<^verbatim>\<open>satos\<close>\<close>

text \<open>
  \<^verbatim>\<open>satos\<close> returns the text, or a null pointer with \<^verbatim>\<open>errno\<close> set: \<open>Inl\<close>
  carries the error number.  \<open>rc\<close> is what \<^verbatim>\<open>snprintf\<close> returns, the
  length of the text; the result buffer of \<^verbatim>\<open>INET6_ADDRSTRLEN + 16\<close> bytes
  holds every text the two formats produce.
\<close>

definition satos :: "sockaddr \<Rightarrow> nat \<Rightarrow> errno + string" where
  "satos addr socklen =
     (if sa_family addr = AF_INET then
        (if socklen < sizeof_sockaddr_in then Inl EINVAL
         else
           let rcp = inet_ntop4 (sin_addr addr);
               port = ntohs (sa_port addr);
               result = rcp @ '':'' @ show_dec port;
               rc = int (length result)
           in if rc < 0 then Inl EILSEQ else Inr result)
      else if sa_family addr = AF_INET6 then
        (if socklen < sizeof_sockaddr_in6 then Inl EINVAL
         else
           let rcp = inet_ntop6 (sin6_addr addr);
               port = ntohs (sa_port addr);
               result = ''['' @ rcp @ '']:'' @ show_dec port;
               rc = int (length result)
           in if rc < 0 then Inl EILSEQ else Inr result)
      else Inl EAFNOSUPPORT)"

subsection \<open>Command-line arguments of \<^verbatim>\<open>main\<close>\<close>

text \<open>
  The block ``Get args'' of \<^verbatim>\<open>main\<close>: \<open>argv\<close> holds \<^verbatim>\<open>argc\<close> strings, the
  program name first.  \<open>Inl\<close> is the line \<^verbatim>\<open>print_usage\<close> writes to the
  standard error stream before \<^verbatim>\<open>exit(EXIT_FAILURE)\<close>; \<open>Inr\<close> is
  \<open>(srcnode, srcservice, destnode, destservice)\<close>.
\<close>

definition print_usage :: "string \<Rightarrow> string" where
  "print_usage progname = ''Usage: '' @ progname @ '' srcaddr srcport destaddr destport''"

definition get_args :: "string list \<Rightarrow> string + (string \<times> string \<times> string \<times> string)" where
  "get_args argv =
     (if length argv \<le> 4 then
        Inl (print_usage (case argv of [] \<Rightarrow> ''(null)'' | progname # _ \<Rightarrow> progname))
      else Inr (argv ! 1, argv ! 2, argv ! 3, argv ! 4))"

subsection \<open>The environment: kernel, C library and event loop\<close>

text \<open>
  File descriptors are natural numbers, so a descriptor is never negative;
  a call that fails returns an error number instead.  A script entry is
  what one call returns: \<open>ReadOk bs\<close> is a \<^verbatim>\<open>read\<close> that delivers \<open>bs\<close>
  (no bytes: end of stream), \<open>WriteOk k\<close> a \<^verbatim>\<open>write\<close> that takes at most \<open>k\<close>
  of the bytes offered.  A socket whose script is used up would block.
\<close>

type_synonym byte = "8 word"
type_synonym fd = nat

datatype read_result = ReadOk "byte list" | ReadErr errno
datatype write_result = WriteOk nat | WriteErr errno
datatype accept_result = AcceptOk fd sockaddr nat | AcceptErr errno
datatype how = SHUT_RD | SHUT_WR

text \<open>
  The calls the program makes on the outside world are recorded in order.
\<close>

datatype event =
    Stderr string
  | Stdout string
  | SysSocket fd nat "32 word" nat
  | SysSetReuseAddr fd
  | SysBind fd sockaddr nat
  | SysListen fd nat
  | SysConnect fd sockaddr nat
  | SysShutdown fd how
  | SysClose fd
  | Fclose string
  | EvIoStart fd "32 word"
  | EvIoStop fd

text \<open>
  A stream (\<^verbatim>\<open>FILE *\<close>) is the name of its file and its position; the bytes
  are in the file system.  \<^verbatim>\<open>fpos_t\<close> is a byte offset.
\<close>

record FILE =
  fname :: string
  fpos :: nat

text \<open>
  An \<^verbatim>\<open>ev_io\<close> watcher of libev.  \<^verbatim>\<open>ev_io_set\<close> stores the events together
  with the private bit \<^verbatim>\<open>EV__IOFDSET\<close>, which \<^verbatim>\<open>ev_io_start\<close> clears again;
  this is why the code masks the events with \<^verbatim>\<open>EV_READ | EV_WRITE\<close>.
\<close>

record ev_io =
  fd :: fd
  events :: "32 word"
  active :: bool

definition EV_READ :: "32 word" where "EV_READ = 0x01"
definition EV_WRITE :: "32 word" where "EV_WRITE = 0x02"
definition EV__IOFDSET :: "32 word" where "EV__IOFDSET = 0x80"
definition EV_ERROR :: "32 word" where "EV_ERROR = 0x80000000"

record bridge =
  srcwatcher :: ev_io
  destwatcher :: ev_io
  srcFile :: FILE
  destFile :: FILE
  srcPos :: nat
  destPos :: nat
  eofFromSource :: bool
  sourceFlushed :: bool
  connectedToDestination :: bool
  eofFromDestination :: bool
  destinationFlushed :: bool

record listener =
  address :: string
  watcher :: ev_io

text \<open>One node of the list \<^verbatim>\<open>getaddrinfo\<close> returns; \<^verbatim>\<open>ai_next\<close> is the rest of the list.\<close>

record addrinfo =
  ai_family :: nat
  ai_socktype :: "32 word"
  ai_protocol :: nat
  ai_addrlen :: nat
  ai_addr :: sockaddr

text \<open>
  The world: the scripts of the sockets, the injected faults, the pending
  socket errors and local names the kernel reports, the next free
  descriptor, the file system, the bytes each socket has taken, the calls
  made so far, and the bridges and listeners that live on the heap.
\<close>

record world =
  sock_in :: "fd \<Rightarrow> read_result list"
  sock_out :: "fd \<Rightarrow> write_result list"
  acceptq :: "fd \<Rightarrow> accept_result list"
  faults :: "errno option list"
  so_error :: "fd \<Rightarrow> nat"
  sockname :: "fd \<Rightarrow> sockaddr \<times> nat"
  next_fd :: fd
  fs :: "string \<Rightarrow> byte list"
  sent :: "fd \<Rightarrow> byte list"
  trace :: "event list"
  bridges :: "bridge list"
  listeners :: "listener list"

definition emit :: "event \<Rightarrow> world \<Rightarrow> world" where
  "emit e w = w\<lparr>trace := trace w @ [e]\<rparr>"

text \<open>The calls made between an earlier world and a later one.\<close>

definition new_events :: "world \<Rightarrow> world \<Rightarrow> event list" where
  "new_events w w' = drop (length (trace w)) (trace w')"

text \<open>
  A call that only succeeds or fails takes the next injected fault:
  \<open>None\<close>, or no fault left, and it succeeds.
\<close>

definition take_fault :: "world \<Rightarrow> errno option \<times> world" where
  "take_fault w =
     (case faults w of
        [] \<Rightarrow> (None, w)
      | x # xs \<Rightarrow> (x, w\<lparr>faults := xs\<rparr>))"

definition sys_read :: "fd \<Rightarrow> nat \<Rightarrow> world \<Rightarrow> read_result \<times> world" where
  "sys_read s n w =
     (case sock_in w s of
        [] \<Rightarrow> (ReadErr EAGAIN, w)
      | r # rs \<Rightarrow>
          ((case r of ReadOk bs \<Rightarrow> ReadOk (take n bs) | ReadErr e \<Rightarrow> ReadErr e),
           w\<lparr>sock_in := (sock_in w)(s := rs)\<rparr>))"

definition sys_write :: "fd \<Rightarrow> byte list \<Rightarrow> world \<Rightarrow> write_result \<times> world" where
  "sys_write s buf w =
     (case sock_out w s of
        [] \<Rightarrow> (WriteErr EAGAIN, w)
      | r # rs \<Rightarrow>
          (case r of
             WriteErr e \<Rightarrow> (WriteErr e, w\<lparr>sock_out := (sock_out w)(s := rs)\<rparr>)
           | WriteOk k \<Rightarrow>
               (WriteOk (min k (length buf)),
                w\<lparr>sock_out := (sock_out w)(s := rs),
                  sent := (sent w)(s := sent w s @ take k buf)\<rparr>)))"

definition sys_shutdown :: "fd \<Rightarrow> how \<Rightarrow> world \<Rightarrow> bool \<times> world" where
  "sys_shutdown s h w =
     (case take_fault (emit (SysShutdown s h) w) of (r, w1) \<Rightarrow> (r = None, w1))"

text \<open>A line on the standard error stream changes nothing outside the process.\<close>

definition is_stderr :: "event \<Rightarrow> bool" where
  "is_stderr e = (case e of Stderr line \<Rightarrow> True | _ \<Rightarrow> False)"

text \<open>A step that makes no call but writes lines to the standard error stream.\<close>

definition logs_only :: "world \<Rightarrow> world \<Rightarrow> bool" where
  "logs_only w w' \<longleftrightarrow> (\<exists>evs. trace w' = trace w @ evs \<and> list_all is_stderr evs)"

text \<open>
  A step that only makes calls: it may use up faults, allocate descriptors
  and add to the record of calls, and leaves the sockets' scripts, the
  kernel's answers, the files, the bytes sent and the heap as they were.
\<close>

definition calls_only :: "world \<Rightarrow> world \<Rightarrow> bool" where
  "calls_only w w' \<longleftrightarrow>
     sock_in w' = sock_in w \<and> sock_out w' = sock_out w \<and> acceptq w' = acceptq w \<and>
     so_error w' = so_error w \<and> sockname w' = sockname w \<and> fs w' = fs w \<and>
     sent w' = sent w \<and> bridges w' = bridges w \<and> listeners w' = listeners w"

subsection \<open>Buffered streams in mode \<^verbatim>\<open>a+\<close>\<close>

text \<open>
  Each function returns whether the call succeeded.  Writing appends to the
  file wherever the position is; reading starts at the position.
\<close>

definition fopen_append :: "string \<Rightarrow> world \<Rightarrow> FILE option \<times> world" where
  "fopen_append name w =
     (case take_fault w of
        (Some e, w1) \<Rightarrow> (None, w1)
      | (None, w1) \<Rightarrow> (Some \<lparr>fname = name, fpos = 0\<rparr>, w1))"

definition fseek_end :: "FILE \<Rightarrow> world \<Rightarrow> bool \<times> FILE \<times> world" where
  "fseek_end f w =
     (case take_fault w of
        (Some e, w1) \<Rightarrow> (False, f, w1)
      | (None, w1) \<Rightarrow> (True, f\<lparr>fpos := length (fs w1 (fname f))\<rparr>, w1))"

definition fseek_cur :: "FILE \<Rightarrow> nat \<Rightarrow> world \<Rightarrow> bool \<times> FILE \<times> world" where
  "fseek_cur f off w =
     (case take_fault w of
        (Some e, w1) \<Rightarrow> (False, f, w1)
      | (None, w1) \<Rightarrow> (True, f\<lparr>fpos := fpos f + off\<rparr>, w1))"

definition fsetpos :: "FILE \<Rightarrow> nat \<Rightarrow> world \<Rightarrow> bool \<times> FILE \<times> world" where
  "fsetpos f pos w =
     (case take_fault w of
        (Some e, w1) \<Rightarrow> (False, f, w1)
      | (None, w1) \<Rightarrow> (True, f\<lparr>fpos := pos\<rparr>, w1))"

definition fgetpos :: "FILE \<Rightarrow> world \<Rightarrow> nat option \<times> world" where
  "fgetpos f w =
     (case take_fault w of
        (Some e, w1) \<Rightarrow> (None, w1)
      | (None, w1) \<Rightarrow> (Some (fpos f), w1))"

text \<open>
  \<^verbatim>\<open>fread(buf, 1, n, f)\<close>: the bytes read, whether the end-of-file indicator
  is set, and the stream.  A failed call reads nothing and sets no
  end-of-file indicator.
\<close>

definition fread :: "FILE \<Rightarrow> nat \<Rightarrow> world \<Rightarrow> byte list \<times> bool \<times> FILE \<times> world" where
  "fread f n w =
     (case take_fault w of
        (Some e, w1) \<Rightarrow> ([], False, f, w1)
      | (None, w1) \<Rightarrow>
          (let buf = take n (drop (fpos f) (fs w1 (fname f)))
           in (buf, length buf < n, f\<lparr>fpos := fpos f + length buf\<rparr>, w1)))"

text \<open>\<^verbatim>\<open>fwrite(buf, len, 1, f)\<close>: one item of all the bytes, or nothing.\<close>

definition fwrite :: "byte list \<Rightarrow> FILE \<Rightarrow> world \<Rightarrow> bool \<times> FILE \<times> world" where
  "fwrite buf f w =
     (case take_fault w of
        (Some e, w1) \<Rightarrow> (False, f, w1)
      | (None, w1) \<Rightarrow>
          (let content = fs w1 (fname f) @ buf
           in (True, f\<lparr>fpos := length content\<rparr>, w1\<lparr>fs := (fs w1)(fname f := content)\<rparr>)))"

subsection \<open>Journal transfer: \<^verbatim>\<open>read_into_file\<close> and \<^verbatim>\<open>write_from_file\<close>\<close>

definition FILE_BUFSIZE :: nat where "FILE_BUFSIZE = 8192"
definition FILE_EOF :: int where "FILE_EOF = - 1"
definition FILE_ERROR :: int where "FILE_ERROR = - 2"

text \<open>
  The loop of \<^verbatim>\<open>read_into_file\<close>; the result is the return value, \<^verbatim>\<open>*count\<close>,
  the stream and the world.
\<close>

function read_loop :: "fd \<Rightarrow> FILE \<Rightarrow> nat \<Rightarrow> world \<Rightarrow> int \<times> nat \<times> FILE \<times> world" where
  "read_loop s f count w =
     (case sys_read s FILE_BUFSIZE w of
        (ReadErr e, w1) \<Rightarrow>
          if e = EINTR then read_loop s f count w1
          else if e = EAGAIN \<or> e = EWOULDBLOCK then (0, count, f, w1)
          else (FILE_EOF, count, f, emit (Stderr ''Error reading from connection'') w1)
      | (ReadOk buf, w1) \<Rightarrow>
          if buf = [] then (FILE_EOF, count, f, w1)
          else
            (case fwrite buf f w1 of
               (False, f1, w2) \<Rightarrow>
                 (FILE_ERROR, count, f1, emit (Stderr ''Unable to write to file'') w2)
             | (True, f1, w2) \<Rightarrow> read_loop s f1 (count + length buf) w2))"
  by pat_completeness auto
termination
  by (relation "measure (\<lambda>(s, f, count, w). length (sock_in w s))")
     (auto simp add: sys_read_def fwrite_def take_fault_def Let_def
           split: list.splits option.splits read_result.splits)

declare read_loop.simps [simp del]

definition read_into_file :: "fd \<Rightarrow> FILE \<Rightarrow> world \<Rightarrow> int \<times> nat \<times> FILE \<times> world" where
  "read_into_file s f w = read_loop s f 0 w"

text \<open>
  The inner loop of \<^verbatim>\<open>write_from_file\<close>, which writes the chunk \<open>buf\<close> to
  the socket from \<open>bufpos\<close> on.  \<open>Some (rc, f, pos)\<close> is a return from inside
  the loop, with the return value, the stream and \<^verbatim>\<open>*pos\<close>; \<open>None\<close> is the
  loop running to its end with the whole chunk written.
\<close>

function write_buf ::
  "fd \<Rightarrow> FILE \<Rightarrow> nat \<Rightarrow> byte list \<Rightarrow> nat \<Rightarrow> world \<Rightarrow> (int \<times> FILE \<times> nat) option \<times> world" where
  "write_buf s f pos buf bufpos w =
     (if bufpos = length buf then (None, w)
      else
        (case sys_write s (drop bufpos buf) w of
           (WriteErr e, w1) \<Rightarrow>
             if e = EINTR then write_buf s f pos buf bufpos w1
             else if e = EAGAIN \<or> e = EWOULDBLOCK then
               (case fsetpos f pos w1 of
                  (False, f1, w2) \<Rightarrow>
                    (Some (FILE_ERROR, f1, pos),
                     emit (Stderr ''Unable to set correct file position'') w2)
                | (True, f1, w2) \<Rightarrow>
                    if 0 < bufpos then
                      (case fseek_cur f1 bufpos w2 of
                         (False, f2, w3) \<Rightarrow>
                           (Some (FILE_ERROR, f2, pos),
                            emit (Stderr ''Unable to set correct file position'') w3)
                       | (True, f2, w3) \<Rightarrow>
                           (case fgetpos f2 w3 of
                              (None, w4) \<Rightarrow>
                                (Some (FILE_ERROR, f2, pos),
                                 emit (Stderr ''Unable to obtain current file position'') w4)
                            | (Some p, w4) \<Rightarrow> (Some (0, f2, p), w4)))
                    else (Some (0, f1, pos), w2))
             else (Some (FILE_ERROR, f, pos), emit (Stderr ''Error writing to socket'') w1)
         | (WriteOk n, w1) \<Rightarrow> write_buf s f pos buf (bufpos + n) w1))"
  by pat_completeness auto
termination
  by (relation "measure (\<lambda>(s, f, pos, buf, bufpos, w). length (sock_out w s))")
     (auto simp add: sys_write_def split: list.splits write_result.splits)

declare write_buf.simps [simp del]

lemma write_buf_consumes:
  "write_buf s f pos buf bufpos w = (None, w') \<Longrightarrow> bufpos \<noteq> length buf \<Longrightarrow>
   length (sock_out w' s) < length (sock_out w s)"
proof (induction s f pos buf bufpos w rule: write_buf.induct)
  case (1 s f pos buf bufpos w)
  obtain r w1 where sw: "sys_write s (drop bufpos buf) w = (r, w1)"
    by (cases "sys_write s (drop bufpos buf) w")
  from sw have step: "r \<noteq> WriteErr EAGAIN \<Longrightarrow> length (sock_out w1 s) < length (sock_out w s)"
    by (auto simp add: sys_write_def split: list.splits write_result.splits)
  show ?case
  proof (cases r)
    case (WriteErr e)
    with "1.prems" sw have e: "e = EINTR"
      by (simp add: write_buf.simps [of s f pos buf bufpos w]
          split: if_splits prod.splits bool.splits option.splits)
    with "1.prems" sw WriteErr have rest: "write_buf s f pos buf bufpos w1 = (None, w')"
      by (simp add: write_buf.simps [of s f pos buf bufpos w])
    have "length (sock_out w' s) < length (sock_out w1 s)"
      using "1.IH"(2) [OF "1.prems"(2) sw [symmetric] WriteErr e rest "1.prems"(2)] .
    with step WriteErr e show ?thesis by simp
  next
    case (WriteOk n)
    with "1.prems" sw have rest: "write_buf s f pos buf (bufpos + n) w1 = (None, w')"
      by (simp add: write_buf.simps [of s f pos buf bufpos w])
    have le: "length (sock_out w' s) \<le> length (sock_out w1 s)"
    proof (cases "bufpos + n = length buf")
      case True
      with rest have "write_buf s f pos buf (length buf) w1 = (None, w')" by simp
      then show ?thesis by (simp add: write_buf.simps [of s f pos buf "length buf" w1])
    next
      case False
      from "1.IH"(1) [OF "1.prems"(2) sw [symmetric] WriteOk rest False] show ?thesis by simp
    qed
    with step WriteOk show ?thesis by simp
  qed
qed

text \<open>
  The outer loop of \<^verbatim>\<open>write_from_file\<close>: read the next chunk from the
  stream, write it to the socket, fetch the new position.
\<close>

function write_loop :: "fd \<Rightarrow> FILE \<Rightarrow> nat \<Rightarrow> world \<Rightarrow> int \<times> FILE \<times> nat \<times> world" where
  "write_loop s f pos w =
     (case fread f FILE_BUFSIZE w of
        (buf, eof, f1, w1) \<Rightarrow>
          if buf = [] then
            (if eof then (FILE_EOF, f1, pos, w1)
             else (FILE_ERROR, f1, pos, emit (Stderr ''Error reading from file'') w1))
          else
            (case write_buf s f1 pos buf 0 w1 of
               (Some (rc, f2, p), w2) \<Rightarrow> (rc, f2, p, w2)
             | (None, w2) \<Rightarrow>
                 (case fgetpos f1 w2 of
                    (None, w3) \<Rightarrow>
                      (FILE_ERROR, f1, pos,
                       emit (Stderr ''Unable to obtain current file position'') w3)
                  | (Some p, w3) \<Rightarrow> write_loop s f1 p w3)))"
  by pat_completeness auto
termination
  by (relation "measure (\<lambda>(s, f, pos, w). length (sock_out w s))")
     (auto simp add: fread_def fgetpos_def take_fault_def Let_def
           split: list.splits option.splits
           dest!: write_buf_consumes [OF sym])

declare write_loop.simps [simp del]

definition write_from_file :: "fd \<Rightarrow> FILE \<Rightarrow> nat \<Rightarrow> world \<Rightarrow> int \<times> FILE \<times> nat \<times> world" where
  "write_from_file s f pos w =
     (case fsetpos f pos w of
        (False, f1, w1) \<Rightarrow>
          (FILE_ERROR, f1, pos,
           emit (Stderr ''Unable to seek to correct file position for reading'') w1)
      | (True, f1, w1) \<Rightarrow> write_loop s f1 pos w1)"

text \<open>
  The same world, with every \<^verbatim>\<open>EINTR\<close> answer taken out of the script of
  \<^verbatim>\<open>write\<close> on one socket: the environment in which no signal interrupts
  a write on it.
\<close>

definition without_eintr :: "fd \<Rightarrow> world \<Rightarrow> world" where
  "without_eintr s w =
     w\<lparr>sock_out := (sock_out w)(s := filter (\<lambda>r. r \<noteq> WriteErr EINTR) (sock_out w s))\<rparr>"

subsection \<open>Watchers, descriptors and streams\<close>

definition ev_io_init :: "fd \<Rightarrow> 32 word \<Rightarrow> ev_io" where
  "ev_io_init s ev = \<lparr>fd = s, events = ev OR EV__IOFDSET, active = False\<rparr>"

definition ev_io_set :: "ev_io \<Rightarrow> fd \<Rightarrow> 32 word \<Rightarrow> ev_io" where
  "ev_io_set io s ev = io\<lparr>fd := s, events := ev OR EV__IOFDSET\<rparr>"

text \<open>Starting an active watcher and stopping an inactive one change nothing.\<close>

definition ev_io_start :: "ev_io \<Rightarrow> world \<Rightarrow> ev_io \<times> world" where
  "ev_io_start io w =
     (if active io then (io, emit (EvIoStart (fd io) (events io)) w)
      else
        (let io1 = io\<lparr>events := events io AND NOT EV__IOFDSET, active := True\<rparr>
         in (io1, emit (EvIoStart (fd io1) (events io1)) w)))"

definition ev_io_stop :: "ev_io \<Rightarrow> world \<Rightarrow> ev_io \<times> world" where
  "ev_io_stop io w = (io\<lparr>active := False\<rparr>, emit (EvIoStop (fd io)) w)"

function close_fd :: "fd \<Rightarrow> world \<Rightarrow> world" where
  "close_fd s w =
     (case take_fault (emit (SysClose s) w) of
        (None, w1) \<Rightarrow> w1
      | (Some e, w1) \<Rightarrow>
          if e = EINTR then close_fd s w1
          else emit (Stderr ''Unable to properly close fd'') w1)"
  by pat_completeness auto
termination
  by (relation "measure (\<lambda>(s, w). length (faults w))")
     (auto simp add: take_fault_def emit_def split: list.splits)

declare close_fd.simps [simp del]

function close_output_file :: "FILE \<Rightarrow> world \<Rightarrow> world" where
  "close_output_file f w =
     (case take_fault (emit (Fclose (fname f)) w) of
        (None, w1) \<Rightarrow> w1
      | (Some e, w1) \<Rightarrow>
          if e = EINTR then close_output_file f w1
          else emit (Stderr ''Unable to properly close file'') w1)"
  by pat_completeness auto
termination
  by (relation "measure (\<lambda>(f, w). length (faults w))")
     (auto simp add: take_fault_def emit_def split: list.splits)

declare close_output_file.simps [simp del]

text \<open>
  A failed \<^verbatim>\<open>assert\<close> aborts the process.  Only the assertions on values that
  come from outside are modelled; descriptors are never negative and
  pointers never null.
\<close>

datatype 'a outcome = AssertFailed | Returned 'a

definition open_output_file ::
  "nat \<Rightarrow> sockaddr \<Rightarrow> world \<Rightarrow> (FILE \<times> nat) option outcome \<times> world" where
  "open_output_file addrlen addr w =
     (if \<not> 0 < addrlen then (AssertFailed, w)
      else
        (case satos addr addrlen of
           Inl e \<Rightarrow> (Returned None, emit (Stderr ''Unable to obtain output file name.'') w)
         | Inr name \<Rightarrow>
             (case fopen_append name w of
                (None, w1) \<Rightarrow> (Returned None, emit (Stderr ''Unable to open output file'') w1)
              | (Some result, w1) \<Rightarrow>
                  (case fseek_end result w1 of
                     (False, f1, w2) \<Rightarrow>
                       (Returned None,
                        close_output_file f1 (emit (Stderr ''Unable to seek to end of file'') w2))
                   | (True, f1, w2) \<Rightarrow>
                       (case fgetpos f1 w2 of
                          (None, w3) \<Rightarrow>
                            (Returned None,
                             close_output_file f1
                               (emit (Stderr ''Unable to obtain file position of file'') w3))
                        | (Some pos, w3) \<Rightarrow> (Returned (Some (f1, pos)), w3))))))"

subsection \<open>The bridge\<close>

definition bridge_fini :: "bridge \<Rightarrow> world \<Rightarrow> bridge \<times> world" where
  "bridge_fini b w =
     (case ev_io_stop (srcwatcher b) w of
        (sw, w1) \<Rightarrow>
          (case ev_io_stop (destwatcher b) w1 of
             (dw, w2) \<Rightarrow>
               (b\<lparr>srcwatcher := sw, destwatcher := dw\<rparr>,
                close_output_file (destFile b)
                  (close_output_file (srcFile b)
                     (close_fd (fd dw) (close_fd (fd sw) w2))))))"

text \<open>
  What a dispatch of \<^verbatim>\<open>bridge_cb\<close> leaves: the bridge, still alive, or
  nothing, the bridge having been finalised and freed.
\<close>

datatype cb_result = Running bridge | Destroyed

definition bridge_del :: "bridge \<Rightarrow> world \<Rightarrow> cb_result \<times> world" where
  "bridge_del b w = (Destroyed, snd (bridge_fini b w))"

text \<open>
  The four transfer steps of \<^verbatim>\<open>bridge_cb\<close>, in the order of the code.  The
  first component of a result tells whether the step ended in
  \<^verbatim>\<open>goto error\<close>.
\<close>

definition read_source :: "bridge \<Rightarrow> world \<Rightarrow> bool \<times> nat \<times> bridge \<times> world" where
  "read_source b w =
     (case (if \<not> eofFromSource b then read_into_file (fd (srcwatcher b)) (srcFile b) w
            else (0, 0, srcFile b, w)) of
        (rc, count, f, w1) \<Rightarrow>
          if rc = FILE_ERROR then
            (True, count, b\<lparr>srcFile := f\<rparr>,
             emit (Stderr ''Error reading from source into source output file'') w1)
          else if rc = FILE_EOF then
            (case sys_shutdown (fd (srcwatcher b)) SHUT_RD w1 of
               (ok, w2) \<Rightarrow>
                 (False, count, b\<lparr>srcFile := f, eofFromSource := True\<rparr>,
                  if ok then w2 else emit (Stderr ''Unable to shutdown source for reading'') w2))
          else (False, count, b\<lparr>srcFile := f\<rparr>, w1))"

text \<open>
  The conditions under which steps two and four call \<^verbatim>\<open>write_from_file\<close>;
  otherwise they take the journal to be drained without looking at it.
\<close>

definition replays_source :: "nat \<Rightarrow> bridge \<Rightarrow> bool" where
  "replays_source count b = (\<not> sourceFlushed b \<or> 0 < count)"

definition replays_destination :: "nat \<Rightarrow> bridge \<Rightarrow> bool" where
  "replays_destination count b = (\<not> destinationFlushed b \<or> 0 < count)"

definition bridge_source :: "nat \<Rightarrow> bridge \<Rightarrow> world \<Rightarrow> bool \<times> bridge \<times> world" where
  "bridge_source count b w =
     (case (if replays_source count b
            then write_from_file (fd (destwatcher b)) (srcFile b) (srcPos b) w
            else (FILE_EOF, srcFile b, srcPos b, w)) of
        (rc, f, pos, w1) \<Rightarrow>
          if rc = FILE_ERROR then
            (True, b\<lparr>srcFile := f, srcPos := pos\<rparr>,
             emit (Stderr ''Error writing from source output file to destination'') w1)
          else if rc = FILE_EOF then
            (False, b\<lparr>srcFile := f, srcPos := pos, sourceFlushed := True\<rparr>,
             if eofFromSource b then
               (case sys_shutdown (fd (destwatcher b)) SHUT_WR w1 of
                  (ok, w2) \<Rightarrow>
                    if ok then w2
                    else emit (Stderr ''Unable to shutdown destination for writing'') w2)
             else w1)
          else (False, b\<lparr>srcFile := f, srcPos := pos, sourceFlushed := False\<rparr>, w1))"

definition read_destination :: "bridge \<Rightarrow> world \<Rightarrow> bool \<times> nat \<times> bridge \<times> world" where
  "read_destination b w =
     (case (if \<not> eofFromDestination b then read_into_file (fd (destwatcher b)) (destFile b) w
            else (0, 0, destFile b, w)) of
        (rc, count, f, w1) \<Rightarrow>
          if rc = FILE_ERROR then
            (True, count, b\<lparr>destFile := f\<rparr>,
             emit (Stderr ''Error reading from destination into destination output file'') w1)
          else if rc = FILE_EOF then
            (case sys_shutdown (fd (destwatcher b)) SHUT_RD w1 of
               (ok, w2) \<Rightarrow>
                 (False, count, b\<lparr>destFile := f, eofFromDestination := True\<rparr>,
                  if ok then w2 else emit (Stderr ''Unable to shutdown destination for reading'') w2))
          else (False, count, b\<lparr>destFile := f\<rparr>, w1))"

definition bridge_destination :: "nat \<Rightarrow> bridge \<Rightarrow> world \<Rightarrow> bool \<times> bridge \<times> world" where
  "bridge_destination count b w =
     (case (if replays_destination count b
            then write_from_file (fd (srcwatcher b)) (destFile b) (destPos b) w
            else (FILE_EOF, destFile b, destPos b, w)) of
        (rc, f, pos, w1) \<Rightarrow>
          if rc = FILE_ERROR then
            (True, b\<lparr>destFile := f, destPos := pos\<rparr>,
             emit (Stderr ''Error writing from destination output file to source'') w1)
          else if rc = FILE_EOF then
            (False, b\<lparr>destFile := f, destPos := pos, destinationFlushed := True\<rparr>,
             if eofFromDestination b then
               (case sys_shutdown (fd (srcwatcher b)) SHUT_WR w1 of
                  (ok, w2) \<Rightarrow>
                    if ok then w2
                    else emit (Stderr ''Unable to shutdown source for writing'') w2)
             else w1)
          else (False, b\<lparr>destFile := f, destPos := pos, destinationFlushed := False\<rparr>, w1))"

text \<open>``Recalibrate watchers'': one watcher, given its new flags.\<close>

definition rearm :: "ev_io \<Rightarrow> 32 word \<Rightarrow> world \<Rightarrow> ev_io \<times> world" where
  "rearm io newflags w =
     (if events io \<noteq> newflags then
        (case ev_io_stop io w of
           (io1, w1) \<Rightarrow>
             (let io2 = ev_io_set io1 (fd io1) newflags
              in if newflags \<noteq> 0 then ev_io_start io2 w1 else (io2, w1)))
      else (io, w))"

definition src_flags :: "bridge \<Rightarrow> 32 word" where
  "src_flags b =
     (let newflags = (if \<not> eofFromSource b then EV_READ else 0)
      in if \<not> destinationFlushed b then newflags OR EV_WRITE else newflags)"

definition dest_flags :: "bridge \<Rightarrow> 32 word" where
  "dest_flags b =
     (let newflags = (if \<not> eofFromDestination b then EV_READ else 0)
      in if \<not> sourceFlushed b then newflags OR EV_WRITE else newflags)"

definition recalibrate :: "bridge \<Rightarrow> world \<Rightarrow> bridge \<times> world" where
  "recalibrate b w =
     (case rearm (srcwatcher b) (src_flags b) w of
        (sw, w1) \<Rightarrow>
          (case rearm (destwatcher b) (dest_flags b) w1 of
             (dw, w2) \<Rightarrow> (b\<lparr>srcwatcher := sw, destwatcher := dw\<rparr>, w2)))"

text \<open>``Check if we need to complete the connection''.\<close>

definition sys_getsockopt_error :: "fd \<Rightarrow> world \<Rightarrow> nat option \<times> world" where
  "sys_getsockopt_error s w =
     (case take_fault w of
        (Some e, w1) \<Rightarrow> (None, w1)
      | (None, w1) \<Rightarrow> (Some (so_error w1 s), w1))"

definition complete_connection :: "bridge \<Rightarrow> world \<Rightarrow> cb_result \<times> world" where
  "complete_connection b w =
     (case sys_getsockopt_error (fd (destwatcher b)) w of
        (None, w1) \<Rightarrow>
          bridge_del b (emit (Stderr ''Unable to obtain connection completion information'') w1)
      | (Some errcode, w1) \<Rightarrow>
          if errcode = 0 then
            (case ev_io_stop (destwatcher b) w1 of
               (dw, w2) \<Rightarrow>
                 (case ev_io_start (ev_io_set (srcwatcher b) (fd (srcwatcher b)) EV_READ) w2 of
                    (sw1, w3) \<Rightarrow>
                      (case ev_io_start (ev_io_set dw (fd dw) EV_READ) w3 of
                         (dw1, w4) \<Rightarrow>
                           (Running (b\<lparr>srcwatcher := sw1, destwatcher := dw1,
                                       connectedToDestination := True\<rparr>), w4))))
          else bridge_del b (emit (Stderr ''Unable to complete connection'') w1))"

text \<open>``Perform operation'': the four steps, stopping at the first error.\<close>

definition four_steps :: "bridge \<Rightarrow> world \<Rightarrow> bool \<times> bridge \<times> world" where
  "four_steps b w =
     (case read_source b w of
        (True, count, b1, w1) \<Rightarrow> (True, b1, w1)
      | (False, count, b1, w1) \<Rightarrow>
     (case bridge_source count b1 w1 of
        (True, b2, w2) \<Rightarrow> (True, b2, w2)
      | (False, b2, w2) \<Rightarrow>
     (case read_destination b2 w2 of
        (True, count, b3, w3) \<Rightarrow> (True, b3, w3)
      | (False, count, b3, w3) \<Rightarrow> bridge_destination count b3 w3)))"

text \<open>
  After the four steps: recalibrate the watchers and destroy the bridge
  when neither watcher waits for anything.
\<close>

definition finish :: "bridge \<Rightarrow> world \<Rightarrow> cb_result \<times> world" where
  "finish b w =
     (case recalibrate b w of
        (b5, w5) \<Rightarrow>
          if events (srcwatcher b5) AND (EV_READ OR EV_WRITE) = 0 \<and>
             events (destwatcher b5) AND (EV_READ OR EV_WRITE) = 0
          then bridge_del b5 w5
          else (Running b5, w5))"

definition transfer :: "bridge \<Rightarrow> world \<Rightarrow> cb_result \<times> world" where
  "transfer b w =
     (case four_steps b w of
        (True, b4, w4) \<Rightarrow> bridge_del b4 w4
      | (False, b4, w4) \<Rightarrow> finish b4 w4)"

text \<open>
  \<^verbatim>\<open>bridge_cb\<close>.  \<open>on_dest\<close> tells whether the watcher passed is the
  destination watcher; \<open>flags\<close> are the event flags.  Both exits, \<^verbatim>\<open>cleanup\<close>
  and \<^verbatim>\<open>error\<close>, are \<^verbatim>\<open>bridge_del\<close>.
\<close>

definition bridge_cb :: "bool \<Rightarrow> 32 word \<Rightarrow> bridge \<Rightarrow> world \<Rightarrow> (cb_result \<times> world) outcome" where
  "bridge_cb on_dest flags b w =
     (if flags AND EV_ERROR \<noteq> 0 then
        Returned (bridge_del b (emit (Stderr ''Error in bridge callback'') w))
      else if flags AND (EV_READ OR EV_WRITE) = 0 then AssertFailed
      else if \<not> connectedToDestination b then
        (if \<not> on_dest then AssertFailed else Returned (complete_connection b w))
      else Returned (transfer b w))"

subsection \<open>Creating a bridge\<close>

definition SOCK_STREAM :: "32 word" where "SOCK_STREAM = 1"
definition SOCK_NONBLOCK :: "32 word" where "SOCK_NONBLOCK = 0x800"
definition SOCK_CLOEXEC :: "32 word" where "SOCK_CLOEXEC = 0x80000"
definition BACKLOG :: nat where "BACKLOG = 1000"

definition sys_socket :: "nat \<Rightarrow> 32 word \<Rightarrow> nat \<Rightarrow> world \<Rightarrow> fd option \<times> world" where
  "sys_socket family type protocol w =
     (case take_fault w of
        (Some e, w1) \<Rightarrow> (None, w1)
      | (None, w1) \<Rightarrow>
          (Some (next_fd w1),
           emit (SysSocket (next_fd w1) family type protocol) (w1\<lparr>next_fd := next_fd w1 + 1\<rparr>)))"

definition sys_getsockname :: "fd \<Rightarrow> world \<Rightarrow> (sockaddr \<times> nat) option \<times> world" where
  "sys_getsockname s w =
     (case take_fault w of
        (Some e, w1) \<Rightarrow> (None, w1)
      | (None, w1) \<Rightarrow> (Some (sockname w1 s), w1))"

text \<open>
  The loop around \<^verbatim>\<open>connect\<close>: \<open>Some True\<close> when it completes at once,
  \<open>Some False\<close> when it is in progress, \<open>None\<close> when it fails.
\<close>

function connect_loop :: "fd \<Rightarrow> addrinfo \<Rightarrow> world \<Rightarrow> bool option \<times> world" where
  "connect_loop destfd destaddr w =
     (case take_fault (emit (SysConnect destfd (ai_addr destaddr) (ai_addrlen destaddr)) w) of
        (None, w1) \<Rightarrow> (Some True, w1)
      | (Some e, w1) \<Rightarrow>
          if e = EINTR then connect_loop destfd destaddr w1
          else if e = EINPROGRESS then (Some False, w1)
          else (None, emit (Stderr ''Unable to establish connection to destination'') w1))"
  by pat_completeness auto
termination
  by (relation "measure (\<lambda>(destfd, destaddr, w). length (faults w))")
     (auto simp add: take_fault_def emit_def split: list.splits)

declare connect_loop.simps [simp del]

text \<open>
  \<^verbatim>\<open>bridge_init\<close>; \<open>destaddr\<close> is the global destination address.  \<open>None\<close> is
  the return value \<open>-1\<close>, \<open>Some b\<close> the initialised bridge with return value 0.
\<close>

definition init_watchers :: "fd \<Rightarrow> fd \<Rightarrow> bool \<Rightarrow> world \<Rightarrow> ev_io \<times> ev_io \<times> world" where
  "init_watchers srcfd destfd connected w =
     (let sw = ev_io_init srcfd EV_READ;
          dw = ev_io_init destfd EV_READ
      in if connected then
           (case ev_io_start sw w of
              (sw1, w1) \<Rightarrow> (case ev_io_start dw w1 of (dw1, w2) \<Rightarrow> (sw1, dw1, w2)))
         else
           (case ev_io_start (ev_io_set dw destfd EV_WRITE) w of
              (dw1, w1) \<Rightarrow> (sw, dw1, w1)))"

definition bridge_init ::
  "fd \<Rightarrow> nat \<Rightarrow> sockaddr \<Rightarrow> addrinfo \<Rightarrow> world \<Rightarrow> bridge option outcome \<times> world" where
  "bridge_init srcfd srcaddrlen srcaddr destaddr w =
     (if \<not> 0 < srcaddrlen then (AssertFailed, w)
      else
     (case sys_socket (ai_family destaddr)
             (ai_socktype destaddr OR SOCK_NONBLOCK OR SOCK_CLOEXEC) (ai_protocol destaddr) w of
        (None, w1) \<Rightarrow> (Returned None, emit (Stderr ''Unable to create destination socket'') w1)
      | (Some destfd, w1) \<Rightarrow>
     (case connect_loop destfd destaddr w1 of
        (None, w2) \<Rightarrow> (Returned None, close_fd destfd w2)
      | (Some connected, w2) \<Rightarrow>
     (case open_output_file srcaddrlen srcaddr w2 of
        (AssertFailed, w3) \<Rightarrow> (AssertFailed, w3)
      | (Returned None, w3) \<Rightarrow>
          (Returned None, close_fd destfd (emit (Stderr ''Unable to open source output file'') w3))
      | (Returned (Some (sf, spos)), w3) \<Rightarrow>
     (case sys_getsockname destfd w3 of
        (None, w4) \<Rightarrow>
          (Returned None,
           close_fd destfd
             (close_output_file sf (emit (Stderr ''Unable to obtain destination socket name'') w4)))
      | (Some (destaddr', destaddrlen), w4) \<Rightarrow>
     (case open_output_file destaddrlen destaddr' w4 of
        (AssertFailed, w5) \<Rightarrow> (AssertFailed, w5)
      | (Returned None, w5) \<Rightarrow>
          (Returned None,
           close_fd destfd
             (close_output_file sf (emit (Stderr ''unable to open destination output file'') w5)))
      | (Returned (Some (df, dpos)), w5) \<Rightarrow>
     (case init_watchers srcfd destfd connected w5 of
        (sw, dw, w6) \<Rightarrow>
          (Returned (Some
             \<lparr>srcwatcher = sw, destwatcher = dw, srcFile = sf, destFile = df,
              srcPos = spos, destPos = dpos,
              eofFromSource = False, sourceFlushed = True,
              connectedToDestination = connected,
              eofFromDestination = False, destinationFlushed = True\<rparr>), w6))))))))"

definition bridge_new ::
  "fd \<Rightarrow> nat \<Rightarrow> sockaddr \<Rightarrow> addrinfo \<Rightarrow> world \<Rightarrow> bridge option outcome \<times> world" where
  "bridge_new s srcaddrlen srcaddr destaddr w =
     (if \<not> 0 < srcaddrlen then (AssertFailed, w)
      else
        (case take_fault w of
           (Some e, w1) \<Rightarrow>
             (Returned None, emit (Stderr ''Insufficient memory to allocate bridge memory'') w1)
         | (None, w1) \<Rightarrow>
             (case bridge_init s srcaddrlen srcaddr destaddr w1 of
                (AssertFailed, w2) \<Rightarrow> (AssertFailed, w2)
              | (Returned None, w2) \<Rightarrow>
                  (Returned None, emit (Stderr ''Unable to initialise bridge'') w2)
              | (Returned (Some b), w2) \<Rightarrow> (Returned (Some b), w2))))"

text \<open>
  \<^verbatim>\<open>start_bridge\<close> returns 0 and leaves the new bridge on the heap, or
  closes the connection and returns \<open>-1\<close>.
\<close>

definition start_bridge ::
  "fd \<Rightarrow> nat \<Rightarrow> sockaddr \<Rightarrow> addrinfo \<Rightarrow> world \<Rightarrow> int outcome \<times> world" where
  "start_bridge s srcaddrlen srcaddr destaddr w =
     (if \<not> 0 < srcaddrlen then (AssertFailed, w)
      else
        (case bridge_new s srcaddrlen srcaddr destaddr w of
           (AssertFailed, w1) \<Rightarrow> (AssertFailed, w1)
         | (Returned None, w1) \<Rightarrow>
             (Returned (- 1), close_fd s (emit (Stderr ''Unable to create new bridge'') w1))
         | (Returned (Some b), w1) \<Rightarrow> (Returned 0, w1\<lparr>bridges := bridges w1 @ [b]\<rparr>)))"

subsection \<open>The states a bridge can be in\<close>

text \<open>
  Both replay cursors lie within their journals.
\<close>

definition cursors_in_range :: "bridge \<Rightarrow> world \<Rightarrow> bool" where
  "cursors_in_range b w \<longleftrightarrow>
     srcPos b \<le> length (fs w (fname (srcFile b))) \<and>
     destPos b \<le> length (fs w (fname (destFile b)))"

text \<open>
  A journal that is marked as flushed holds no byte beyond its replay
  cursor.
\<close>

definition drained_if_flushed :: "bridge \<Rightarrow> world \<Rightarrow> bool" where
  "drained_if_flushed b w \<longleftrightarrow>
     (sourceFlushed b \<longrightarrow> length (fs w (fname (srcFile b))) \<le> srcPos b) \<and>
     (destinationFlushed b \<longrightarrow> length (fs w (fname (destFile b))) \<le> destPos b)"

text \<open>
  Between two dispatches everything outside the bridge may change, but no
  file gets shorter: the program never truncates a journal, and other
  bridges only append.
\<close>

definition files_grow :: "world \<Rightarrow> world \<Rightarrow> bool" where
  "files_grow w w' \<longleftrightarrow> (\<forall>name. length (fs w name) \<le> length (fs w' name))"

text \<open>
  The dispatch boundaries of a bridge: after \<^verbatim>\<open>bridge_init\<close> has made it,
  after a dispatch of \<^verbatim>\<open>bridge_cb\<close> that leaves it alive, and after
  whatever happens outside between two dispatches.
\<close>

inductive reachable :: "bridge \<Rightarrow> world \<Rightarrow> bool" where
  created:
    "bridge_init srcfd srcaddrlen srcaddr destaddr w = (Returned (Some b), w') \<Longrightarrow> reachable b w'"
| dispatched:
    "reachable b w \<Longrightarrow> bridge_cb on_dest flags b w = Returned (Running b', w') \<Longrightarrow>
     reachable b' w'"
| outside:
    "reachable b w \<Longrightarrow> files_grow w w' \<Longrightarrow> reachable b w'"

text \<open>
  The dispatch boundaries of a bridge whose two journals are different
  files to which nothing but the bridge itself writes: whatever happens
  outside between two dispatches leaves both journals as they are.
\<close>

inductive undisturbed :: "bridge \<Rightarrow> world \<Rightarrow> bool" where
  begun:
    "bridge_init srcfd srcaddrlen srcaddr destaddr w = (Returned (Some b), w') \<Longrightarrow>
     fname (srcFile b) \<noteq> fname (destFile b) \<Longrightarrow> undisturbed b w'"
| stepped:
    "undisturbed b w \<Longrightarrow> bridge_cb on_dest flags b w = Returned (Running b', w') \<Longrightarrow>
     undisturbed b' w'"
| elsewhere:
    "undisturbed b w \<Longrightarrow> fs w' (fname (srcFile b)) = fs w (fname (srcFile b)) \<Longrightarrow>
     fs w' (fname (destFile b)) = fs w (fname (destFile b)) \<Longrightarrow> undisturbed b w'"

subsection \<open>The acceptor\<close>

definition sys_accept :: "fd \<Rightarrow> world \<Rightarrow> accept_result \<times> world" where
  "sys_accept s w =
     (case acceptq w s of
        [] \<Rightarrow> (AcceptErr EAGAIN, w)
      | r # rs \<Rightarrow> (r, w\<lparr>acceptq := (acceptq w)(s := rs)\<rparr>))"

lemma close_fd_acceptq: "acceptq (close_fd s w) = acceptq w"
proof (induction s w rule: close_fd.induct)
  case (1 s w)
  show ?case
  proof (cases "faults w")
    case Nil
    then show ?thesis by (simp add: close_fd.simps [of s w] take_fault_def emit_def)
  next
    case (Cons x xs)
    then have tf: "take_fault (emit (SysClose s) w) = (x, (emit (SysClose s) w)\<lparr>faults := xs\<rparr>)"
      by (simp add: take_fault_def emit_def)
    show ?thesis
    proof (cases "x = Some EINTR")
      case True
      with "1.IH" [OF tf [symmetric]] tf show ?thesis
        by (simp add: close_fd.simps [of s w] emit_def)
    next
      case False
      with tf show ?thesis
        by (cases x) (simp_all add: close_fd.simps [of s w] emit_def)
    qed
  qed
qed

lemma close_output_file_acceptq: "acceptq (close_output_file f w) = acceptq w"
proof (induction f w rule: close_output_file.induct)
  case (1 f w)
  show ?case
  proof (cases "faults w")
    case Nil
    then show ?thesis by (simp add: close_output_file.simps [of f w] take_fault_def emit_def)
  next
    case (Cons x xs)
    then have tf: "take_fault (emit (Fclose (fname f)) w) = (x, (emit (Fclose (fname f)) w)\<lparr>faults := xs\<rparr>)"
      by (simp add: take_fault_def emit_def)
    show ?thesis
    proof (cases "x = Some EINTR")
      case True
      with "1.IH" [OF tf [symmetric]] tf show ?thesis
        by (simp add: close_output_file.simps [of f w] emit_def)
    next
      case False
      with tf show ?thesis
        by (cases x) (simp_all add: close_output_file.simps [of f w] emit_def)
    qed
  qed
qed

lemma connect_loop_acceptq: "acceptq (snd (connect_loop s a w)) = acceptq w"
proof (induction s a w rule: connect_loop.induct)
  case (1 s a w)
  let ?e = "SysConnect s (ai_addr a) (ai_addrlen a)"
  show ?case
  proof (cases "faults w")
    case Nil
    then show ?thesis by (simp add: connect_loop.simps [of s a w] take_fault_def emit_def)
  next
    case (Cons x xs)
    then have tf: "take_fault (emit ?e w) = (x, (emit ?e w)\<lparr>faults := xs\<rparr>)"
      by (simp add: take_fault_def emit_def)
    show ?thesis
    proof (cases "x = Some EINTR")
      case True
      with "1.IH" [OF tf [symmetric]] tf show ?thesis
        by (simp add: connect_loop.simps [of s a w] emit_def)
    next
      case False
      with tf show ?thesis
        by (cases x) (simp_all add: connect_loop.simps [of s a w] emit_def)
    qed
  qed
qed

lemma open_output_file_acceptq: "acceptq (snd (open_output_file n a w)) = acceptq w"
  by (simp add: open_output_file_def fopen_append_def fseek_end_def fgetpos_def take_fault_def
      emit_def close_output_file_acceptq
      split: sum.splits list.splits option.splits)

lemma init_watchers_acceptq: "init_watchers s d c w = (sw, dw, w') \<Longrightarrow> acceptq w' = acceptq w"
  by (auto simp add: init_watchers_def ev_io_start_def emit_def Let_def split: if_splits)

lemma bridge_init_acceptq: "acceptq (snd (bridge_init s n a d w)) = acceptq w"
proof -
  have sock: "\<And>r w1. sys_socket (ai_family d) (ai_socktype d OR SOCK_NONBLOCK OR SOCK_CLOEXEC)
      (ai_protocol d) w = (r, w1) \<Longrightarrow> acceptq w1 = acceptq w"
    by (auto simp add: sys_socket_def take_fault_def emit_def split: list.splits option.splits)
  have name: "\<And>s r w0 w1. sys_getsockname s w0 = (r, w1) \<Longrightarrow> acceptq w1 = acceptq w0"
    by (auto simp add: sys_getsockname_def take_fault_def split: list.splits option.splits)
  have conn: "\<And>s r w0 w1. connect_loop s d w0 = (r, w1) \<Longrightarrow> acceptq w1 = acceptq w0"
    using connect_loop_acceptq by (metis snd_conv)
  have opn: "\<And>n a r w0 w1. open_output_file n a w0 = (r, w1) \<Longrightarrow> acceptq w1 = acceptq w0"
    using open_output_file_acceptq by (metis snd_conv)
  show ?thesis
    by (auto simp add: bridge_init_def emit_def close_fd_acceptq close_output_file_acceptq
        split: prod.splits option.splits outcome.splits
        dest!: sock name conn opn init_watchers_acceptq)
qed

lemma start_bridge_acceptq: "acceptq (snd (start_bridge s n a d w)) = acceptq w"
proof -
  have ini: "\<And>r w0 w1. bridge_init s n a d w0 = (r, w1) \<Longrightarrow> acceptq w1 = acceptq w0"
    using bridge_init_acceptq by (metis snd_conv)
  have "acceptq (snd (bridge_new s n a d w)) = acceptq w"
    by (auto simp add: bridge_new_def take_fault_def emit_def
        split: prod.splits option.splits outcome.splits list.splits dest!: ini)
  then have new: "\<And>r w1. bridge_new s n a d w = (r, w1) \<Longrightarrow> acceptq w1 = acceptq w"
    by simp
  show ?thesis
    by (auto simp add: start_bridge_def emit_def close_fd_acceptq
        split: prod.splits option.splits outcome.splits dest!: new)
qed

text \<open>
  The loop of \<^verbatim>\<open>accept_cb\<close>: accept connections and start a bridge on each,
  until \<^verbatim>\<open>accept4\<close> fails.
\<close>

function accept_loop :: "fd \<Rightarrow> addrinfo \<Rightarrow> world \<Rightarrow> world outcome" where
  "accept_loop lfd destaddr w =
     (case sys_accept lfd w of
        (AcceptErr e, w1) \<Rightarrow> Returned w1
      | (AcceptOk s addr addrlen, w1) \<Rightarrow>
          (case start_bridge s addrlen addr destaddr w1 of
             (AssertFailed, w2) \<Rightarrow> AssertFailed
           | (Returned rc, w2) \<Rightarrow> accept_loop lfd destaddr w2))"
  by pat_completeness auto
termination
proof (relation "measure (\<lambda>(lfd, destaddr, w). length (acceptq w lfd))", goal_cases)
  case 1
  show ?case by simp
next
  case (2 lfd destaddr w x w1 s addr addrlen y w2 rc)
  from 2(1,2) have "length (acceptq w1 lfd) < length (acceptq w lfd)"
    by (auto simp add: sys_accept_def split: list.splits)
  moreover from 2(3) have "acceptq w2 = acceptq w1"
    using start_bridge_acceptq [of s addrlen addr destaddr w1] by (metis snd_conv)
  ultimately show ?case by simp
qed

declare accept_loop.simps [simp del]

definition accept_cb :: "ev_io \<Rightarrow> 32 word \<Rightarrow> addrinfo \<Rightarrow> world \<Rightarrow> world outcome" where
  "accept_cb lw flags destaddr w =
     (if flags AND EV_ERROR \<noteq> 0 then Returned (emit (Stderr ''Error in server watcher.'') w)
      else if flags AND EV_READ = 0 then AssertFailed
      else accept_loop (fd lw) destaddr w)"

subsection \<open>Listeners\<close>

text \<open>\<^verbatim>\<open>strerror\<close> is the C library's; only the two texts \<^verbatim>\<open>satos\<close> can cause are spelled out.\<close>

definition strerror :: "errno \<Rightarrow> string" where
  "strerror e =
     (if e = EINVAL then ''Invalid argument''
      else if e = EAFNOSUPPORT then ''Address family not supported by protocol''
      else ''Unknown error'')"

text \<open>
  \<^verbatim>\<open>start_listener\<close>.  The two allocations, \<^verbatim>\<open>socket\<close>, \<^verbatim>\<open>setsockopt\<close>,
  \<^verbatim>\<open>bind\<close> and \<^verbatim>\<open>listen\<close> each take a fault; a failed \<^verbatim>\<open>setsockopt\<close> is
  reported and the listener is set up all the same.
\<close>

definition start_listener :: "sockaddr \<Rightarrow> nat \<Rightarrow> world \<Rightarrow> int \<times> world" where
  "start_listener addr len w =
     (let rcp = (case satos addr len of Inr text \<Rightarrow> text | Inl e \<Rightarrow> strerror e)
      in
     (case take_fault w of
        (Some e, w1) \<Rightarrow>
          (- 1, emit (Stderr ''Insufficient memory to create listener for address'') w1)
      | (None, w1) \<Rightarrow>
     (case take_fault w1 of
        (Some e, w2) \<Rightarrow>
          (- 1, emit (Stderr ''Insufficient memory to create listener address'') w2)
      | (None, w2) \<Rightarrow>
     (case sys_socket (sa_family addr) (SOCK_STREAM OR SOCK_NONBLOCK OR SOCK_CLOEXEC) 0 w2 of
        (None, w3) \<Rightarrow> (- 1, emit (Stderr ''Unable to create server socket'') w3)
      | (Some s, w3) \<Rightarrow>
     (case take_fault (emit (SysSetReuseAddr s) w3) of
        (optfail, w4) \<Rightarrow>
     (case take_fault
             (emit (SysBind s addr len)
                (if optfail = None then w4
                 else emit (Stderr ''Unable to make server socket reusable'') w4)) of
        (Some e, w5) \<Rightarrow> (- 1, close_fd s (emit (Stderr ''Unable to bind server socket'') w5))
      | (None, w5) \<Rightarrow>
     (case take_fault (emit (SysListen s BACKLOG) w5) of
        (Some e, w6) \<Rightarrow> (- 1, close_fd s (emit (Stderr ''Unable to listen on server socket'') w6))
      | (None, w6) \<Rightarrow>
     (case ev_io_start (ev_io_init s EV_READ) w6 of
        (lw, w7) \<Rightarrow>
          (0, emit (Stdout (''Listener listening on '' @ rcp))
                (w7\<lparr>listeners := listeners w7 @ [\<lparr>address = rcp, watcher = lw\<rparr>]\<rparr>))))))))))"

text \<open>
  The loop ``Start listeners on source addresses'' of \<^verbatim>\<open>main\<close>:
  \<^verbatim>\<open>for (info = airesult; info != NULL; info = airesult->ai_next)\<close>.
  A pointer into the list that \<^verbatim>\<open>getaddrinfo\<close> returned is the part of the
  list that starts at the node it points to, the null pointer the empty
  list; so \<^verbatim>\<open>airesult->ai_next\<close> is \<open>tl airesult\<close>.  The loop is entered with
  \<open>info = airesult\<close>, which \<^verbatim>\<open>main\<close> has checked not to be null.  After \<open>n\<close>
  tests of the loop condition the loop has either finished or is still
  running, in the world it has reached.
\<close>

datatype loop_result = Finished world | StillRunning world

fun listener_loop :: "nat \<Rightarrow> addrinfo list \<Rightarrow> addrinfo list \<Rightarrow> world \<Rightarrow> loop_result" where
  "listener_loop 0 airesult info w = StillRunning w"
| "listener_loop (Suc n) airesult info w =
     (case info of
        [] \<Rightarrow> Finished w
      | node # rest \<Rightarrow>
          listener_loop n airesult (tl airesult)
            (snd (start_listener (ai_addr node) (ai_addrlen node) w)))"

definition start_listeners :: "nat \<Rightarrow> addrinfo list \<Rightarrow> world \<Rightarrow> loop_result" where
  "start_listeners n airesult w = listener_loop n airesult airesult w"

text \<open>The addresses on which a listening socket has been requested, in order.\<close>

definition bind_calls :: "world \<Rightarrow> sockaddr list" where
  "bind_calls w = concat (map (\<lambda>e. case e of SysBind s a n \<Rightarrow> [a] | _ \<Rightarrow> []) (trace w))"

subsection \<open>Example environments\<close>

text \<open>
  A quiet world: no data, no faults, empty files.  The examples below
  change single fields of it.
\<close>

definition quiet_world :: world where
  "quiet_world =
     \<lparr>sock_in = (\<lambda>_. []), sock_out = (\<lambda>_. []), acceptq = (\<lambda>_. []), faults = [],
      so_error = (\<lambda>_. 0),
      sockname = (\<lambda>_. (\<lparr>sa_family = 2, sa_port = 40000, sin_addr = 0x0A000001, sin6_addr = 0\<rparr>, 16)),
      next_fd = 7, fs = (\<lambda>_. []), sent = (\<lambda>_. []), trace = [], bridges = [], listeners = []\<rparr>"

text \<open>
  A journal \<^verbatim>\<open>j\<close> holding \<^verbatim>\<open>hello\<close>, and a sink socket 4 whose next write is
  interrupted, then takes three bytes, then would block.
\<close>

definition hello :: "byte list" where
  "hello = [104, 101, 108, 108, 111]"

definition replay_world :: world where
  "replay_world =
     quiet_world\<lparr>fs := (\<lambda>_. [])(''j'' := hello),
                 sock_out := (\<lambda>_. [])(4 := [WriteErr EINTR, WriteOk 3, WriteErr EAGAIN])\<rparr>"

definition replay_world_after :: world where
  "replay_world_after =
     quiet_world\<lparr>fs := (\<lambda>_. [])(''j'' := hello),
                 sock_out := (\<lambda>_. [])(4 := []),
                 sent := (\<lambda>_. [])(4 := [104, 101, 108])\<rparr>"

text \<open>
  Two resolved source addresses, \<^verbatim>\<open>127.0.0.1:8000\<close> and \<^verbatim>\<open>[::1]:8000\<close>, the
  destination \<^verbatim>\<open>10.0.0.2:80\<close>, and a client at \<^verbatim>\<open>192.0.2.7:54321\<close>.  In the
  quiet world the kernel reports \<^verbatim>\<open>10.0.0.1:40000\<close> as the local name of
  every socket.
\<close>

definition src_one :: addrinfo where
  "src_one =
     \<lparr>ai_family = 2, ai_socktype = 1, ai_protocol = 6, ai_addrlen = 16,
      ai_addr = \<lparr>sa_family = 2, sa_port = 8000, sin_addr = 0x7F000001, sin6_addr = 0\<rparr>\<rparr>"

definition src_two :: addrinfo where
  "src_two =
     \<lparr>ai_family = 10, ai_socktype = 1, ai_protocol = 6, ai_addrlen = 28,
      ai_addr = \<lparr>sa_family = 10, sa_port = 8000, sin_addr = 0, sin6_addr = 1\<rparr>\<rparr>"

definition upstream :: addrinfo where
  "upstream =
     \<lparr>ai_family = 2, ai_socktype = 1, ai_protocol = 6, ai_addrlen = 16,
      ai_addr = \<lparr>sa_family = 2, sa_port = 80, sin_addr = 0x0A000002, sin6_addr = 0\<rparr>\<rparr>"

definition client_addr :: sockaddr where
  "client_addr = \<lparr>sa_family = 2, sa_port = 54321, sin_addr = 0xC0000207, sin6_addr = 0\<rparr>"

text \<open>
  The bridge that \<^verbatim>\<open>bridge_init\<close> makes in the quiet world for the client on
  descriptor 5: the destination socket is descriptor 7 and connects at
  once.
\<close>

definition fresh_bridge :: bridge where
  "fresh_bridge =
     \<lparr>srcwatcher = \<lparr>fd = 5, events = 1, active = True\<rparr>,
      destwatcher = \<lparr>fd = 7, events = 1, active = True\<rparr>,
      srcFile = \<lparr>fname = ''192.0.2.7:54321'', fpos = 0\<rparr>,
      destFile = \<lparr>fname = ''10.0.0.1:40000'', fpos = 0\<rparr>,
      srcPos = 0, destPos = 0,
      eofFromSource = False, sourceFlushed = True, connectedToDestination = True,
      eofFromDestination = False, destinationFlushed = True\<rparr>"

text \<open>A world in which the next read on the client socket fails with \<^verbatim>\<open>ECONNRESET\<close>.\<close>

definition reset_world :: world where
  "reset_world = quiet_world\<lparr>sock_in := (\<lambda>_. [])(5 := [ReadErr ECONNRESET])\<rparr>"

text \<open>A world in which the client has closed its side without sending a byte.\<close>

definition eof_world :: world where
  "eof_world = quiet_world\<lparr>sock_in := (\<lambda>_. [])(5 := [ReadOk []])\<rparr>"

text \<open>A world in which the next \<^verbatim>\<open>accept4\<close> on the listening socket 3 fails.\<close>

definition accept_fail_world :: world where
  "accept_fail_world = quiet_world\<lparr>acceptq := (\<lambda>_. [])(3 := [AcceptErr ECONNABORTED])\<rparr>"

text \<open>The world in which \<^verbatim>\<open>bridge_init\<close> has made that bridge.\<close>

definition created_world :: world where
  "created_world =
     quiet_world\<lparr>next_fd := 8,
                 trace := [SysSocket 7 2 0x80801 6, SysConnect 7 (ai_addr upstream) 16,
                           EvIoStart 5 1, EvIoStart 7 1]\<rparr>"

text \<open>
  The client sends \<^verbatim>\<open>hello\<close> and the destination socket takes three bytes
  before it would block; the bridge and the world after that dispatch.
\<close>

definition data_world :: world where
  "data_world =
     quiet_world\<lparr>sock_in := (\<lambda>_. [])(5 := [ReadOk hello]),
                 sock_out := (\<lambda>_. [])(7 := [WriteOk 3])\<rparr>"

definition partly_sent :: bridge where
  "partly_sent =
     fresh_bridge\<lparr>destwatcher := \<lparr>fd = 7, events = 3, active = True\<rparr>,
                  srcFile := \<lparr>fname = ''192.0.2.7:54321'', fpos = 3\<rparr>,
                  srcPos := 3, sourceFlushed := False\<rparr>"

definition data_world_after :: world where
  "data_world_after =
     quiet_world\<lparr>fs := (\<lambda>_. [])(''192.0.2.7:54321'' := hello),
                 sent := (\<lambda>_. [])(7 := [104, 101, 108]),
                 trace := [EvIoStop 7, EvIoStart 7 3]\<rparr>"

text \<open>
  The bridge after the client has closed its side without sending a byte,
  and the bridge after both peers have done so.
\<close>

definition half_closed :: bridge where
  "half_closed =
     fresh_bridge\<lparr>srcwatcher := \<lparr>fd = 5, events = 0x80, active = False\<rparr>,
                  eofFromSource := True\<rparr>"

definition source_ended :: bridge where
  "source_ended = fresh_bridge\<lparr>eofFromSource := True\<rparr>"

definition both_ended :: bridge where
  "both_ended = fresh_bridge\<lparr>eofFromSource := True, eofFromDestination := True\<rparr>"

text \<open>A world in which the destination sends two bytes.\<close>

definition reply_world :: world where
  "reply_world = quiet_world\<lparr>sock_in := (\<lambda>_. [])(7 := [ReadOk [104, 105]])\<rparr>"

text \<open>
  The client sends \<^verbatim>\<open>hello\<close> and closes its side, and the destination
  socket takes all five bytes: the worlds and bridges after step one and
  after step two of that dispatch.
\<close>

definition farewell_world :: world where
  "farewell_world =
     quiet_world\<lparr>sock_in := (\<lambda>_. [])(5 := [ReadOk hello, ReadOk []]),
                 sock_out := (\<lambda>_. [])(7 := [WriteOk 5])\<rparr>"

definition farewell_read :: bridge where
  "farewell_read =
     fresh_bridge\<lparr>srcFile := \<lparr>fname = ''192.0.2.7:54321'', fpos = 5\<rparr>, eofFromSource := True\<rparr>"

definition farewell_read_world :: world where
  "farewell_read_world =
     quiet_world\<lparr>sock_out := (\<lambda>_. [])(7 := [WriteOk 5]),
                 fs := (\<lambda>_. [])(''192.0.2.7:54321'' := hello),
                 trace := [SysShutdown 5 SHUT_RD]\<rparr>"

definition farewell_sent :: bridge where
  "farewell_sent = farewell_read\<lparr>srcPos := 5\<rparr>"

definition farewell_sent_world :: world where
  "farewell_sent_world =
     quiet_world\<lparr>fs := (\<lambda>_. [])(''192.0.2.7:54321'' := hello),
                 sent := (\<lambda>_. [])(7 := hello),
                 trace := [SysShutdown 5 SHUT_RD, SysShutdown 7 SHUT_WR]\<rparr>"

text \<open>The destination closes its side without sending a byte.\<close>

definition dest_eof_world :: world where
  "dest_eof_world = quiet_world\<lparr>sock_in := (\<lambda>_. [])(7 := [ReadOk []])\<rparr>"

definition dest_ended :: bridge where
  "dest_ended = fresh_bridge\<lparr>eofFromDestination := True\<rparr>"

text \<open>
  The client closes its side without sending a byte, after something else
  has appended \<^verbatim>\<open>hello\<close> to the file that is the bridge's source journal.
\<close>

definition shared_world :: world where
  "shared_world = eof_world\<lparr>fs := (\<lambda>_. [])(''192.0.2.7:54321'' := hello)\<rparr>"

section \<open>Verified properties\<close>

subsection \<open>The address formatter\<close>

lemma satos_inet:
  "sa_family addr = AF_INET \<Longrightarrow> sizeof_sockaddr_in \<le> socklen \<Longrightarrow>
   satos addr socklen = Inr (inet_ntop4 (sin_addr addr) @ '':'' @ show_dec (ntohs (sa_port addr)))"
  by (simp add: satos_def Let_def)

lemma satos_inet6:
  "sa_family addr = AF_INET6 \<Longrightarrow> sizeof_sockaddr_in6 \<le> socklen \<Longrightarrow>
   satos addr socklen =
     Inr (''['' @ inet_ntop6 (sin6_addr addr) @ '']:'' @ show_dec (ntohs (sa_port addr)))"
  by (simp add: satos_def Let_def AF_INET_def AF_INET6_def)

text \<open>
  Claim C9.  The address formatter renders an IPv4 socket address as
  \<^verbatim>\<open>A.B.C.D:PORT\<close>, the four address bytes and the port in decimal, and an
  IPv6 socket address as \<^verbatim>\<open>[addr]:PORT\<close>.  For any other address family it
  fails with \<open>EAFNOSUPPORT\<close>, and for a length smaller than the family's
  socket address structure it fails with \<open>EINVAL\<close>.
\<close>

theorem satos_formats:
  "(sa_family addr = AF_INET \<and> sizeof_sockaddr_in \<le> socklen \<longrightarrow>
      satos addr socklen =
        Inr (show_dec (byte_at (sin_addr addr) 3) @ ''.'' @ show_dec (byte_at (sin_addr addr) 2) @ ''.'' @
             show_dec (byte_at (sin_addr addr) 1) @ ''.'' @ show_dec (byte_at (sin_addr addr) 0) @
             '':'' @ show_dec (unat (sa_port addr)))) \<and>
   (sa_family addr = AF_INET6 \<and> sizeof_sockaddr_in6 \<le> socklen \<longrightarrow>
      satos addr socklen =
        Inr (''['' @ inet_ntop6 (sin6_addr addr) @ '']:'' @ show_dec (unat (sa_port addr)))) \<and>
   (sa_family addr \<noteq> AF_INET \<and> sa_family addr \<noteq> AF_INET6 \<longrightarrow>
      satos addr socklen = Inl EAFNOSUPPORT) \<and>
   (sa_family addr = AF_INET \<and> socklen < sizeof_sockaddr_in \<longrightarrow>
      satos addr socklen = Inl EINVAL) \<and>
   (sa_family addr = AF_INET6 \<and> socklen < sizeof_sockaddr_in6 \<longrightarrow>
      satos addr socklen = Inl EINVAL)"
proof -
  have v4: "sa_family addr = AF_INET \<Longrightarrow> sizeof_sockaddr_in \<le> socklen \<Longrightarrow>
      satos addr socklen =
        Inr (show_dec (byte_at (sin_addr addr) 3) @ ''.'' @ show_dec (byte_at (sin_addr addr) 2) @ ''.'' @
             show_dec (byte_at (sin_addr addr) 1) @ ''.'' @ show_dec (byte_at (sin_addr addr) 0) @
             '':'' @ show_dec (unat (sa_port addr)))"
    by (simp add: satos_inet inet_ntop4_def ntohs_def)
  have v6: "sa_family addr = AF_INET6 \<Longrightarrow> sizeof_sockaddr_in6 \<le> socklen \<Longrightarrow>
      satos addr socklen =
        Inr (''['' @ inet_ntop6 (sin6_addr addr) @ '']:'' @ show_dec (unat (sa_port addr)))"
    by (simp add: satos_inet6 ntohs_def)
  have other: "sa_family addr \<noteq> AF_INET \<Longrightarrow> sa_family addr \<noteq> AF_INET6 \<Longrightarrow>
      satos addr socklen = Inl EAFNOSUPPORT"
    by (simp add: satos_def)
  have short4: "sa_family addr = AF_INET \<Longrightarrow> socklen < sizeof_sockaddr_in \<Longrightarrow>
      satos addr socklen = Inl EINVAL"
    by (simp add: satos_def)
  have short6: "sa_family addr = AF_INET6 \<Longrightarrow> socklen < sizeof_sockaddr_in6 \<Longrightarrow>
      satos addr socklen = Inl EINVAL"
    by (simp add: satos_def AF_INET_def AF_INET6_def)
  from v4 v6 other short4 short6 show ?thesis by blast
qed

theorem satos_formats_witness:
  "(sa_family \<lparr>sa_family = 2, sa_port = 54321, sin_addr = 0x7F000001, sin6_addr = 0\<rparr> = AF_INET \<and>
    sizeof_sockaddr_in \<le> 16 \<and>
    satos \<lparr>sa_family = 2, sa_port = 54321, sin_addr = 0x7F000001, sin6_addr = 0\<rparr> 16 =
      Inr ''127.0.0.1:54321'') \<and>
   (sa_family \<lparr>sa_family = 10, sa_port = 8080, sin_addr = 0, sin6_addr = 1\<rparr> = AF_INET6 \<and>
    sizeof_sockaddr_in6 \<le> 28 \<and>
    satos \<lparr>sa_family = 10, sa_port = 8080, sin_addr = 0, sin6_addr = 1\<rparr> 28 =
      Inr ''[::1]:8080'') \<and>
   (sa_family \<lparr>sa_family = 1, sa_port = 0, sin_addr = 0, sin6_addr = 0\<rparr> \<noteq> AF_INET \<and>
    sa_family \<lparr>sa_family = 1, sa_port = 0, sin_addr = 0, sin6_addr = 0\<rparr> \<noteq> AF_INET6 \<and>
    satos \<lparr>sa_family = 1, sa_port = 0, sin_addr = 0, sin6_addr = 0\<rparr> 110 = Inl EAFNOSUPPORT) \<and>
   (sa_family \<lparr>sa_family = 2, sa_port = 54321, sin_addr = 0x7F000001, sin6_addr = 0\<rparr> = AF_INET \<and>
    15 < sizeof_sockaddr_in \<and>
    satos \<lparr>sa_family = 2, sa_port = 54321, sin_addr = 0x7F000001, sin6_addr = 0\<rparr> 15 = Inl EINVAL) \<and>
   (sa_family \<lparr>sa_family = 10, sa_port = 8080, sin_addr = 0, sin6_addr = 1\<rparr> = AF_INET6 \<and>
    16 < sizeof_sockaddr_in6 \<and>
    satos \<lparr>sa_family = 10, sa_port = 8080, sin_addr = 0, sin6_addr = 1\<rparr> 16 = Inl EINVAL)"
proof -
  have fam: "AF_INET = 2" "AF_INET6 = 10" "sizeof_sockaddr_in = 16" "sizeof_sockaddr_in6 = 28"
    by (simp_all add: AF_INET_def AF_INET6_def sizeof_sockaddr_in_def sizeof_sockaddr_in6_def)
  have dec: "show_dec 127 = ''127''" "show_dec 0 = ''0''" "show_dec (Suc 0) = ''1''"
    "show_dec 54321 = ''54321''" "show_dec 8080 = ''8080''"
    by (simp_all add: show_dec_def show_radix.simps digit_char_def)
  have bytes: "byte_at (0x7F000001 :: 32 word) 3 = 127" "byte_at (0x7F000001 :: 32 word) 2 = 0"
    "byte_at (0x7F000001 :: 32 word) (Suc 0) = 0" "byte_at (0x7F000001 :: 32 word) 0 = Suc 0"
    by (simp_all add: byte_at_def)
  have loopback: "inet_ntop6 1 = ''::1''"
    by (simp add: inet_ntop6_def Let_def word16_at_def best_run_def better_run_def in_run_def
        encapsulated_v4_def show_hex_def show_radix.simps digit_char_def)
  show ?thesis
    using satos_formats [of "\<lparr>sa_family = 2, sa_port = 54321, sin_addr = 0x7F000001, sin6_addr = 0\<rparr>" 16]
      satos_formats [of "\<lparr>sa_family = 10, sa_port = 8080, sin_addr = 0, sin6_addr = 1\<rparr>" 28]
      satos_formats [of "\<lparr>sa_family = 1, sa_port = 0, sin_addr = 0, sin6_addr = 0\<rparr>" 110]
      satos_formats [of "\<lparr>sa_family = 2, sa_port = 54321, sin_addr = 0x7F000001, sin6_addr = 0\<rparr>" 15]
      satos_formats [of "\<lparr>sa_family = 10, sa_port = 8080, sin_addr = 0, sin6_addr = 1\<rparr>" 16]
    by (simp add: fam dec bytes loopback)
qed

subsection \<open>Command-line arguments\<close>

text \<open>
  Claim C10.  With more than four positional arguments the program neither
  fails nor prints the usage line at the argument check: the first four are
  taken as source node, source service, destination node and destination
  service, whatever follows them is ignored, and the usage path is taken
  exactly when fewer than four positional arguments are given.
\<close>

theorem get_args_extra_ignored:
  "(4 < length argv - 1 \<longrightarrow>
      get_args argv = Inr (argv ! 1, argv ! 2, argv ! 3, argv ! 4) \<and>
      get_args argv = get_args (take 5 argv)) \<and>
   ((\<exists>usage. get_args argv = Inl usage) \<longleftrightarrow> length argv - 1 < 4)"
  by (auto simp add: get_args_def)

theorem get_args_extra_ignored_witness:
  "4 < length [''connbridge'', ''::'', ''8000'', ''localhost'', ''80'', ''extra'', ''more''] - 1 \<and>
   get_args [''connbridge'', ''::'', ''8000'', ''localhost'', ''80'', ''extra'', ''more''] =
     Inr (''::'', ''8000'', ''localhost'', ''80'') \<and>
   get_args [''connbridge'', ''::'', ''8000'', ''localhost'', ''80'', ''extra'', ''more''] =
     get_args [''connbridge'', ''::'', ''8000'', ''localhost'', ''80''] \<and>
   length [''connbridge'', ''::'', ''8000'', ''localhost''] - 1 < 4 \<and>
   get_args [''connbridge'', ''::'', ''8000'', ''localhost''] =
     Inl ''Usage: connbridge srcaddr srcport destaddr destport''"
  using get_args_extra_ignored [of "[''connbridge'', ''::'', ''8000'', ''localhost'', ''80'', ''extra'', ''more'']"]
    get_args_extra_ignored [of "[''connbridge'', ''::'', ''8000'', ''localhost'']"]
  by (simp add: get_args_def print_usage_def)

subsection \<open>Replaying a journal into a socket\<close>

lemmas stdio_defs = fsetpos_def fseek_cur_def fseek_end_def fgetpos_def fread_def fwrite_def fopen_append_def
  take_fault_def emit_def

lemma sys_write_effect:
  "sys_write s buf w = (r, w1) \<Longrightarrow>
   fs w1 = fs w \<and> bridges w1 = bridges w \<and>
   (case r of
      WriteErr e \<Rightarrow> sent w1 = sent w
    | WriteOk n \<Rightarrow> n \<le> length buf \<and> sent w1 = (sent w)(s := sent w s @ take n buf))"
  by (auto simp add: sys_write_def min_def split: list.splits write_result.splits)

lemma write_buf_effect:
  "write_buf s f pos buf bufpos w = (r, w') \<Longrightarrow> bufpos \<le> length buf \<Longrightarrow>
   fs w' = fs w \<and>
   (\<exists>k. bufpos \<le> k \<and> k \<le> length buf \<and>
        sent w' = (sent w)(s := sent w s @ take (k - bufpos) (drop bufpos buf)) \<and>
        (case r of
           None \<Rightarrow> k = length buf
         | Some (rc, f', p) \<Rightarrow>
             fname f' = fname f \<and>
             (rc = 0 \<and> p = pos + k \<and> k < length buf \<or> rc = FILE_ERROR \<and> p = pos)))"
proof (induction s f pos buf bufpos w arbitrary: r w' rule: write_buf.induct)
  case (1 s f pos buf bufpos w)
  show ?case
  proof (cases "bufpos = length buf")
    case True
    with "1.prems" have "r = None \<and> w' = w"
      by (simp add: write_buf.simps [of s f pos buf "length buf" w])
    with True show ?thesis by simp
  next
    case False
    obtain x w1 where sw: "sys_write s (drop bufpos buf) w = (x, w1)"
      by (cases "sys_write s (drop bufpos buf) w")
    note eff = sys_write_effect [OF sw]
    show ?thesis
    proof (cases x)
      case (WriteOk n)
      with "1.prems" sw False have rest: "write_buf s f pos buf (bufpos + n) w1 = (r, w')"
        by (simp add: write_buf.simps [of s f pos buf bufpos w])
      from eff WriteOk have n: "n \<le> length buf - bufpos" and
        s1: "sent w1 = (sent w)(s := sent w s @ take n (drop bufpos buf))" and f1: "fs w1 = fs w"
        by simp_all
      from n "1.prems"(2) have le: "bufpos + n \<le> length buf" by simp
      from "1.IH"(1) [OF False sw [symmetric] WriteOk rest le]
      obtain k where k: "bufpos + n \<le> k" "k \<le> length buf"
        "sent w' = (sent w1)(s := sent w1 s @ take (k - (bufpos + n)) (drop (bufpos + n) buf))"
        "(case r of
           None \<Rightarrow> k = length buf
         | Some (rc, f', p) \<Rightarrow>
             fname f' = fname f \<and>
             (rc = 0 \<and> p = pos + k \<and> k < length buf \<or> rc = FILE_ERROR \<and> p = pos))"
        and fs': "fs w' = fs w1"
        by blast
      have "take n (drop bufpos buf) @ take (k - (bufpos + n)) (drop (bufpos + n) buf) =
            take (k - bufpos) (drop bufpos buf)"
      proof -
        have "k - bufpos = n + (k - (bufpos + n))" using k(1) by simp
        then have "take (k - bufpos) (drop bufpos buf) =
          take n (drop bufpos buf) @ take (k - (bufpos + n)) (drop n (drop bufpos buf))"
          by (simp only: take_add)
        then show ?thesis by (simp add: add.commute)
      qed
      with k s1 have "sent w' = (sent w)(s := sent w s @ take (k - bufpos) (drop bufpos buf))"
        by simp
      with k fs' f1 show ?thesis
        by (intro conjI exI [of _ k]) simp_all
    next
      case (WriteErr e)
      from eff WriteErr have s1: "sent w1 = sent w" and f1: "fs w1 = fs w" by simp_all
      show ?thesis
      proof (cases "e = EINTR")
        case True
        with "1.prems" sw False WriteErr have rest: "write_buf s f pos buf bufpos w1 = (r, w')"
          by (simp add: write_buf.simps [of s f pos buf bufpos w])
        from "1.IH"(2) [OF False sw [symmetric] WriteErr True rest "1.prems"(2)] s1 f1
        show ?thesis by simp
      next
        case notintr: False
        from "1.prems"(2) False have lt: "bufpos < length buf" by simp
        from "1.prems"(1) sw False WriteErr notintr s1 f1 lt
        have "fs w' = fs w \<and> sent w' = sent w \<and>
          (case r of None \<Rightarrow> False
           | Some (rc, f', p) \<Rightarrow> fname f' = fname f \<and>
               (rc = 0 \<and> p = pos + bufpos \<or> rc = FILE_ERROR \<and> p = pos))"
          by (auto simp add: write_buf.simps [of s f pos buf bufpos w] stdio_defs
              FILE_ERROR_def FILE_EOF_def
              split: if_splits list.splits option.splits)
        with lt show ?thesis
          by (intro conjI exI [of _ bufpos]) (auto split: option.splits)
      qed
    qed
  qed
qed


lemma fread_effect:
  "fread f n w = (buf, eof, f1, w1) \<Longrightarrow>
   fs w1 = fs w \<and> sent w1 = sent w \<and> fname f1 = fname f \<and>
   (buf = [] \<and> \<not> eof \<and> f1 = f \<or>
    buf = take n (drop (fpos f) (fs w (fname f))) \<and> eof = (length buf < n) \<and>
    fpos f1 = fpos f + length buf)"
  by (auto simp add: fread_def take_fault_def Let_def split: list.splits option.splits)

lemma fgetpos_effect:
  "fgetpos f w = (r, w1) \<Longrightarrow>
   fs w1 = fs w \<and> sent w1 = sent w \<and> (r = None \<or> r = Some (fpos f))"
  by (auto simp add: fgetpos_def take_fault_def split: list.splits option.splits)

lemma fsetpos_effect:
  "fsetpos f pos w = (ok, f1, w1) \<Longrightarrow>
   fs w1 = fs w \<and> sent w1 = sent w \<and> fname f1 = fname f \<and> (ok \<longrightarrow> fpos f1 = pos)"
  by (auto simp add: fsetpos_def take_fault_def split: list.splits option.splits)

lemma take_chunk_append:
  "take (length (take n xs) + m) xs = take n xs @ take m (drop (length (take n xs)) xs)"
  by (simp add: take_add min_def)

lemma write_loop_effect:
  "write_loop s f pos w = (rc, f', pos', w') \<Longrightarrow> fpos f = pos \<Longrightarrow>
   fs w' = fs w \<and> fname f' = fname f \<and> pos \<le> pos' \<and>
   (rc = 0 \<or> rc = FILE_EOF \<or> rc = FILE_ERROR) \<and>
   (pos \<le> length (fs w (fname f)) \<longrightarrow> pos' \<le> length (fs w (fname f))) \<and>
   (rc = FILE_EOF \<longrightarrow> length (fs w (fname f)) \<le> pos') \<and>
   (rc = 0 \<longrightarrow> pos' < length (fs w (fname f))) \<and>
   (rc \<noteq> FILE_ERROR \<longrightarrow>
      sent w' = (sent w)(s := sent w s @ take (pos' - pos) (drop pos (fs w (fname f)))))"
proof (induction s f pos w arbitrary: rc f' pos' w' rule: write_loop.induct)
  case (1 s f pos w)
  let ?C = "fs w (fname f)"
  have distinct_rc: "FILE_EOF \<noteq> FILE_ERROR" "FILE_EOF \<noteq> 0" "FILE_ERROR \<noteq> 0"
    by (simp_all add: FILE_EOF_def FILE_ERROR_def)
  obtain buf eof f1 w1 where fr: "fread f FILE_BUFSIZE w = (buf, eof, f1, w1)"
    by (cases "fread f FILE_BUFSIZE w") auto
  note fre = fread_effect [OF fr]
  show ?case
  proof (cases "buf = []")
    case True
    with "1.prems" fr have res: "f' = f1" "pos' = pos" "w' = w1 \<or> rc = FILE_ERROR"
      "rc = (if eof then FILE_EOF else FILE_ERROR)" "fs w' = fs w1"
      by (auto simp add: write_loop.simps [of s f pos w] emit_def split: if_splits)
    have "eof \<Longrightarrow> length ?C \<le> pos"
      using fre True "1.prems"(2) by (auto simp add: FILE_BUFSIZE_def)
    with res fre distinct_rc show ?thesis by auto
  next
    case nonempty: False
    with fre "1.prems"(2) have buf: "buf = take FILE_BUFSIZE (drop pos ?C)"
      and pos1: "fpos f1 = pos + length buf" by auto
    from nonempty buf have inside: "pos + length buf \<le> length ?C" by auto
    obtain x w2 where wb: "write_buf s f1 pos buf 0 w1 = (x, w2)"
      by (cases "write_buf s f1 pos buf 0 w1")
    from write_buf_effect [OF wb] obtain k where k: "k \<le> length buf"
      "sent w2 = (sent w1)(s := sent w1 s @ take k buf)" "fs w2 = fs w1"
      "(case x of
           None \<Rightarrow> k = length buf
         | Some (rc, f', p) \<Rightarrow>
             fname f' = fname f1 \<and>
             (rc = 0 \<and> p = pos + k \<and> k < length buf \<or> rc = FILE_ERROR \<and> p = pos))"
      by auto
    have "k \<le> FILE_BUFSIZE" using k(1) buf by simp
    then have takek: "take k buf = take k (drop pos ?C)"
      by (simp add: buf min_absorb1)
    show ?thesis
    proof (cases x)
      case (Some t)
      obtain rc0 f2 p where t: "t = (rc0, f2, p)" by (cases t)
      with "1.prems" fr nonempty wb Some have res: "rc = rc0" "f' = f2" "pos' = p" "w' = w2"
        by (simp_all add: write_loop.simps [of s f pos w])
      from k(4) Some t have alt: "fname f2 = fname f1"
        "rc0 = 0 \<and> p = pos + k \<and> k < length buf \<or> rc0 = FILE_ERROR \<and> p = pos"
        by simp_all
      from alt(2) show ?thesis
      proof
        assume "rc0 = 0 \<and> p = pos + k \<and> k < length buf"
        with res alt(1) k fre takek inside distinct_rc show ?thesis by auto
      next
        assume "rc0 = FILE_ERROR \<and> p = pos"
        with res alt(1) k fre distinct_rc show ?thesis by auto
      qed
    next
      case None
      with k have kfull: "k = length buf" by simp
      obtain g w3 where gp: "fgetpos f1 w2 = (g, w3)" by (cases "fgetpos f1 w2")
      note gpe = fgetpos_effect [OF gp]
      show ?thesis
      proof (cases g)
        case gNone: None
        with "1.prems" fr nonempty wb None gp
        have "rc = FILE_ERROR" "f' = f1" "pos' = pos" "fs w' = fs w3"
          by (auto simp add: write_loop.simps [of s f pos w] emit_def)
        with gpe k fre distinct_rc show ?thesis by auto
      next
        case (Some p)
        with gpe pos1 have p: "p = pos + length buf" by auto
        from "1.prems" fr nonempty wb None gp Some
        have rest: "write_loop s f1 p w3 = (rc, f', pos', w')"
          by (simp add: write_loop.simps [of s f pos w])
        have posp: "fpos f1 = p" using p pos1 by simp
        have same: "fs w3 = fs w" "fname f1 = fname f"
          using gpe k fre by auto
        have sent3: "sent w3 = (sent w)(s := sent w s @ buf)"
          using gpe k(2) kfull fre by auto
        note ih = "1.IH" [OF fr [symmetric] refl refl nonempty wb [symmetric] None gp [symmetric] Some rest posp]
        have C3: "fs w3 (fname f1) = ?C" using same by simp
        note ih' = ih [unfolded C3]
        from ih' have a: "fs w' = fs w3" "fname f' = fname f1" "p \<le> pos'"
          "rc = 0 \<or> rc = FILE_EOF \<or> rc = FILE_ERROR"
          "p \<le> length ?C \<longrightarrow> pos' \<le> length ?C"
          "rc = FILE_EOF \<longrightarrow> length ?C \<le> pos'"
          "rc = 0 \<longrightarrow> pos' < length ?C"
          "rc \<noteq> FILE_ERROR \<longrightarrow> sent w' = (sent w3)(s := sent w3 s @ take (pos' - p) (drop p ?C))"
          by blast+
        have join: "buf @ take (pos' - p) (drop p ?C) = take (pos' - pos) (drop pos ?C)"
        proof -
          have "pos' - pos = length (take FILE_BUFSIZE (drop pos ?C)) + (pos' - p)"
            using a(3) p buf by simp
          then have "take (pos' - pos) (drop pos ?C) =
            take FILE_BUFSIZE (drop pos ?C) @
            take (pos' - p) (drop (length (take FILE_BUFSIZE (drop pos ?C))) (drop pos ?C))"
            by (simp only: take_chunk_append)
          also have "\<dots> = buf @ take (pos' - p) (drop p ?C)"
            using buf p by (simp add: add.commute)
          finally show ?thesis by simp
        qed
        from a(8) sent3 join have
          "rc \<noteq> FILE_ERROR \<longrightarrow> sent w' = (sent w)(s := sent w s @ take (pos' - pos) (drop pos ?C))"
          by auto
        with a same p inside show ?thesis by auto
      qed
    qed
  qed
qed


lemma without_eintr_emit: "without_eintr s (emit e w) = emit e (without_eintr s w)"
  by (simp add: without_eintr_def emit_def)

lemma without_eintr_fsetpos:
  "fsetpos f pos (without_eintr s w) =
     (case fsetpos f pos w of (ok, f1, w1) \<Rightarrow> (ok, f1, without_eintr s w1))"
  by (simp add: fsetpos_def take_fault_def without_eintr_def split: list.splits option.splits)

lemma without_eintr_fseek_cur:
  "fseek_cur f off (without_eintr s w) =
     (case fseek_cur f off w of (ok, f1, w1) \<Rightarrow> (ok, f1, without_eintr s w1))"
  by (simp add: fseek_cur_def take_fault_def without_eintr_def split: list.splits option.splits)

lemma without_eintr_fgetpos:
  "fgetpos f (without_eintr s w) =
     (case fgetpos f w of (r, w1) \<Rightarrow> (r, without_eintr s w1))"
  by (simp add: fgetpos_def take_fault_def without_eintr_def split: list.splits option.splits)

lemma without_eintr_fread:
  "fread f n (without_eintr s w) =
     (case fread f n w of (buf, eof, f1, w1) \<Rightarrow> (buf, eof, f1, without_eintr s w1))"
  by (simp add: fread_def take_fault_def without_eintr_def Let_def split: list.splits option.splits)

lemma without_eintr_sys_write:
  "sys_write s buf w = (r, w1) \<Longrightarrow>
   (if r = WriteErr EINTR then without_eintr s w1 = without_eintr s w
    else sys_write s buf (without_eintr s w) = (r, without_eintr s w1))"
  by (auto simp add: sys_write_def without_eintr_def split: list.splits write_result.splits)

lemma without_eintr_write_buf:
  "write_buf s f pos buf bufpos (without_eintr s w) =
     (case write_buf s f pos buf bufpos w of (r, w') \<Rightarrow> (r, without_eintr s w'))"
proof (induction s f pos buf bufpos w rule: write_buf.induct)
  case (1 s f pos buf bufpos w)
  show ?case
  proof (cases "bufpos = length buf")
    case True
    then show ?thesis
      by (simp add: write_buf.simps [of s f pos buf "length buf"])
  next
    case False
    obtain x w1 where sw: "sys_write s (drop bufpos buf) w = (x, w1)"
      by (cases "sys_write s (drop bufpos buf) w")
    note comm = without_eintr_sys_write [OF sw]
    show ?thesis
    proof (cases x)
      case (WriteOk n)
      with comm have sw': "sys_write s (drop bufpos buf) (without_eintr s w) = (x, without_eintr s w1)"
        by simp
      from "1.IH"(1) [OF False sw [symmetric] WriteOk] sw sw' WriteOk False show ?thesis
        by (simp add: write_buf.simps [of s f pos buf bufpos w]
            write_buf.simps [of s f pos buf bufpos "without_eintr s w"])
    next
      case (WriteErr e)
      show ?thesis
      proof (cases "e = EINTR")
        case True
        with comm WriteErr have same: "without_eintr s w1 = without_eintr s w" by simp
        from "1.IH"(2) [OF False sw [symmetric] WriteErr True] same sw WriteErr True False
        show ?thesis
          by (simp add: write_buf.simps [of s f pos buf bufpos w])
      next
        case notintr: False
        with comm WriteErr have sw': "sys_write s (drop bufpos buf) (without_eintr s w) = (x, without_eintr s w1)"
          by simp
        from sw sw' WriteErr notintr False show ?thesis
          by (simp add: write_buf.simps [of s f pos buf bufpos w]
              write_buf.simps [of s f pos buf bufpos "without_eintr s w"]
              without_eintr_fsetpos without_eintr_fseek_cur without_eintr_fgetpos without_eintr_emit
              split: prod.splits bool.splits option.splits)
      qed
    qed
  qed
qed

lemma without_eintr_write_loop:
  "write_loop s f pos (without_eintr s w) =
     (case write_loop s f pos w of (rc, f', pos', w') \<Rightarrow> (rc, f', pos', without_eintr s w'))"
proof (induction s f pos w rule: write_loop.induct)
  case (1 s f pos w)
  obtain buf eof f1 w1 where fr: "fread f FILE_BUFSIZE w = (buf, eof, f1, w1)"
    by (cases "fread f FILE_BUFSIZE w") auto
  then have fr': "fread f FILE_BUFSIZE (without_eintr s w) = (buf, eof, f1, without_eintr s w1)"
    by (simp add: without_eintr_fread)
  show ?case
  proof (cases "buf = []")
    case True
    with fr fr' show ?thesis
      by (simp add: write_loop.simps [of s f pos w] write_loop.simps [of s f pos "without_eintr s w"]
          without_eintr_emit)
  next
    case nonempty: False
    obtain x w2 where wb: "write_buf s f1 pos buf 0 w1 = (x, w2)"
      by (cases "write_buf s f1 pos buf 0 w1")
    then have wb': "write_buf s f1 pos buf 0 (without_eintr s w1) = (x, without_eintr s w2)"
      by (simp add: without_eintr_write_buf)
    show ?thesis
    proof (cases x)
      case (Some t)
      with fr fr' wb wb' nonempty show ?thesis
        by (simp add: write_loop.simps [of s f pos w] write_loop.simps [of s f pos "without_eintr s w"]
            split: prod.splits)
    next
      case None
      obtain g w3 where gp: "fgetpos f1 w2 = (g, w3)" by (cases "fgetpos f1 w2")
      then have gp': "fgetpos f1 (without_eintr s w2) = (g, without_eintr s w3)"
        by (simp add: without_eintr_fgetpos)
      show ?thesis
      proof (cases g)
        case gNone: None
        with fr fr' wb wb' nonempty None gp gp' show ?thesis
          by (simp add: write_loop.simps [of s f pos w] write_loop.simps [of s f pos "without_eintr s w"]
              without_eintr_emit)
      next
        case (Some p)
        from "1.IH" [OF fr [symmetric] refl refl nonempty wb [symmetric] None gp [symmetric] Some]
          fr fr' wb wb' nonempty None gp gp' Some
        show ?thesis
          by (simp add: write_loop.simps [of s f pos w] write_loop.simps [of s f pos "without_eintr s w"])
      qed
    qed
  qed
qed

lemma without_eintr_write_from_file:
  "write_from_file s f pos (without_eintr s w) =
     (case write_from_file s f pos w of (rc, f', pos', w') \<Rightarrow> (rc, f', pos', without_eintr s w'))"
  by (simp add: write_from_file_def without_eintr_fsetpos without_eintr_write_loop without_eintr_emit
      split: prod.splits bool.splits)

lemma write_from_file_effect:
  assumes "write_from_file s f pos w = (rc, f', pos', w')"
  shows "fs w' = fs w \<and> fname f' = fname f \<and> pos \<le> pos' \<and>
   (rc = 0 \<or> rc = FILE_EOF \<or> rc = FILE_ERROR) \<and>
   (pos \<le> length (fs w (fname f)) \<longrightarrow> pos' \<le> length (fs w (fname f))) \<and>
   (rc = FILE_EOF \<longrightarrow> length (fs w (fname f)) \<le> pos') \<and>
   (rc = 0 \<longrightarrow> pos' < length (fs w (fname f))) \<and>
   (rc \<noteq> FILE_ERROR \<longrightarrow>
      sent w' = (sent w)(s := sent w s @ take (pos' - pos) (drop pos (fs w (fname f)))))"
proof -
  obtain ok f1 w1 where sp: "fsetpos f pos w = (ok, f1, w1)"
    by (cases "fsetpos f pos w") auto
  note spe = fsetpos_effect [OF sp]
  show ?thesis
  proof (cases ok)
    case False
    with assms sp have "rc = FILE_ERROR" "f' = f1" "pos' = pos" "fs w' = fs w1"
      by (auto simp add: write_from_file_def emit_def)
    with spe show ?thesis by (simp add: FILE_ERROR_def FILE_EOF_def)
  next
    case True
    with assms sp have wl: "write_loop s f1 pos w1 = (rc, f', pos', w')"
      by (simp add: write_from_file_def)
    from True spe have "fpos f1 = pos" by simp
    from write_loop_effect [OF wl this] spe show ?thesis by simp
  qed
qed

lemmas run_defs = write_from_file_def write_loop.simps write_buf.simps sys_write_def
  fsetpos_def fseek_cur_def fgetpos_def fread_def fwrite_def take_fault_def emit_def
  FILE_BUFSIZE_def FILE_EOF_def FILE_ERROR_def Let_def

text \<open>
  Claim C5.  Whenever \<^verbatim>\<open>write_from_file\<close> returns 0 (would block), the
  cursor has advanced by exactly the number of bytes the sink socket took:
  these bytes are the journal's bytes between the old and the new cursor,
  no other socket received anything, and the new cursor is short of the
  journal's end.  For a chunk of \<open>N\<close> bytes of which the socket took only
  \<open>K < N\<close> before it would block, the cursor advances by \<open>K\<close>.  Writes
  interrupted by a signal are retried transparently: without the \<^verbatim>\<open>EINTR\<close>
  answers the call returns the same status, stream and cursor.
\<close>

theorem write_from_file_would_block:
  "(write_from_file s f pos w = (0, f', pos', w') \<longrightarrow>
      pos \<le> pos' \<and> pos' < length (fs w (fname f)) \<and>
      sent w' s = sent w s @ take (pos' - pos) (drop pos (fs w (fname f))) \<and>
      length (sent w' s) = length (sent w s) + (pos' - pos) \<and>
      (\<forall>t. t \<noteq> s \<longrightarrow> sent w' t = sent w t) \<and>
      write_from_file s f pos (without_eintr s w) = (0, f', pos', without_eintr s w')) \<and>
   (write_buf s f pos buf 0 w = (Some (0, f', p), w') \<longrightarrow>
      (\<exists>k<length buf. p = pos + k \<and> sent w' s = sent w s @ take k buf))"
proof (intro conjI impI)
  assume run: "write_from_file s f pos w = (0, f', pos', w')"
  have "(0::int) \<noteq> FILE_ERROR" by (simp add: FILE_ERROR_def)
  with write_from_file_effect [OF run]
  have le: "pos \<le> pos'" and lt: "pos' < length (fs w (fname f))"
    and sent: "sent w' = (sent w)(s := sent w s @ take (pos' - pos) (drop pos (fs w (fname f))))"
    by simp_all
  show "pos \<le> pos'" by (rule le)
  show "pos' < length (fs w (fname f))" by (rule lt)
  show eq: "sent w' s = sent w s @ take (pos' - pos) (drop pos (fs w (fname f)))"
    by (simp add: sent)
  show "length (sent w' s) = length (sent w s) + (pos' - pos)"
    using le lt by (simp add: eq)
  show "\<forall>t. t \<noteq> s \<longrightarrow> sent w' t = sent w t" by (simp add: sent)
  show "write_from_file s f pos (without_eintr s w) = (0, f', pos', without_eintr s w')"
    by (simp add: without_eintr_write_from_file run)
next
  assume run: "write_buf s f pos buf 0 w = (Some (0, f', p), w')"
  have "(0::int) \<noteq> FILE_ERROR" by (simp add: FILE_ERROR_def)
  with write_buf_effect [OF run] show "\<exists>k<length buf. p = pos + k \<and> sent w' s = sent w s @ take k buf"
    by auto
qed

theorem write_from_file_would_block_witness:
  "write_from_file 4 \<lparr>fname = ''j'', fpos = 0\<rparr> 0 replay_world =
     (0, \<lparr>fname = ''j'', fpos = 3\<rparr>, 3, replay_world_after) \<and>
   (0::nat) \<le> 3 \<and> 3 < length (fs replay_world ''j'') \<and>
   sent replay_world_after 4 = sent replay_world 4 @ [104, 101, 108] \<and>
   length (sent replay_world_after 4) = length (sent replay_world 4) + 3 \<and>
   write_from_file 4 \<lparr>fname = ''j'', fpos = 0\<rparr> 0 (without_eintr 4 replay_world) =
     (0, \<lparr>fname = ''j'', fpos = 3\<rparr>, 3, without_eintr 4 replay_world_after) \<and>
   write_buf 4 \<lparr>fname = ''j'', fpos = 0\<rparr> 0 hello 0 replay_world =
     (Some (0, \<lparr>fname = ''j'', fpos = 3\<rparr>, 3), replay_world_after) \<and>
   (\<exists>k<length hello. (3::nat) = 0 + k \<and> sent replay_world_after 4 = sent replay_world 4 @ take k hello)"
proof -
  have run: "write_from_file 4 \<lparr>fname = ''j'', fpos = 0\<rparr> 0 replay_world =
      (0, \<lparr>fname = ''j'', fpos = 3\<rparr>, 3, replay_world_after)"
    by (simp add: run_defs replay_world_def replay_world_after_def quiet_world_def hello_def)
  have chunk: "write_buf 4 \<lparr>fname = ''j'', fpos = 0\<rparr> 0 hello 0 replay_world =
      (Some (0, \<lparr>fname = ''j'', fpos = 3\<rparr>, 3), replay_world_after)"
    by (simp add: run_defs replay_world_def replay_world_after_def quiet_world_def hello_def)
  have data: "fs replay_world ''j'' = hello" "sent replay_world 4 = []"
    "sent replay_world_after 4 = [104, 101, 108]"
    by (simp_all add: replay_world_def replay_world_after_def quiet_world_def)
  from write_from_file_would_block [of 4 "\<lparr>fname = ''j'', fpos = 0\<rparr>" 0 replay_world
      "\<lparr>fname = ''j'', fpos = 3\<rparr>" 3 replay_world_after hello 3]
    run chunk data
  show ?thesis by (simp add: hello_def)
qed

subsection \<open>Evaluating the examples\<close>

lemmas addr_defs = satos_def AF_INET_def AF_INET6_def sizeof_sockaddr_in_def sizeof_sockaddr_in6_def
  inet_ntop4_def inet_ntop6_def show_dec_def show_hex_def show_radix.simps digit_char_def byte_at_def
  word16_at_def ntohs_def best_run_def better_run_def in_run_def encapsulated_v4_def

lemma keys: "satos client_addr 16 = Inr ''192.0.2.7:54321''"
  "satos (ai_addr upstream) (ai_addrlen upstream) = Inr ''10.0.0.2:80''"
  "satos (fst (sockname quiet_world 7)) (snd (sockname quiet_world 7)) = Inr ''10.0.0.1:40000''"
  "satos (ai_addr src_one) (ai_addrlen src_one) = Inr ''127.0.0.1:8000''"
  "satos (ai_addr src_two) (ai_addrlen src_two) = Inr ''[::1]:8000''"
  by (simp_all add: addr_defs Let_def client_addr_def upstream_def quiet_world_def src_one_def src_two_def)

lemma const_upd: "(\<lambda>_. c)(x := c) = (\<lambda>_. c)"
  by (simp add: fun_eq_iff)

lemmas ev_defs = EV_READ_def EV_WRITE_def EV__IOFDSET_def EV_ERROR_def ev_io_init_def ev_io_set_def
  ev_io_start_def ev_io_stop_def

lemmas init_defs = bridge_init_def sys_socket_def connect_loop.simps open_output_file_def
  sys_getsockname_def init_watchers_def close_fd.simps close_output_file.simps
  SOCK_STREAM_def SOCK_NONBLOCK_def SOCK_CLOEXEC_def

lemmas cb_defs = bridge_cb_def transfer_def four_steps_def finish_def recalibrate_def rearm_def
  src_flags_def dest_flags_def read_source_def bridge_source_def read_destination_def
  bridge_destination_def read_into_file_def read_loop.simps sys_read_def sys_shutdown_def
  bridge_del_def bridge_fini_def complete_connection_def sys_getsockopt_error_def
  close_fd.simps close_output_file.simps replays_source_def replays_destination_def


subsection \<open>A failed read on a peer socket\<close>

lemma read_into_file_error:
  "sock_in w s = ReadErr e # rest \<Longrightarrow> e \<noteq> EINTR \<Longrightarrow> e \<noteq> EAGAIN \<Longrightarrow> e \<noteq> EWOULDBLOCK \<Longrightarrow>
   read_into_file s f w =
     (FILE_EOF, 0, f,
      emit (Stderr ''Error reading from connection'') (w\<lparr>sock_in := (sock_in w)(s := rest)\<rparr>))"
  by (simp add: read_into_file_def read_loop.simps [of s f 0 w] sys_read_def)

text \<open>
  Claim C1 fails on the code.  When \<^verbatim>\<open>read\<close> on the source socket fails with
  \<^verbatim>\<open>ECONNRESET\<close>, \<^verbatim>\<open>read_into_file\<close> reports the error and returns
  \<^verbatim>\<open>FILE_EOF\<close>, so \<^verbatim>\<open>bridge_cb\<close> takes the failure for the end of the stream:
  it shuts down the read half of the source and the write half of the
  destination, stops the source watcher, and leaves the bridge alive with
  both sockets and both journals open.
\<close>

theorem read_error_keeps_bridge:
  "bridge_cb False EV_READ fresh_bridge reset_world =
     Returned
       (Running (fresh_bridge\<lparr>srcwatcher := \<lparr>fd = 5, events = 0x80, active = False\<rparr>,
                              eofFromSource := True\<rparr>),
        quiet_world\<lparr>trace := [Stderr ''Error reading from connection'', SysShutdown 5 SHUT_RD,
                               SysShutdown 7 SHUT_WR, EvIoStop 5]\<rparr>)"
  by (simp add: cb_defs run_defs ev_defs fresh_bridge_def reset_world_def quiet_world_def const_upd)

subsection \<open>The listener loop of \<^verbatim>\<open>main\<close>\<close>

lemma listener_loop_stuck:
  "\<exists>w'. listener_loop n (a1 # a2 # rest) (a2 # rest) w = StillRunning w'"
  by (induction n arbitrary: w) simp_all

lemma start_listener_no_faults:
  "faults w = [] \<Longrightarrow>
   \<exists>w'. start_listener a len w = (0, w') \<and> faults w' = [] \<and> bind_calls w' = bind_calls w @ [a]"
  by (simp add: start_listener_def take_fault_def sys_socket_def emit_def ev_io_start_def
      ev_io_init_def bind_calls_def Let_def)

lemma listener_loop_binds_again:
  "faults w = [] \<Longrightarrow>
   \<exists>w'. listener_loop n (a1 # a2 # rest) (a2 # rest) w = StillRunning w' \<and>
        bind_calls w' = bind_calls w @ replicate n (ai_addr a2)"
proof (induction n arbitrary: w)
  case 0
  then show ?case by simp
next
  case (Suc n)
  from start_listener_no_faults [OF Suc.prems, of "ai_addr a2" "ai_addrlen a2"]
  obtain w1 where w1: "start_listener (ai_addr a2) (ai_addrlen a2) w = (0, w1)" "faults w1 = []"
    "bind_calls w1 = bind_calls w @ [ai_addr a2]" by blast
  from Suc.IH [OF w1(2)] obtain w' where
    "listener_loop n (a1 # a2 # rest) (a2 # rest) w1 = StillRunning w'"
    "bind_calls w' = bind_calls w1 @ replicate n (ai_addr a2)" by blast
  with w1 show ?case by (simp add: replicate_app_Cons_same)
qed

lemma start_listeners_single:
  "start_listeners (Suc (Suc n)) [a] w = Finished (snd (start_listener (ai_addr a) (ai_addrlen a) w))"
  by (simp add: start_listeners_def)

lemma start_listener_quiet_world:
  "start_listener (ai_addr src_one) (ai_addrlen src_one) quiet_world =
     (0, quiet_world\<lparr>next_fd := 8,
        trace := [SysSocket 7 2 (SOCK_STREAM OR SOCK_NONBLOCK OR SOCK_CLOEXEC) 0, SysSetReuseAddr 7,
                  SysBind 7 (ai_addr src_one) 16, SysListen 7 1000, EvIoStart 7 EV_READ,
                  Stdout ''Listener listening on 127.0.0.1:8000''],
        listeners := [\<lparr>address = ''127.0.0.1:8000'',
                       watcher = \<lparr>fd = 7, events = EV_READ, active = True\<rparr>\<rparr>]\<rparr>)"
  by (simp add: start_listener_def init_defs ev_defs stdio_defs addr_defs Let_def
      BACKLOG_def quiet_world_def src_one_def)

text \<open>
  Claim C3 fails on the code.  The loop steps to \<^verbatim>\<open>airesult->ai_next\<close>, the
  second node, whatever the current node is.  With one resolved address it
  visits that address once and ends; with two or more it never ends, and
  asks for a listening socket on the second address again in every round.
\<close>

theorem listener_loop_never_finishes:
  "start_listeners n (a1 # a2 # rest) w \<noteq> Finished w' \<and>
   (\<exists>w''. start_listeners (Suc n) [src_one, src_two] quiet_world = StillRunning w'' \<and>
          bind_calls w'' = ai_addr src_one # replicate n (ai_addr src_two))"
proof
  show "start_listeners n (a1 # a2 # rest) w \<noteq> Finished w'"
  proof (cases n)
    case 0
    then show ?thesis by (simp add: start_listeners_def)
  next
    case (Suc m)
    from listener_loop_stuck [of m a1 a2 rest "snd (start_listener (ai_addr a1) (ai_addrlen a1) w)"]
    obtain w1 where "listener_loop m (a1 # a2 # rest) (a2 # rest)
        (snd (start_listener (ai_addr a1) (ai_addrlen a1) w)) = StillRunning w1" by blast
    with Suc show ?thesis by (simp add: start_listeners_def)
  qed
next
  have q: "faults quiet_world = []" "bind_calls quiet_world = []"
    by (simp_all add: quiet_world_def bind_calls_def)
  from start_listener_no_faults [OF q(1), of "ai_addr src_one" "ai_addrlen src_one"] q(2)
  obtain w1 where w1: "start_listener (ai_addr src_one) (ai_addrlen src_one) quiet_world = (0, w1)"
    "faults w1 = []" "bind_calls w1 = [ai_addr src_one]" by auto
  from listener_loop_binds_again [OF w1(2), of n src_one src_two "[]"] w1(3)
  obtain w'' where "listener_loop n [src_one, src_two] [src_two] w1 = StillRunning w''"
    "bind_calls w'' = ai_addr src_one # replicate n (ai_addr src_two)" by auto
  with w1(1) show "\<exists>w''. start_listeners (Suc n) [src_one, src_two] quiet_world = StillRunning w'' \<and>
          bind_calls w'' = ai_addr src_one # replicate n (ai_addr src_two)"
    by (simp add: start_listeners_def)
qed

subsection \<open>The acceptor\<close>

lemma close_fd_listeners: "listeners (close_fd s w) = listeners w"
proof (induction s w rule: close_fd.induct)
  case (1 s w)
  show ?case
  proof (cases "faults w")
    case Nil
    then show ?thesis by (simp add: close_fd.simps [of s w] take_fault_def emit_def)
  next
    case (Cons x xs)
    then have tf: "take_fault (emit (SysClose s) w) = (x, (emit (SysClose s) w)\<lparr>faults := xs\<rparr>)"
      by (simp add: take_fault_def emit_def)
    show ?thesis
    proof (cases "x = Some EINTR")
      case True
      with "1.IH" [OF tf [symmetric]] tf show ?thesis
        by (simp add: close_fd.simps [of s w] emit_def)
    next
      case False
      with tf show ?thesis
        by (cases x) (simp_all add: close_fd.simps [of s w] emit_def)
    qed
  qed
qed

lemma close_output_file_listeners: "listeners (close_output_file f w) = listeners w"
proof (induction f w rule: close_output_file.induct)
  case (1 f w)
  show ?case
  proof (cases "faults w")
    case Nil
    then show ?thesis by (simp add: close_output_file.simps [of f w] take_fault_def emit_def)
  next
    case (Cons x xs)
    then have tf: "take_fault (emit (Fclose (fname f)) w) = (x, (emit (Fclose (fname f)) w)\<lparr>faults := xs\<rparr>)"
      by (simp add: take_fault_def emit_def)
    show ?thesis
    proof (cases "x = Some EINTR")
      case True
      with "1.IH" [OF tf [symmetric]] tf show ?thesis
        by (simp add: close_output_file.simps [of f w] emit_def)
    next
      case False
      with tf show ?thesis
        by (cases x) (simp_all add: close_output_file.simps [of f w] emit_def)
    qed
  qed
qed

lemma connect_loop_listeners: "listeners (snd (connect_loop s a w)) = listeners w"
proof (induction s a w rule: connect_loop.induct)
  case (1 s a w)
  let ?e = "SysConnect s (ai_addr a) (ai_addrlen a)"
  show ?case
  proof (cases "faults w")
    case Nil
    then show ?thesis by (simp add: connect_loop.simps [of s a w] take_fault_def emit_def)
  next
    case (Cons x xs)
    then have tf: "take_fault (emit ?e w) = (x, (emit ?e w)\<lparr>faults := xs\<rparr>)"
      by (simp add: take_fault_def emit_def)
    show ?thesis
    proof (cases "x = Some EINTR")
      case True
      with "1.IH" [OF tf [symmetric]] tf show ?thesis
        by (simp add: connect_loop.simps [of s a w] emit_def)
    next
      case False
      with tf show ?thesis
        by (cases x) (simp_all add: connect_loop.simps [of s a w] emit_def)
    qed
  qed
qed

lemma open_output_file_listeners: "listeners (snd (open_output_file n a w)) = listeners w"
  by (simp add: open_output_file_def fopen_append_def fseek_end_def fgetpos_def take_fault_def
      emit_def close_output_file_listeners
      split: sum.splits list.splits option.splits)

lemma init_watchers_listeners: "init_watchers s d c w = (sw, dw, w') \<Longrightarrow> listeners w' = listeners w"
  by (auto simp add: init_watchers_def ev_io_start_def emit_def Let_def split: if_splits)

lemma bridge_init_listeners: "listeners (snd (bridge_init s n a d w)) = listeners w"
proof -
  have sock: "\<And>r w1. sys_socket (ai_family d) (ai_socktype d OR SOCK_NONBLOCK OR SOCK_CLOEXEC)
      (ai_protocol d) w = (r, w1) \<Longrightarrow> listeners w1 = listeners w"
    by (auto simp add: sys_socket_def take_fault_def emit_def split: list.splits option.splits)
  have name: "\<And>s r w0 w1. sys_getsockname s w0 = (r, w1) \<Longrightarrow> listeners w1 = listeners w0"
    by (auto simp add: sys_getsockname_def take_fault_def split: list.splits option.splits)
  have conn: "\<And>s r w0 w1. connect_loop s d w0 = (r, w1) \<Longrightarrow> listeners w1 = listeners w0"
    using connect_loop_listeners by (metis snd_conv)
  have opn: "\<And>n a r w0 w1. open_output_file n a w0 = (r, w1) \<Longrightarrow> listeners w1 = listeners w0"
    using open_output_file_listeners by (metis snd_conv)
  show ?thesis
    by (auto simp add: bridge_init_def emit_def close_fd_listeners close_output_file_listeners
        split: prod.splits option.splits outcome.splits
        dest!: sock name conn opn init_watchers_listeners)
qed

lemma start_bridge_listeners: "listeners (snd (start_bridge s n a d w)) = listeners w"
proof -
  have ini: "\<And>r w0 w1. bridge_init s n a d w0 = (r, w1) \<Longrightarrow> listeners w1 = listeners w0"
    using bridge_init_listeners by (metis snd_conv)
  have "listeners (snd (bridge_new s n a d w)) = listeners w"
    by (auto simp add: bridge_new_def take_fault_def emit_def
        split: prod.splits option.splits outcome.splits list.splits dest!: ini)
  then have new: "\<And>r w1. bridge_new s n a d w = (r, w1) \<Longrightarrow> listeners w1 = listeners w"
    by simp
  show ?thesis
    by (auto simp add: start_bridge_def emit_def close_fd_listeners
        split: prod.splits option.splits outcome.splits dest!: new)
qed


lemma accept_loop_listeners:
  "accept_loop lfd destaddr w = Returned w' \<Longrightarrow> listeners w' = listeners w"
proof (induction lfd destaddr w rule: accept_loop.induct)
  case (1 lfd destaddr w)
  obtain r w1 where sa: "sys_accept lfd w = (r, w1)" by (cases "sys_accept lfd w")
  then have l1: "listeners w1 = listeners w"
    by (auto simp add: sys_accept_def split: list.splits)
  show ?case
  proof (cases r)
    case (AcceptErr e)
    with "1.prems" sa l1 show ?thesis by (simp add: accept_loop.simps [of lfd destaddr w])
  next
    case (AcceptOk s addr addrlen)
    obtain x w2 where sb: "start_bridge s addrlen addr destaddr w1 = (x, w2)"
      by (cases "start_bridge s addrlen addr destaddr w1")
    with start_bridge_listeners [of s addrlen addr destaddr w1] have l2: "listeners w2 = listeners w1"
      by simp
    show ?thesis
    proof (cases x)
      case AssertFailed
      with "1.prems" sa sb AcceptOk show ?thesis by (simp add: accept_loop.simps [of lfd destaddr w])
    next
      case (Returned rc)
      with "1.prems" sa sb AcceptOk have "accept_loop lfd destaddr w2 = Returned w'"
        by (simp add: accept_loop.simps [of lfd destaddr w])
      from "1.IH" [OF sa [symmetric] AcceptOk sb [symmetric] Returned this] l1 l2
      show ?thesis by simp
    qed
  qed
qed

text \<open>
  Claim C4, amended.  When \<^verbatim>\<open>accept4\<close> fails, with whatever error, the
  acceptor leaves its loop at once: it logs nothing and accepts nothing
  more in this dispatch, the world is the one before the call but for the
  consumed answer.  With no connection pending the failure is \<^verbatim>\<open>EAGAIN\<close> and
  the world is unchanged.  No dispatch of the acceptor changes a listener:
  its watcher stays registered.
\<close>

theorem accept_error_exits_loop:
  "(acceptq w lfd = AcceptErr e # rest \<longrightarrow>
      accept_loop lfd destaddr w = Returned (w\<lparr>acceptq := (acceptq w)(lfd := rest)\<rparr>)) \<and>
   (acceptq w lfd = [] \<longrightarrow> accept_loop lfd destaddr w = Returned w) \<and>
   (accept_cb lw flags destaddr w = Returned w' \<longrightarrow> listeners w' = listeners w)"
proof (intro conjI impI)
  assume "acceptq w lfd = AcceptErr e # rest"
  then show "accept_loop lfd destaddr w = Returned (w\<lparr>acceptq := (acceptq w)(lfd := rest)\<rparr>)"
    by (simp add: accept_loop.simps [of lfd destaddr w] sys_accept_def)
next
  assume "acceptq w lfd = []"
  then show "accept_loop lfd destaddr w = Returned w"
    by (simp add: accept_loop.simps [of lfd destaddr w] sys_accept_def)
next
  assume "accept_cb lw flags destaddr w = Returned w'"
  then show "listeners w' = listeners w"
    by (auto simp add: accept_cb_def emit_def split: if_splits dest: accept_loop_listeners)
qed

theorem accept_error_exits_loop_witness:
  "acceptq accept_fail_world 3 = AcceptErr ECONNABORTED # [] \<and>
   accept_loop 3 upstream accept_fail_world = Returned quiet_world \<and>
   acceptq quiet_world 3 = [] \<and>
   accept_loop 3 upstream quiet_world = Returned quiet_world \<and>
   accept_cb \<lparr>fd = 3, events = EV_READ, active = True\<rparr> EV_READ upstream accept_fail_world =
     Returned quiet_world \<and>
   listeners quiet_world = listeners accept_fail_world \<and>
   trace quiet_world = trace accept_fail_world"
proof -
  have q: "acceptq accept_fail_world 3 = AcceptErr ECONNABORTED # []" "acceptq quiet_world 3 = []"
    "accept_fail_world\<lparr>acceptq := (acceptq accept_fail_world)(3 := [])\<rparr> = quiet_world"
    "trace quiet_world = trace accept_fail_world"
    by (simp_all add: accept_fail_world_def quiet_world_def const_upd)
  have cb: "accept_cb \<lparr>fd = 3, events = EV_READ, active = True\<rparr> EV_READ upstream accept_fail_world =
     accept_loop 3 upstream accept_fail_world"
    by (simp add: accept_cb_def ev_defs)
  from accept_error_exits_loop [of accept_fail_world 3 ECONNABORTED "[]" upstream
      "\<lparr>fd = 3, events = EV_READ, active = True\<rparr>" EV_READ quiet_world]
    accept_error_exits_loop [of quiet_world 3 ECONNABORTED "[]" upstream
      "\<lparr>fd = 3, events = EV_READ, active = True\<rparr>" EV_READ quiet_world]
    q cb
  show ?thesis by simp
qed

text \<open>
  Claim C4 as stated fails: the acceptor does not log a failed \<^verbatim>\<open>accept4\<close>.
  With \<^verbatim>\<open>ECONNABORTED\<close> as the answer, the callback returns and the record of
  calls, the standard error stream included, is as empty as it was.
\<close>

theorem accept_error_logged_counterexample:
  "acceptq accept_fail_world 3 = [AcceptErr ECONNABORTED] \<and>
   accept_cb \<lparr>fd = 3, events = EV_READ, active = True\<rparr> EV_READ upstream accept_fail_world =
     Returned quiet_world \<and>
   trace accept_fail_world = [] \<and> trace quiet_world = []"
  by (simp add: accept_cb_def accept_loop.simps sys_accept_def ev_defs accept_fail_world_def
      quiet_world_def const_upd)

subsection \<open>Steps that only make calls\<close>

lemma calls_only_refl: "calls_only w w"
  by (simp add: calls_only_def)

lemma calls_only_trans: "calls_only w w1 \<Longrightarrow> calls_only w1 w2 \<Longrightarrow> calls_only w w2"
  by (simp add: calls_only_def)

lemma calls_only_emit: "calls_only w (emit e w)"
  by (simp add: calls_only_def emit_def)

lemma calls_only_emit': "calls_only w w1 \<Longrightarrow> calls_only w (emit e w1)"
  by (simp add: calls_only_def emit_def)

lemma calls_only_take_fault: "take_fault w = (r, w1) \<Longrightarrow> calls_only w w1"
  by (auto simp add: calls_only_def take_fault_def split: list.splits)

lemma calls_only_close_fd: "calls_only w (close_fd s w)"
proof (induction s w rule: close_fd.induct)
  case (1 s w)
  obtain r w1 where tf: "take_fault (emit (SysClose s) w) = (r, w1)"
    by (cases "take_fault (emit (SysClose s) w)")
  from calls_only_take_fault [OF tf] have c1: "calls_only w w1"
    by (simp add: calls_only_def emit_def)
  show ?case
  proof (cases r)
    case None
    with tf c1 show ?thesis by (simp add: close_fd.simps [of s w])
  next
    case (Some e)
    show ?thesis
    proof (cases "e = EINTR")
      case True
      from "1.IH" [OF tf [symmetric] Some True] c1 tf Some True show ?thesis
        by (simp add: close_fd.simps [of s w] calls_only_def)
    next
      case False
      with tf Some c1 show ?thesis
        by (simp add: close_fd.simps [of s w] calls_only_def emit_def)
    qed
  qed
qed

lemma calls_only_close_output_file: "calls_only w (close_output_file f w)"
proof (induction f w rule: close_output_file.induct)
  case (1 f w)
  obtain r w1 where tf: "take_fault (emit (Fclose (fname f)) w) = (r, w1)"
    by (cases "take_fault (emit (Fclose (fname f)) w)")
  from calls_only_take_fault [OF tf] have c1: "calls_only w w1"
    by (simp add: calls_only_def emit_def)
  show ?case
  proof (cases r)
    case None
    with tf c1 show ?thesis by (simp add: close_output_file.simps [of f w])
  next
    case (Some e)
    show ?thesis
    proof (cases "e = EINTR")
      case True
      from "1.IH" [OF tf [symmetric] Some True] c1 tf Some True show ?thesis
        by (simp add: close_output_file.simps [of f w] calls_only_def)
    next
      case False
      with tf Some c1 show ?thesis
        by (simp add: close_output_file.simps [of f w] calls_only_def emit_def)
    qed
  qed
qed

lemma calls_only_connect_loop: "connect_loop s a w = (r, w') \<Longrightarrow> calls_only w w'"
proof (induction s a w arbitrary: r w' rule: connect_loop.induct)
  case (1 s a w)
  let ?e = "SysConnect s (ai_addr a) (ai_addrlen a)"
  obtain x w1 where tf: "take_fault (emit ?e w) = (x, w1)"
    by (cases "take_fault (emit ?e w)")
  from calls_only_take_fault [OF tf] have c1: "calls_only w w1"
    by (simp add: calls_only_def emit_def)
  show ?case
  proof (cases x)
    case None
    with tf c1 "1.prems" show ?thesis by (simp add: connect_loop.simps [of s a w])
  next
    case (Some e)
    show ?thesis
    proof (cases "e = EINTR")
      case True
      with "1.prems" tf Some have "connect_loop s a w1 = (r, w')"
        by (simp add: connect_loop.simps [of s a w])
      from "1.IH" [OF tf [symmetric] Some True this] c1 show ?thesis
        by (rule calls_only_trans [rotated])
    next
      case False
      with tf Some c1 "1.prems" show ?thesis
        by (auto simp add: connect_loop.simps [of s a w] calls_only_def emit_def split: if_splits)
    qed
  qed
qed

lemma emit_fields:
  "sock_in (emit e w) = sock_in w" "sock_out (emit e w) = sock_out w"
  "acceptq (emit e w) = acceptq w" "faults (emit e w) = faults w"
  "so_error (emit e w) = so_error w" "sockname (emit e w) = sockname w"
  "next_fd (emit e w) = next_fd w" "fs (emit e w) = fs w" "sent (emit e w) = sent w"
  "bridges (emit e w) = bridges w" "listeners (emit e w) = listeners w"
  "trace (emit e w) = trace w @ [e]"
  by (simp_all add: emit_def)

lemmas close_fd_fields = calls_only_close_fd [unfolded calls_only_def]
lemmas close_output_file_fields = calls_only_close_output_file [unfolded calls_only_def]

lemma open_output_file_result:
  "open_output_file n a w = (r, w') \<Longrightarrow>
   calls_only w w' \<and>
   (\<forall>f pos. r = Returned (Some (f, pos)) \<longrightarrow>
      0 < n \<and> satos a n = Inr (fname f) \<and> pos = length (fs w (fname f)) \<and> fpos f = pos)"
  by (auto simp add: open_output_file_def fopen_append_def fseek_end_def fgetpos_def take_fault_def
      calls_only_def emit_fields close_output_file_fields
      split: if_splits sum.splits list.splits option.splits)

lemma init_watchers_result:
  "init_watchers s d c w = (sw, dw, w') \<Longrightarrow> calls_only w w' \<and> fd sw = s \<and> fd dw = d"
  by (auto simp add: init_watchers_def ev_io_start_def ev_io_init_def ev_io_set_def Let_def
      calls_only_def emit_fields split: if_splits)

lemma sys_socket_result: "sys_socket fam ty pr w = (r, w') \<Longrightarrow> calls_only w w'"
  by (auto simp add: sys_socket_def take_fault_def calls_only_def emit_def
      split: list.splits option.splits)

lemma sys_getsockname_result:
  "sys_getsockname s w = (r, w') \<Longrightarrow> calls_only w w' \<and> (r = None \<or> r = Some (sockname w s))"
  by (auto simp add: sys_getsockname_def take_fault_def calls_only_def
      split: list.splits option.splits)

lemma bridge_init_result:
  assumes "bridge_init srcfd n a d w = (r, w')"
  shows "calls_only w w' \<and>
   (\<forall>b. r = Returned (Some b) \<longrightarrow>
      fd (srcwatcher b) = srcfd \<and>
      satos a n = Inr (fname (srcFile b)) \<and>
      satos (fst (sockname w (fd (destwatcher b)))) (snd (sockname w (fd (destwatcher b)))) =
        Inr (fname (destFile b)) \<and>
      srcPos b = length (fs w' (fname (srcFile b))) \<and>
      destPos b = length (fs w' (fname (destFile b))) \<and>
      \<not> eofFromSource b \<and> sourceFlushed b \<and> \<not> eofFromDestination b \<and> destinationFlushed b)"
proof (cases "0 < n")
  case False
  with assms show ?thesis by (simp add: bridge_init_def calls_only_refl)
next
  case pos: True
  obtain r1 w1 where s1: "sys_socket (ai_family d)
      (ai_socktype d OR SOCK_NONBLOCK OR SOCK_CLOEXEC) (ai_protocol d) w = (r1, w1)"
    by (cases "sys_socket (ai_family d) (ai_socktype d OR SOCK_NONBLOCK OR SOCK_CLOEXEC) (ai_protocol d) w")
  note c1 = sys_socket_result [OF s1]
  show ?thesis
  proof (cases r1)
    case None
    with assms pos s1 c1 show ?thesis
      by (auto simp add: bridge_init_def calls_only_def emit_fields)
  next
    case (Some destfd)
    obtain r2 w2 where s2: "connect_loop destfd d w1 = (r2, w2)"
      by (cases "connect_loop destfd d w1")
    note c2 = calls_only_trans [OF c1 calls_only_connect_loop [OF s2]]
    show ?thesis
    proof (cases r2)
      case None
      with assms pos s1 Some s2 c2 show ?thesis
        by (auto simp add: bridge_init_def calls_only_def close_fd_fields)
    next
      case connected: (Some connected)
      obtain r3 w3 where s3: "open_output_file n a w2 = (r3, w3)"
        by (cases "open_output_file n a w2")
      note o3 = open_output_file_result [OF s3]
      note c3 = calls_only_trans [OF c2 o3 [THEN conjunct1]]
      show ?thesis
      proof (cases "\<exists>sf spos. r3 = Returned (Some (sf, spos))")
        case False
        with assms pos s1 Some s2 connected s3 c3 show ?thesis
          by (auto simp add: bridge_init_def calls_only_def close_fd_fields emit_fields
              split: outcome.splits option.splits)
      next
        case True
        then obtain sf spos where r3: "r3 = Returned (Some (sf, spos))" by blast
        with o3 have src: "satos a n = Inr (fname sf)" "spos = length (fs w2 (fname sf))"
          by simp_all
        obtain r4 w4 where s4: "sys_getsockname destfd w3 = (r4, w4)"
          by (cases "sys_getsockname destfd w3")
        note g4 = sys_getsockname_result [OF s4]
        note c4 = calls_only_trans [OF c3 g4 [THEN conjunct1]]
        show ?thesis
        proof (cases r4)
          case None
          with assms pos s1 Some s2 connected s3 r3 s4 c4 show ?thesis
            by (auto simp add: bridge_init_def calls_only_def close_fd_fields
                close_output_file_fields emit_fields)
        next
          case name: (Some t)
          obtain da dn where t: "t = (da, dn)" by (cases t)
          with g4 name c3 have dname: "(da, dn) = sockname w destfd"
            by (simp add: calls_only_def)
          obtain r5 w5 where s5: "open_output_file dn da w4 = (r5, w5)"
            by (cases "open_output_file dn da w4")
          note o5 = open_output_file_result [OF s5]
          note c5 = calls_only_trans [OF c4 o5 [THEN conjunct1]]
          show ?thesis
          proof (cases "\<exists>df dpos. r5 = Returned (Some (df, dpos))")
            case False
            with assms pos s1 Some s2 connected s3 r3 s4 name t s5 c5 show ?thesis
              by (auto simp add: bridge_init_def calls_only_def close_fd_fields
                  close_output_file_fields emit_fields
                  split: outcome.splits option.splits)
          next
            case True
            then obtain df dpos where r5: "r5 = Returned (Some (df, dpos))" by blast
            with o5 have dst: "satos da dn = Inr (fname df)" "dpos = length (fs w4 (fname df))"
              by simp_all
            obtain sw dw w6 where s6: "init_watchers srcfd destfd connected w5 = (sw, dw, w6)"
              by (cases "init_watchers srcfd destfd connected w5") auto
            note i6 = init_watchers_result [OF s6]
            note c6 = calls_only_trans [OF c5 i6 [THEN conjunct1]]
            from assms pos s1 Some s2 connected s3 r3 s4 name t s5 r5 s6
            have res: "r = Returned (Some
               \<lparr>srcwatcher = sw, destwatcher = dw, srcFile = sf, destFile = df,
                srcPos = spos, destPos = dpos,
                eofFromSource = False, sourceFlushed = True,
                connectedToDestination = connected,
                eofFromDestination = False, destinationFlushed = True\<rparr>)" "w' = w6"
              by (simp_all add: bridge_init_def)
            have fs_eq: "fs w2 = fs w'" "fs w4 = fs w'"
              using c2 c4 c6 res(2) by (simp_all add: calls_only_def)
            from dname have "fst (sockname w destfd) = da" "snd (sockname w destfd) = dn"
              by (simp_all add: fst_def snd_def split: prod.splits) (metis fst_conv snd_conv)+
            with res c6 i6 src dst fs_eq show ?thesis by simp
          qed
        qed
      qed
    qed
  qed
qed

subsection \<open>Appending to a journal\<close>

lemma sys_read_result:
  "sys_read s n w = (r, w1) \<Longrightarrow>
   fs w1 = fs w \<and> sent w1 = sent w \<and> sock_out w1 = sock_out w \<and> trace w1 = trace w"
  by (auto simp add: sys_read_def split: list.splits)

lemma fwrite_result:
  "fwrite buf f w = (ok, f1, w1) \<Longrightarrow>
   fname f1 = fname f \<and> sent w1 = sent w \<and> sock_out w1 = sock_out w \<and> trace w1 = trace w \<and>
   (if ok then fs w1 = (fs w)(fname f := fs w (fname f) @ buf) else fs w1 = fs w)"
  by (auto simp add: fwrite_def take_fault_def Let_def split: list.splits option.splits)

lemma read_loop_effect:
  "read_loop s f count w = (rc, count', f', w') \<Longrightarrow>
   fname f' = fname f \<and> sent w' = sent w \<and> sock_out w' = sock_out w \<and>
   (rc = 0 \<or> rc = FILE_EOF \<or> rc = FILE_ERROR) \<and>
   (\<exists>data. fs w' = (fs w)(fname f := fs w (fname f) @ data) \<and>
           (rc \<noteq> FILE_ERROR \<longrightarrow> count' = count + length data)) \<and>
   (\<exists>evs. trace w' = trace w @ evs \<and> list_all is_stderr evs)"
proof (induction s f count w arbitrary: rc count' f' w' rule: read_loop.induct)
  case (1 s f count w)
  have rcs: "FILE_EOF \<noteq> FILE_ERROR" "(0::int) \<noteq> FILE_ERROR"
    by (simp_all add: FILE_EOF_def FILE_ERROR_def)
  obtain r w1 where sr: "sys_read s FILE_BUFSIZE w = (r, w1)"
    by (cases "sys_read s FILE_BUFSIZE w")
  note r1 = sys_read_result [OF sr]
  have triv: "fs w = (fs w)(fname f := fs w (fname f) @ [])" by simp
  show ?case
  proof (cases r)
    case (ReadErr e)
    show ?thesis
    proof (cases "e = EINTR")
      case True
      with "1.prems" sr ReadErr have rest: "read_loop s f count w1 = (rc, count', f', w')"
        by (simp add: read_loop.simps [of s f count w])
      from "1.IH"(2) [OF sr [symmetric] ReadErr True rest] r1 show ?thesis by simp
    next
      case False
      with "1.prems" sr ReadErr have
        "rc \<noteq> FILE_ERROR" "rc = 0 \<or> rc = FILE_EOF" "count' = count" "f' = f"
        "w' = w1 \<or> w' = emit (Stderr ''Error reading from connection'') w1"
        by (auto simp add: read_loop.simps [of s f count w] rcs split: if_splits)
      note res = this
      from res(5) r1 have tr: "\<exists>evs. trace w' = trace w @ evs \<and> list_all is_stderr evs"
        by (auto simp add: emit_fields is_stderr_def)
      from res r1 have "fs w' = (fs w)(fname f := fs w (fname f) @ [])"
        "rc \<noteq> FILE_ERROR \<longrightarrow> count' = count + length ([]::byte list)"
        by (auto simp add: emit_fields)
      then have ex: "\<exists>data. fs w' = (fs w)(fname f := fs w (fname f) @ data) \<and>
           (rc \<noteq> FILE_ERROR \<longrightarrow> count' = count + length data)" by blast
      from res r1 have "fname f' = fname f" "sent w' = sent w" "sock_out w' = sock_out w"
        by (auto simp add: emit_fields)
      with res(2) ex tr show ?thesis by blast
    qed
  next
    case (ReadOk buf)
    show ?thesis
    proof (cases "buf = []")
      case True
      with "1.prems" sr ReadOk have "rc = FILE_EOF" "count' = count" "f' = f" "w' = w1"
        by (simp_all add: read_loop.simps [of s f count w])
      note res = this
      from res r1 have "fs w' = (fs w)(fname f := fs w (fname f) @ [])"
        "rc \<noteq> FILE_ERROR \<longrightarrow> count' = count + length ([]::byte list)"
        "trace w' = trace w @ []" "list_all is_stderr []"
        by simp_all
      then have ex: "\<exists>data. fs w' = (fs w)(fname f := fs w (fname f) @ data) \<and>
           (rc \<noteq> FILE_ERROR \<longrightarrow> count' = count + length data)"
        and tr: "\<exists>evs. trace w' = trace w @ evs \<and> list_all is_stderr evs" by blast+
      from res r1 have "fname f' = fname f" "sent w' = sent w" "sock_out w' = sock_out w"
        by simp_all
      with res(1) ex tr show ?thesis by blast
    next
      case nonempty: False
      obtain ok f1 w2 where fw: "fwrite buf f w1 = (ok, f1, w2)"
        by (cases "fwrite buf f w1") auto
      note r2 = fwrite_result [OF fw]
      show ?thesis
      proof (cases ok)
        case False
        with "1.prems" sr ReadOk nonempty fw have
          "rc = FILE_ERROR" "f' = f1" "w' = emit (Stderr ''Unable to write to file'') w2"
          by (simp_all add: read_loop.simps [of s f count w])
        note res = this
        from res r1 r2 have tr: "\<exists>evs. trace w' = trace w @ evs \<and> list_all is_stderr evs"
          by (auto simp add: emit_fields is_stderr_def)
        from res r1 r2 False have "fs w' = (fs w)(fname f := fs w (fname f) @ [])"
          by (auto simp add: emit_fields)
        with res have ex: "\<exists>data. fs w' = (fs w)(fname f := fs w (fname f) @ data) \<and>
           (rc \<noteq> FILE_ERROR \<longrightarrow> count' = count + length data)" by blast
        from res r1 r2 have "fname f' = fname f" "sent w' = sent w" "sock_out w' = sock_out w"
          by (simp_all add: emit_fields)
        with res(1) ex tr show ?thesis by blast
      next
        case True
        with "1.prems" sr ReadOk nonempty fw have
          rest: "read_loop s f1 (count + length buf) w2 = (rc, count', f', w')"
          by (simp add: read_loop.simps [of s f count w])
        have okT: "ok = True" using True by simp
        note ih = "1.IH"(1) [OF sr [symmetric] ReadOk nonempty fw [symmetric] okT refl rest]
        from ih obtain data where data:
          "fs w' = (fs w2)(fname f1 := fs w2 (fname f1) @ data)"
          "rc \<noteq> FILE_ERROR \<longrightarrow> count' = count + length buf + length data"
          by blast
        from r2 True r1 have fs2: "fs w2 = (fs w)(fname f := fs w (fname f) @ buf)"
          "fname f1 = fname f" by simp_all
        from data fs2 have "fs w' = (fs w)(fname f := fs w (fname f) @ (buf @ data))"
          "rc \<noteq> FILE_ERROR \<longrightarrow> count' = count + length (buf @ data)"
          by simp_all
        then have ex: "\<exists>data. fs w' = (fs w)(fname f := fs w (fname f) @ data) \<and>
           (rc \<noteq> FILE_ERROR \<longrightarrow> count' = count + length data)" by blast
        from ih r1 r2 have "fname f' = fname f" "sent w' = sent w" "sock_out w' = sock_out w"
          "rc = 0 \<or> rc = FILE_EOF \<or> rc = FILE_ERROR"
          "\<exists>evs. trace w' = trace w @ evs \<and> list_all is_stderr evs"
          by simp_all
        with ex show ?thesis by blast
      qed
    qed
  qed
qed

subsection \<open>The four transfer steps\<close>

lemma sys_shutdown_result: "sys_shutdown s h w = (ok, w1) \<Longrightarrow> calls_only w w1"
  by (auto simp add: sys_shutdown_def take_fault_def calls_only_def emit_def split: list.splits)

lemma read_into_file_effect:
  "read_into_file s f w = (rc, count, f', w') \<Longrightarrow>
   fname f' = fname f \<and> sent w' = sent w \<and> sock_out w' = sock_out w \<and>
   (rc = 0 \<or> rc = FILE_EOF \<or> rc = FILE_ERROR) \<and>
   (\<exists>data. fs w' = (fs w)(fname f := fs w (fname f) @ data) \<and>
           (rc \<noteq> FILE_ERROR \<longrightarrow> count = length data))"
  using read_loop_effect [of s f 0 w rc count f' w'] by (simp add: read_into_file_def)

lemma read_source_effect:
  assumes "read_source b w = (err, count, b1, w1)"
  shows "srcwatcher b1 = srcwatcher b \<and> destwatcher b1 = destwatcher b \<and>
    fname (srcFile b1) = fname (srcFile b) \<and> destFile b1 = destFile b \<and>
    srcPos b1 = srcPos b \<and> destPos b1 = destPos b \<and>
    sourceFlushed b1 = sourceFlushed b \<and> destinationFlushed b1 = destinationFlushed b \<and>
    eofFromDestination b1 = eofFromDestination b \<and>
    connectedToDestination b1 = connectedToDestination b \<and>
    (eofFromSource b \<longrightarrow> eofFromSource b1) \<and> sent w1 = sent w \<and>
    (\<exists>data. fs w1 = (fs w)(fname (srcFile b) := fs w (fname (srcFile b)) @ data) \<and>
            (\<not> err \<longrightarrow> count = length data))"
proof -
  let ?r = "if \<not> eofFromSource b then read_into_file (fd (srcwatcher b)) (srcFile b) w
            else (0, 0, srcFile b, w)"
  obtain rc c f w0 where r: "?r = (rc, c, f, w0)" by (cases ?r) auto
  have eff: "fname f = fname (srcFile b) \<and> sent w0 = sent w \<and>
     (\<exists>data. fs w0 = (fs w)(fname (srcFile b) := fs w (fname (srcFile b)) @ data) \<and>
           (rc \<noteq> FILE_ERROR \<longrightarrow> c = length data))"
  proof (cases "eofFromSource b")
    case True
    with r have "rc = 0" "c = 0" "f = srcFile b" "w0 = w" by simp_all
    moreover have "fs w = (fs w)(fname (srcFile b) := fs w (fname (srcFile b)) @ [])" by simp
    ultimately show ?thesis by (metis list.size(3))
  next
    case False
    with r have "read_into_file (fd (srcwatcher b)) (srcFile b) w = (rc, c, f, w0)" by simp
    from read_into_file_effect [OF this] show ?thesis by blast
  qed
  then obtain data where data: "fs w0 = (fs w)(fname (srcFile b) := fs w (fname (srcFile b)) @ data)"
    "rc \<noteq> FILE_ERROR \<longrightarrow> c = length data" by blast
  obtain ok w2 where sh: "sys_shutdown (fd (srcwatcher b)) SHUT_RD w0 = (ok, w2)"
    by (cases "sys_shutdown (fd (srcwatcher b)) SHUT_RD w0")
  note c2 = sys_shutdown_result [OF sh, unfolded calls_only_def]
  from assms r sh have res:
    "b1 = b\<lparr>srcFile := f\<rparr> \<or> b1 = b\<lparr>srcFile := f, eofFromSource := True\<rparr>"
    "count = c" "err = (rc = FILE_ERROR)"
    "fs w1 = fs w0 \<or> fs w1 = fs w2" "sent w1 = sent w0 \<or> sent w1 = sent w2"
    by (auto simp add: read_source_def emit_fields split: if_splits)
  from res(4,5) c2 have same: "fs w1 = fs w0" "sent w1 = sent w0" by auto
  from data same res(2,3) have "\<exists>data. fs w1 = (fs w)(fname (srcFile b) := fs w (fname (srcFile b)) @ data) \<and>
            (\<not> err \<longrightarrow> count = length data)" by auto
  with res(1) eff same show ?thesis by auto
qed

lemma read_destination_effect:
  assumes "read_destination b w = (err, count, b1, w1)"
  shows "srcwatcher b1 = srcwatcher b \<and> destwatcher b1 = destwatcher b \<and>
    fname (destFile b1) = fname (destFile b) \<and> srcFile b1 = srcFile b \<and>
    srcPos b1 = srcPos b \<and> destPos b1 = destPos b \<and>
    sourceFlushed b1 = sourceFlushed b \<and> destinationFlushed b1 = destinationFlushed b \<and>
    eofFromSource b1 = eofFromSource b \<and>
    connectedToDestination b1 = connectedToDestination b \<and>
    (eofFromDestination b \<longrightarrow> eofFromDestination b1) \<and> sent w1 = sent w \<and>
    (\<exists>data. fs w1 = (fs w)(fname (destFile b) := fs w (fname (destFile b)) @ data) \<and>
            (\<not> err \<longrightarrow> count = length data))"
proof -
  let ?r = "if \<not> eofFromDestination b then read_into_file (fd (destwatcher b)) (destFile b) w
            else (0, 0, destFile b, w)"
  obtain rc c f w0 where r: "?r = (rc, c, f, w0)" by (cases ?r) auto
  have eff: "fname f = fname (destFile b) \<and> sent w0 = sent w \<and>
     (\<exists>data. fs w0 = (fs w)(fname (destFile b) := fs w (fname (destFile b)) @ data) \<and>
           (rc \<noteq> FILE_ERROR \<longrightarrow> c = length data))"
  proof (cases "eofFromDestination b")
    case True
    with r have "rc = 0" "c = 0" "f = destFile b" "w0 = w" by simp_all
    moreover have "fs w = (fs w)(fname (destFile b) := fs w (fname (destFile b)) @ [])" by simp
    ultimately show ?thesis by (metis list.size(3))
  next
    case False
    with r have "read_into_file (fd (destwatcher b)) (destFile b) w = (rc, c, f, w0)" by simp
    from read_into_file_effect [OF this] show ?thesis by blast
  qed
  then obtain data where data: "fs w0 = (fs w)(fname (destFile b) := fs w (fname (destFile b)) @ data)"
    "rc \<noteq> FILE_ERROR \<longrightarrow> c = length data" by blast
  obtain ok w2 where sh: "sys_shutdown (fd (destwatcher b)) SHUT_RD w0 = (ok, w2)"
    by (cases "sys_shutdown (fd (destwatcher b)) SHUT_RD w0")
  note c2 = sys_shutdown_result [OF sh, unfolded calls_only_def]
  from assms r sh have res:
    "b1 = b\<lparr>destFile := f\<rparr> \<or> b1 = b\<lparr>destFile := f, eofFromDestination := True\<rparr>"
    "count = c" "err = (rc = FILE_ERROR)"
    "fs w1 = fs w0 \<or> fs w1 = fs w2" "sent w1 = sent w0 \<or> sent w1 = sent w2"
    by (auto simp add: read_destination_def emit_fields split: if_splits)
  from res(4,5) c2 have same: "fs w1 = fs w0" "sent w1 = sent w0" by auto
  from data same res(2,3) have "\<exists>data. fs w1 = (fs w)(fname (destFile b) := fs w (fname (destFile b)) @ data) \<and>
            (\<not> err \<longrightarrow> count = length data)" by auto
  with res(1) eff same show ?thesis by auto
qed

lemma logs_only_refl: "logs_only w w"
  by (simp add: logs_only_def)

lemma logs_only_trans: "logs_only w w1 \<Longrightarrow> logs_only w1 w2 \<Longrightarrow> logs_only w w2"
  by (auto simp add: logs_only_def)

lemma logs_only_same: "trace w1 = trace w \<Longrightarrow> logs_only w w1"
  by (simp add: logs_only_def)

lemma logs_only_stderr: "logs_only w w1 \<Longrightarrow> logs_only w (emit (Stderr line) w1)"
  by (auto simp add: logs_only_def emit_fields is_stderr_def)

lemma stdio_trace:
  "fsetpos f pos w = (ok, f1, w1) \<Longrightarrow> trace w1 = trace w"
  "fseek_cur f off w = (ok, f1, w1) \<Longrightarrow> trace w1 = trace w"
  "fgetpos f w = (r, w1) \<Longrightarrow> trace w1 = trace w"
  "fread f n w = (buf, eof, f1, w1) \<Longrightarrow> trace w1 = trace w"
  "sys_write s buf w = (x, w1) \<Longrightarrow> trace w1 = trace w"
  by (auto simp add: fsetpos_def fseek_cur_def fgetpos_def fread_def sys_write_def take_fault_def
      Let_def split: list.splits option.splits write_result.splits)

lemma write_buf_trace:
  "write_buf s f pos buf bufpos w = (r, w') \<Longrightarrow> logs_only w w'"
proof (induction s f pos buf bufpos w arbitrary: r w' rule: write_buf.induct)
  case (1 s f pos buf bufpos w)
  show ?case
  proof (cases "bufpos = length buf")
    case True
    with "1.prems" have "w' = w"
      by (simp add: write_buf.simps [of s f pos buf "length buf" w])
    then show ?thesis by (simp add: logs_only_refl)
  next
    case False
    obtain x w1 where sw: "sys_write s (drop bufpos buf) w = (x, w1)"
      by (cases "sys_write s (drop bufpos buf) w")
    from stdio_trace(5) [OF sw] have l1: "logs_only w w1" by (rule logs_only_same)
    show ?thesis
    proof (cases x)
      case (WriteOk n)
      with "1.prems" sw False have "write_buf s f pos buf (bufpos + n) w1 = (r, w')"
        by (simp add: write_buf.simps [of s f pos buf bufpos w])
      from "1.IH"(1) [OF False sw [symmetric] WriteOk this] l1 show ?thesis
        by (rule logs_only_trans [rotated])
    next
      case (WriteErr e)
      show ?thesis
      proof (cases "e = EINTR")
        case True
        with "1.prems" sw False WriteErr have "write_buf s f pos buf bufpos w1 = (r, w')"
          by (simp add: write_buf.simps [of s f pos buf bufpos w])
        from "1.IH"(2) [OF False sw [symmetric] WriteErr True this] l1 show ?thesis
          by (rule logs_only_trans [rotated])
      next
        case notintr: False
        from "1.prems" sw False WriteErr notintr have "logs_only w1 w'"
          by (auto simp add: write_buf.simps [of s f pos buf bufpos w]
              logs_only_def emit_fields is_stderr_def
              split: if_splits prod.splits bool.splits option.splits
              dest!: stdio_trace(1,2,3))
        with l1 show ?thesis by (rule logs_only_trans)
      qed
    qed
  qed
qed

lemma write_loop_trace:
  "write_loop s f pos w = (rc, f', pos', w') \<Longrightarrow> logs_only w w'"
proof (induction s f pos w arbitrary: rc f' pos' w' rule: write_loop.induct)
  case (1 s f pos w)
  obtain buf eof f1 w1 where fr: "fread f FILE_BUFSIZE w = (buf, eof, f1, w1)"
    by (cases "fread f FILE_BUFSIZE w") auto
  from stdio_trace(4) [OF fr] have l1: "logs_only w w1" by (rule logs_only_same)
  show ?case
  proof (cases "buf = []")
    case True
    with "1.prems" fr have "w' = w1 \<or> w' = emit (Stderr ''Error reading from file'') w1"
      by (auto simp add: write_loop.simps [of s f pos w] split: if_splits)
    with l1 show ?thesis by (auto intro: logs_only_stderr)
  next
    case nonempty: False
    obtain x w2 where wb: "write_buf s f1 pos buf 0 w1 = (x, w2)"
      by (cases "write_buf s f1 pos buf 0 w1")
    from logs_only_trans [OF l1 write_buf_trace [OF wb]] have l2: "logs_only w w2" .
    show ?thesis
    proof (cases x)
      case (Some t)
      with "1.prems" fr nonempty wb have "w' = w2"
        by (simp add: write_loop.simps [of s f pos w] split: prod.splits)
      with l2 show ?thesis by simp
    next
      case None
      obtain g w3 where gp: "fgetpos f1 w2 = (g, w3)" by (cases "fgetpos f1 w2")
      from logs_only_trans [OF l2 logs_only_same [OF stdio_trace(3) [OF gp]]]
      have l3: "logs_only w w3" .
      show ?thesis
      proof (cases g)
        case gNone: None
        with "1.prems" fr nonempty wb None gp
        have "w' = emit (Stderr ''Unable to obtain current file position'') w3"
          by (simp add: write_loop.simps [of s f pos w])
        with l3 show ?thesis by (auto intro: logs_only_stderr)
      next
        case (Some p)
        with "1.prems" fr nonempty wb None gp
        have rest: "write_loop s f1 p w3 = (rc, f', pos', w')"
          by (simp add: write_loop.simps [of s f pos w])
        from "1.IH" [OF fr [symmetric] refl refl nonempty wb [symmetric] None gp [symmetric] Some rest]
          l3 show ?thesis by (rule logs_only_trans [rotated])
      qed
    qed
  qed
qed

lemma write_from_file_trace:
  "write_from_file s f pos w = (rc, f', pos', w') \<Longrightarrow> logs_only w w'"
  by (auto simp add: write_from_file_def logs_only_def emit_fields is_stderr_def
      split: prod.splits bool.splits
      dest!: stdio_trace(1) write_loop_trace)

lemma new_events_append: "trace w' = trace w @ evs \<Longrightarrow> new_events w w' = evs"
  by (simp add: new_events_def)

lemma sys_shutdown_trace:
  "sys_shutdown s h w = (ok, w1) \<Longrightarrow> trace w1 = trace w @ [SysShutdown s h] \<and> fs w1 = fs w"
  by (auto simp add: sys_shutdown_def take_fault_def emit_def split: list.splits)

lemma stderr_not_shutdown: "list_all is_stderr evs \<Longrightarrow> SysShutdown s h \<notin> set evs"
  by (auto simp add: list_all_iff is_stderr_def)

lemma bridge_source_effect:
  assumes run: "bridge_source count b w = (err, b2, w2)"
  shows "srcwatcher b2 = srcwatcher b \<and> destwatcher b2 = destwatcher b \<and>
    fname (srcFile b2) = fname (srcFile b) \<and> destFile b2 = destFile b \<and>
    destPos b2 = destPos b \<and> eofFromSource b2 = eofFromSource b \<and>
    eofFromDestination b2 = eofFromDestination b \<and>
    destinationFlushed b2 = destinationFlushed b \<and>
    connectedToDestination b2 = connectedToDestination b \<and>
    fs w2 = fs w \<and> srcPos b \<le> srcPos b2 \<and>
    (srcPos b \<le> length (fs w (fname (srcFile b))) \<longrightarrow>
       srcPos b2 \<le> length (fs w (fname (srcFile b)))) \<and>
    (\<not> err \<and> sourceFlushed b2 \<and> replays_source count b \<longrightarrow>
       length (fs w (fname (srcFile b))) \<le> srcPos b2 \<and>
       fst (write_from_file (fd (destwatcher b)) (srcFile b) (srcPos b) w) = FILE_EOF) \<and>
    (\<not> err \<and> \<not> sourceFlushed b2 \<longrightarrow> srcPos b2 < length (fs w (fname (srcFile b)))) \<and>
    (\<not> replays_source count b \<longrightarrow> \<not> err \<and> sourceFlushed b2 \<and> srcPos b2 = srcPos b) \<and>
    (SysShutdown (fd (destwatcher b)) SHUT_WR \<in> set (new_events w w2) \<longleftrightarrow>
       \<not> err \<and> sourceFlushed b2 \<and> eofFromSource b)"
proof -
  let ?J = "fs w (fname (srcFile b))"
  let ?d = "fd (destwatcher b)"
  let ?r = "if replays_source count b
            then write_from_file ?d (srcFile b) (srcPos b) w
            else (FILE_EOF, srcFile b, srcPos b, w)"
  have rcs: "FILE_EOF \<noteq> FILE_ERROR" "(0::int) \<noteq> FILE_ERROR" "FILE_EOF \<noteq> 0"
    by (simp_all add: FILE_EOF_def FILE_ERROR_def)
  obtain rc f pos w1 where r: "?r = (rc, f, pos, w1)" by (cases ?r) auto
  have eff: "fs w1 = fs w \<and> fname f = fname (srcFile b) \<and> srcPos b \<le> pos \<and>
     (rc = 0 \<or> rc = FILE_EOF \<or> rc = FILE_ERROR) \<and>
     (srcPos b \<le> length ?J \<longrightarrow> pos \<le> length ?J) \<and>
     (rc = FILE_EOF \<and> replays_source count b \<longrightarrow> length ?J \<le> pos) \<and>
     (rc = 0 \<longrightarrow> pos < length ?J) \<and>
     (\<not> replays_source count b \<longrightarrow> rc = FILE_EOF \<and> pos = srcPos b) \<and>
     (replays_source count b \<longrightarrow> fst (write_from_file ?d (srcFile b) (srcPos b) w) = rc) \<and>
     logs_only w w1"
  proof (cases "replays_source count b")
    case True
    with r have wf: "write_from_file ?d (srcFile b) (srcPos b) w = (rc, f, pos, w1)" by simp
    from write_from_file_effect [OF wf] write_from_file_trace [OF wf] True wf
    show ?thesis by simp
  next
    case False
    with r rcs show ?thesis by (auto simp add: logs_only_refl)
  qed
  then obtain evs where evs: "trace w1 = trace w @ evs" "list_all is_stderr evs"
    by (auto simp add: logs_only_def)
  obtain ok w3 where sh: "sys_shutdown ?d SHUT_WR w1 = (ok, w3)"
    by (cases "sys_shutdown ?d SHUT_WR w1")
  note st = sys_shutdown_trace [OF sh]
  show ?thesis
  proof (cases "rc = FILE_ERROR")
    case True
    with run r have res: "err" "b2 = b\<lparr>srcFile := f, srcPos := pos\<rparr>"
      "w2 = emit (Stderr ''Error writing from source output file to destination'') w1"
      by (simp_all add: bridge_source_def)
    from res(3) evs have "new_events w w2 =
        evs @ [Stderr ''Error writing from source output file to destination'']"
      by (simp add: new_events_def emit_fields)
    with evs(2) have "SysShutdown ?d SHUT_WR \<notin> set (new_events w w2)"
      by (auto simp add: list_all_iff is_stderr_def)
    with res eff True rcs show ?thesis by (auto simp add: emit_fields)
  next
    case noerr: False
    show ?thesis
    proof (cases "rc = FILE_EOF")
      case True
      show ?thesis
      proof (cases "eofFromSource b")
        case eof: True
        with run r True noerr sh have res: "\<not> err"
          "b2 = b\<lparr>srcFile := f, srcPos := pos, sourceFlushed := True\<rparr>"
          "w2 = w3 \<or> w2 = emit (Stderr ''Unable to shutdown destination for writing'') w3"
          by (auto simp add: bridge_source_def split: if_splits)
        from res(3) st evs have "new_events w w2 = evs @ [SysShutdown ?d SHUT_WR] \<or>
          new_events w w2 = evs @ [SysShutdown ?d SHUT_WR,
             Stderr ''Unable to shutdown destination for writing'']"
          by (auto simp add: new_events_def emit_fields)
        then have "SysShutdown ?d SHUT_WR \<in> set (new_events w w2)" by auto
        moreover from res(3) st have "fs w2 = fs w1" by (auto simp add: emit_fields)
        ultimately show ?thesis using res eff True eof rcs by auto
      next
        case noeof: False
        with run r True noerr have res: "\<not> err"
          "b2 = b\<lparr>srcFile := f, srcPos := pos, sourceFlushed := True\<rparr>" "w2 = w1"
          by (simp_all add: bridge_source_def)
        from res(3) evs have "new_events w w2 = evs" by (simp add: new_events_def)
        with evs(2) have "SysShutdown ?d SHUT_WR \<notin> set (new_events w w2)"
          by (simp add: stderr_not_shutdown)
        with res eff True noeof rcs show ?thesis by auto
      qed
    next
      case False
      with run r noerr have res: "\<not> err"
        "b2 = b\<lparr>srcFile := f, srcPos := pos, sourceFlushed := False\<rparr>" "w2 = w1"
        by (simp_all add: bridge_source_def)
      from res(3) evs have "new_events w w2 = evs" by (simp add: new_events_def)
      with evs(2) have "SysShutdown ?d SHUT_WR \<notin> set (new_events w w2)"
        by (simp add: stderr_not_shutdown)
      moreover from eff False noerr have "rc = 0" by blast
      ultimately show ?thesis using res eff rcs by auto
    qed
  qed
qed

lemma bridge_destination_effect:
  assumes run: "bridge_destination count b w = (err, b2, w2)"
  shows "destwatcher b2 = destwatcher b \<and> srcwatcher b2 = srcwatcher b \<and>
    fname (destFile b2) = fname (destFile b) \<and> srcFile b2 = srcFile b \<and>
    srcPos b2 = srcPos b \<and> eofFromDestination b2 = eofFromDestination b \<and>
    eofFromSource b2 = eofFromSource b \<and>
    sourceFlushed b2 = sourceFlushed b \<and>
    connectedToDestination b2 = connectedToDestination b \<and>
    fs w2 = fs w \<and> destPos b \<le> destPos b2 \<and>
    (destPos b \<le> length (fs w (fname (destFile b))) \<longrightarrow>
       destPos b2 \<le> length (fs w (fname (destFile b)))) \<and>
    (\<not> err \<and> destinationFlushed b2 \<and> replays_destination count b \<longrightarrow>
       length (fs w (fname (destFile b))) \<le> destPos b2 \<and>
       fst (write_from_file (fd (srcwatcher b)) (destFile b) (destPos b) w) = FILE_EOF) \<and>
    (\<not> err \<and> \<not> destinationFlushed b2 \<longrightarrow> destPos b2 < length (fs w (fname (destFile b)))) \<and>
    (\<not> replays_destination count b \<longrightarrow> \<not> err \<and> destinationFlushed b2 \<and> destPos b2 = destPos b) \<and>
    (SysShutdown (fd (srcwatcher b)) SHUT_WR \<in> set (new_events w w2) \<longleftrightarrow>
       \<not> err \<and> destinationFlushed b2 \<and> eofFromDestination b)"
proof -
  let ?J = "fs w (fname (destFile b))"
  let ?d = "fd (srcwatcher b)"
  let ?r = "if replays_destination count b
            then write_from_file ?d (destFile b) (destPos b) w
            else (FILE_EOF, destFile b, destPos b, w)"
  have rcs: "FILE_EOF \<noteq> FILE_ERROR" "(0::int) \<noteq> FILE_ERROR" "FILE_EOF \<noteq> 0"
    by (simp_all add: FILE_EOF_def FILE_ERROR_def)
  obtain rc f pos w1 where r: "?r = (rc, f, pos, w1)" by (cases ?r) auto
  have eff: "fs w1 = fs w \<and> fname f = fname (destFile b) \<and> destPos b \<le> pos \<and>
     (rc = 0 \<or> rc = FILE_EOF \<or> rc = FILE_ERROR) \<and>
     (destPos b \<le> length ?J \<longrightarrow> pos \<le> length ?J) \<and>
     (rc = FILE_EOF \<and> replays_destination count b \<longrightarrow> length ?J \<le> pos) \<and>
     (rc = 0 \<longrightarrow> pos < length ?J) \<and>
     (\<not> replays_destination count b \<longrightarrow> rc = FILE_EOF \<and> pos = destPos b) \<and>
     (replays_destination count b \<longrightarrow> fst (write_from_file ?d (destFile b) (destPos b) w) = rc) \<and>
     logs_only w w1"
  proof (cases "replays_destination count b")
    case True
    with r have wf: "write_from_file ?d (destFile b) (destPos b) w = (rc, f, pos, w1)" by simp
    from write_from_file_effect [OF wf] write_from_file_trace [OF wf] True wf
    show ?thesis by simp
  next
    case False
    with r rcs show ?thesis by (auto simp add: logs_only_refl)
  qed
  then obtain evs where evs: "trace w1 = trace w @ evs" "list_all is_stderr evs"
    by (auto simp add: logs_only_def)
  obtain ok w3 where sh: "sys_shutdown ?d SHUT_WR w1 = (ok, w3)"
    by (cases "sys_shutdown ?d SHUT_WR w1")
  note st = sys_shutdown_trace [OF sh]
  show ?thesis
  proof (cases "rc = FILE_ERROR")
    case True
    with run r have res: "err" "b2 = b\<lparr>destFile := f, destPos := pos\<rparr>"
      "w2 = emit (Stderr ''Error writing from destination output file to source'') w1"
      by (simp_all add: bridge_destination_def)
    from res(3) evs have "new_events w w2 =
        evs @ [Stderr ''Error writing from destination output file to source'']"
      by (simp add: new_events_def emit_fields)
    with evs(2) have "SysShutdown ?d SHUT_WR \<notin> set (new_events w w2)"
      by (auto simp add: list_all_iff is_stderr_def)
    with res eff True rcs show ?thesis by (auto simp add: emit_fields)
  next
    case noerr: False
    show ?thesis
    proof (cases "rc = FILE_EOF")
      case True
      show ?thesis
      proof (cases "eofFromDestination b")
        case eof: True
        with run r True noerr sh have res: "\<not> err"
          "b2 = b\<lparr>destFile := f, destPos := pos, destinationFlushed := True\<rparr>"
          "w2 = w3 \<or> w2 = emit (Stderr ''Unable to shutdown source for writing'') w3"
          by (auto simp add: bridge_destination_def split: if_splits)
        from res(3) st evs have "new_events w w2 = evs @ [SysShutdown ?d SHUT_WR] \<or>
          new_events w w2 = evs @ [SysShutdown ?d SHUT_WR,
             Stderr ''Unable to shutdown source for writing'']"
          by (auto simp add: new_events_def emit_fields)
        then have "SysShutdown ?d SHUT_WR \<in> set (new_events w w2)" by auto
        moreover from res(3) st have "fs w2 = fs w1" by (auto simp add: emit_fields)
        ultimately show ?thesis using res eff True eof rcs by auto
      next
        case noeof: False
        with run r True noerr have res: "\<not> err"
          "b2 = b\<lparr>destFile := f, destPos := pos, destinationFlushed := True\<rparr>" "w2 = w1"
          by (simp_all add: bridge_destination_def)
        from res(3) evs have "new_events w w2 = evs" by (simp add: new_events_def)
        with evs(2) have "SysShutdown ?d SHUT_WR \<notin> set (new_events w w2)"
          by (simp add: stderr_not_shutdown)
        with res eff True noeof rcs show ?thesis by auto
      qed
    next
      case False
      with run r noerr have res: "\<not> err"
        "b2 = b\<lparr>destFile := f, destPos := pos, destinationFlushed := False\<rparr>" "w2 = w1"
        by (simp_all add: bridge_destination_def)
      from res(3) evs have "new_events w w2 = evs" by (simp add: new_events_def)
      with evs(2) have "SysShutdown ?d SHUT_WR \<notin> set (new_events w w2)"
        by (simp add: stderr_not_shutdown)
      moreover from eff False noerr have "rc = 0" by blast
      ultimately show ?thesis using res eff rcs by auto
    qed
  qed
qed

subsection \<open>Recalibrating the watchers\<close>

lemma flags_range:
  "src_flags b = 0 \<or> src_flags b = 1 \<or> src_flags b = 2 \<or> src_flags b = 3"
  "dest_flags b = 0 \<or> dest_flags b = 1 \<or> dest_flags b = 2 \<or> dest_flags b = 3"
  by (auto simp add: src_flags_def dest_flags_def EV_READ_def EV_WRITE_def Let_def)

lemma flags_bits:
  "(src_flags b AND EV_READ \<noteq> 0) = (\<not> eofFromSource b)"
  "(src_flags b AND EV_WRITE \<noteq> 0) = (\<not> destinationFlushed b)"
  "(dest_flags b AND EV_READ \<noteq> 0) = (\<not> eofFromDestination b)"
  "(dest_flags b AND EV_WRITE \<noteq> 0) = (\<not> sourceFlushed b)"
  "(src_flags b = 0) = (eofFromSource b \<and> destinationFlushed b)"
  "(dest_flags b = 0) = (eofFromDestination b \<and> sourceFlushed b)"
  by (auto simp add: src_flags_def dest_flags_def EV_READ_def EV_WRITE_def Let_def)

lemma rearm_effect:
  assumes "rearm io nf w = (io', w')" and "nf = 0 \<or> nf = 1 \<or> nf = 2 \<or> nf = 3"
  shows "events io' AND (EV_READ OR EV_WRITE) = nf \<and> fd io' = fd io \<and> calls_only w w' \<and>
    (events io \<noteq> nf \<longrightarrow> active io' = (nf \<noteq> 0) \<and> EvIoStop (fd io) \<in> set (new_events w w')) \<and>
    (events io = nf \<longrightarrow> io' = io \<and> w' = w)"
  using assms
  by (auto simp add: rearm_def ev_io_stop_def ev_io_set_def ev_io_start_def Let_def
      EV_READ_def EV_WRITE_def EV__IOFDSET_def calls_only_def emit_def new_events_def
      split: if_splits)

lemma mask_bits:
  "x AND (EV_READ OR EV_WRITE) = nf \<Longrightarrow> x AND EV_READ = nf AND EV_READ \<and> x AND EV_WRITE = nf AND EV_WRITE"
proof -
  assume m: "x AND (EV_READ OR EV_WRITE) = nf"
  have "x AND EV_READ = (x AND (EV_READ OR EV_WRITE)) AND EV_READ"
    by (simp add: EV_READ_def EV_WRITE_def and.assoc)
  moreover have "x AND EV_WRITE = (x AND (EV_READ OR EV_WRITE)) AND EV_WRITE"
    by (simp add: EV_READ_def EV_WRITE_def and.assoc)
  ultimately show ?thesis using m by simp
qed

lemma recalibrate_effect:
  assumes "recalibrate b w = (b', w')"
  shows "b' = b\<lparr>srcwatcher := srcwatcher b', destwatcher := destwatcher b'\<rparr> \<and>
    calls_only w w' \<and>
    events (srcwatcher b') AND (EV_READ OR EV_WRITE) = src_flags b \<and>
    events (destwatcher b') AND (EV_READ OR EV_WRITE) = dest_flags b \<and>
    fd (srcwatcher b') = fd (srcwatcher b) \<and> fd (destwatcher b') = fd (destwatcher b) \<and>
    (events (srcwatcher b) \<noteq> src_flags b \<longrightarrow>
       active (srcwatcher b') = (src_flags b \<noteq> 0) \<and>
       EvIoStop (fd (srcwatcher b)) \<in> set (new_events w w')) \<and>
    (events (destwatcher b) \<noteq> dest_flags b \<longrightarrow>
       active (destwatcher b') = (dest_flags b \<noteq> 0) \<and>
       EvIoStop (fd (destwatcher b)) \<in> set (new_events w w'))"
proof -
  obtain sw w1 where r1: "rearm (srcwatcher b) (src_flags b) w = (sw, w1)"
    by (cases "rearm (srcwatcher b) (src_flags b) w")
  obtain dw w2 where r2: "rearm (destwatcher b) (dest_flags b) w1 = (dw, w2)"
    by (cases "rearm (destwatcher b) (dest_flags b) w1")
  note e1 = rearm_effect [OF r1 flags_range(1)]
  note e2 = rearm_effect [OF r2 flags_range(2)]
  from assms r1 r2 have res: "b' = b\<lparr>srcwatcher := sw, destwatcher := dw\<rparr>" "w' = w2"
    by (simp_all add: recalibrate_def)
  have grow: "\<And>e. e \<in> set (new_events w w1) \<Longrightarrow> e \<in> set (new_events w w2)"
  proof -
    fix e assume e: "e \<in> set (new_events w w1)"
    from r1 obtain evs1 where t1: "trace w1 = trace w @ evs1"
      by (auto simp add: rearm_def ev_io_stop_def ev_io_start_def ev_io_set_def emit_def Let_def
          split: if_splits)
    from r2 obtain evs2 where t2: "trace w2 = trace w1 @ evs2"
      by (auto simp add: rearm_def ev_io_stop_def ev_io_start_def ev_io_set_def emit_def Let_def
          split: if_splits)
    from e t1 t2 show "e \<in> set (new_events w w2)" by (simp add: new_events_def)
  qed
  have later: "\<And>e. e \<in> set (new_events w1 w2) \<Longrightarrow> e \<in> set (new_events w w2)"
  proof -
    fix e assume e: "e \<in> set (new_events w1 w2)"
    from r1 obtain evs1 where t1: "trace w1 = trace w @ evs1"
      by (auto simp add: rearm_def ev_io_stop_def ev_io_start_def ev_io_set_def emit_def Let_def
          split: if_splits)
    from r2 obtain evs2 where t2: "trace w2 = trace w1 @ evs2"
      by (auto simp add: rearm_def ev_io_stop_def ev_io_start_def ev_io_set_def emit_def Let_def
          split: if_splits)
    from e t1 t2 show "e \<in> set (new_events w w2)" by (simp add: new_events_def)
  qed
  from e1 e2 have "calls_only w w2" by (blast intro: calls_only_trans)
  with res e1 e2 grow later show ?thesis by simp
qed

lemma recalibrate_fields:
  assumes "recalibrate b w = (b', w')"
  shows "srcFile b' = srcFile b" "destFile b' = destFile b" "srcPos b' = srcPos b"
    "destPos b' = destPos b" "sourceFlushed b' = sourceFlushed b"
    "destinationFlushed b' = destinationFlushed b" "fs w' = fs w"
    "eofFromSource b' = eofFromSource b" "eofFromDestination b' = eofFromDestination b"
    "connectedToDestination b' = connectedToDestination b"
proof -
  obtain sw w1 where r1: "rearm (srcwatcher b) (src_flags b) w = (sw, w1)"
    by (cases "rearm (srcwatcher b) (src_flags b) w")
  obtain dw w2 where r2: "rearm (destwatcher b) (dest_flags b) w1 = (dw, w2)"
    by (cases "rearm (destwatcher b) (dest_flags b) w1")
  from assms r1 r2 have res: "b' = b\<lparr>srcwatcher := sw, destwatcher := dw\<rparr>" "w' = w2"
    by (simp_all add: recalibrate_def)
  from res(1) show "srcFile b' = srcFile b" "destFile b' = destFile b" "srcPos b' = srcPos b"
    "destPos b' = destPos b" "sourceFlushed b' = sourceFlushed b"
    "destinationFlushed b' = destinationFlushed b"
    "eofFromSource b' = eofFromSource b" "eofFromDestination b' = eofFromDestination b"
    "connectedToDestination b' = connectedToDestination b"
    by simp_all
  from recalibrate_effect [OF assms] show "fs w' = fs w" by (simp add: calls_only_def)
qed

lemma rearm_exact:
  assumes "rearm io nf w = (io', w')" and "nf = 0 \<or> nf = 1 \<or> nf = 2 \<or> nf = 3"
  shows "w' = w\<lparr>trace := trace w @
           (if events io \<noteq> nf
            then EvIoStop (fd io) # (if nf \<noteq> 0 then [EvIoStart (fd io) nf] else [])
            else [])\<rparr> \<and>
    (events io \<noteq> nf \<and> nf \<noteq> 0 \<longrightarrow> active io' \<and> events io' = nf) \<and>
    (events io \<noteq> nf \<and> nf = 0 \<longrightarrow> \<not> active io') \<and>
    (events io = nf \<longrightarrow> io' = io)"
  using assms
  by (auto simp add: rearm_def ev_io_stop_def ev_io_set_def ev_io_start_def Let_def
      EV__IOFDSET_def emit_def split: if_splits)

lemma recalibrate_exact:
  assumes "recalibrate b w = (b', w')"
  shows "w' = w\<lparr>trace := trace w @
           (if events (srcwatcher b) \<noteq> src_flags b
            then EvIoStop (fd (srcwatcher b)) #
                 (if src_flags b \<noteq> 0 then [EvIoStart (fd (srcwatcher b)) (src_flags b)] else [])
            else []) @
           (if events (destwatcher b) \<noteq> dest_flags b
            then EvIoStop (fd (destwatcher b)) #
                 (if dest_flags b \<noteq> 0 then [EvIoStart (fd (destwatcher b)) (dest_flags b)] else [])
            else [])\<rparr> \<and>
    (events (srcwatcher b) \<noteq> src_flags b \<and> src_flags b \<noteq> 0 \<longrightarrow>
       active (srcwatcher b') \<and> events (srcwatcher b') = src_flags b) \<and>
    (events (destwatcher b) \<noteq> dest_flags b \<and> dest_flags b \<noteq> 0 \<longrightarrow>
       active (destwatcher b') \<and> events (destwatcher b') = dest_flags b) \<and>
    (events (srcwatcher b) = src_flags b \<longrightarrow> srcwatcher b' = srcwatcher b) \<and>
    (events (destwatcher b) = dest_flags b \<longrightarrow> destwatcher b' = destwatcher b)"
proof -
  obtain sw w1 where r1: "rearm (srcwatcher b) (src_flags b) w = (sw, w1)"
    by (cases "rearm (srcwatcher b) (src_flags b) w")
  obtain dw w2 where r2: "rearm (destwatcher b) (dest_flags b) w1 = (dw, w2)"
    by (cases "rearm (destwatcher b) (dest_flags b) w1")
  note e1 = rearm_exact [OF r1 flags_range(1)]
  note e2 = rearm_exact [OF r2 flags_range(2)]
  from assms r1 r2 have res: "b' = b\<lparr>srcwatcher := sw, destwatcher := dw\<rparr>" "w' = w2"
    by (simp_all add: recalibrate_def)
  define A where "A = (if events (srcwatcher b) \<noteq> src_flags b
            then EvIoStop (fd (srcwatcher b)) #
                 (if src_flags b \<noteq> 0 then [EvIoStart (fd (srcwatcher b)) (src_flags b)] else [])
            else [])"
  define B where "B = (if events (destwatcher b) \<noteq> dest_flags b
            then EvIoStop (fd (destwatcher b)) #
                 (if dest_flags b \<noteq> 0 then [EvIoStart (fd (destwatcher b)) (dest_flags b)] else [])
            else [])"
  from e1 have x1: "w1 = w\<lparr>trace := trace w @ A\<rparr>" by (simp add: A_def)
  from e2 have x2: "w2 = w1\<lparr>trace := trace w1 @ B\<rparr>" by (simp add: B_def)
  from x1 x2 have "w2 = w\<lparr>trace := trace w @ A @ B\<rparr>" by simp
  with res have world: "w' = w\<lparr>trace := trace w @ A @ B\<rparr>" by simp
  from e1 e2 res have rest:
    "events (srcwatcher b) \<noteq> src_flags b \<and> src_flags b \<noteq> 0 \<longrightarrow>
       active (srcwatcher b') \<and> events (srcwatcher b') = src_flags b"
    "events (destwatcher b) \<noteq> dest_flags b \<and> dest_flags b \<noteq> 0 \<longrightarrow>
       active (destwatcher b') \<and> events (destwatcher b') = dest_flags b"
    "events (srcwatcher b) = src_flags b \<longrightarrow> srcwatcher b' = srcwatcher b"
    "events (destwatcher b) = dest_flags b \<longrightarrow> destwatcher b' = destwatcher b"
    by simp_all
  from world rest show ?thesis unfolding A_def B_def by blast
qed

lemma close_fd_trace:
  "\<exists>evs. trace (close_fd s w) = trace w @ SysClose s # evs \<and>
         (\<forall>e \<in> set evs. e = SysClose s \<or> is_stderr e)"
proof (induction s w rule: close_fd.induct)
  case (1 s w)
  obtain r w1 where tf: "take_fault (emit (SysClose s) w) = (r, w1)"
    by (cases "take_fault (emit (SysClose s) w)")
  then have t1: "trace w1 = trace w @ [SysClose s]"
    by (auto simp add: take_fault_def emit_def split: list.splits)
  show ?case
  proof (cases r)
    case None
    with tf t1 have "trace (close_fd s w) = trace w @ SysClose s # []"
      by (simp add: close_fd.simps [of s w])
    then show ?thesis by (intro exI [of _ "[]"]) simp
  next
    case (Some e)
    show ?thesis
    proof (cases "e = EINTR")
      case True
      from "1.IH" [OF tf [symmetric] Some True] obtain evs where
        "trace (close_fd s w1) = trace w1 @ SysClose s # evs"
        "\<forall>e \<in> set evs. e = SysClose s \<or> is_stderr e" by blast
      with tf Some True t1 have
        "trace (close_fd s w) = trace w @ SysClose s # (SysClose s # evs)"
        "\<forall>e \<in> set (SysClose s # evs). e = SysClose s \<or> is_stderr e"
        by (simp_all add: close_fd.simps [of s w])
      then show ?thesis by blast
    next
      case False
      with tf Some t1 have
        "trace (close_fd s w) = trace w @ SysClose s # [Stderr ''Unable to properly close fd'']"
        "\<forall>e \<in> set [Stderr ''Unable to properly close fd'']. e = SysClose s \<or> is_stderr e"
        by (simp_all add: close_fd.simps [of s w] emit_def is_stderr_def)
      then show ?thesis by blast
    qed
  qed
qed

lemma close_output_file_trace:
  "\<exists>evs. trace (close_output_file f w) = trace w @ Fclose (fname f) # evs \<and>
         (\<forall>e \<in> set evs. e = Fclose (fname f) \<or> is_stderr e)"
proof (induction f w rule: close_output_file.induct)
  case (1 f w)
  obtain r w1 where tf: "take_fault (emit (Fclose (fname f)) w) = (r, w1)"
    by (cases "take_fault (emit (Fclose (fname f)) w)")
  then have t1: "trace w1 = trace w @ [Fclose (fname f)]"
    by (auto simp add: take_fault_def emit_def split: list.splits)
  show ?case
  proof (cases r)
    case None
    with tf t1 have "trace (close_output_file f w) = trace w @ Fclose (fname f) # []"
      by (simp add: close_output_file.simps [of f w])
    then show ?thesis by (intro exI [of _ "[]"]) simp
  next
    case (Some e)
    show ?thesis
    proof (cases "e = EINTR")
      case True
      from "1.IH" [OF tf [symmetric] Some True] obtain evs where
        "trace (close_output_file f w1) = trace w1 @ Fclose (fname f) # evs"
        "\<forall>e \<in> set evs. e = Fclose (fname f) \<or> is_stderr e" by blast
      with tf Some True t1 have
        "trace (close_output_file f w) = trace w @ Fclose (fname f) # (Fclose (fname f) # evs)"
        "\<forall>e \<in> set (Fclose (fname f) # evs). e = Fclose (fname f) \<or> is_stderr e"
        by (simp_all add: close_output_file.simps [of f w])
      then show ?thesis by blast
    next
      case False
      with tf Some t1 have
        "trace (close_output_file f w) =
           trace w @ Fclose (fname f) # [Stderr ''Unable to properly close file'']"
        "\<forall>e \<in> set [Stderr ''Unable to properly close file'']. e = Fclose (fname f) \<or> is_stderr e"
        by (simp_all add: close_output_file.simps [of f w] emit_def is_stderr_def)
      then show ?thesis by blast
    qed
  qed
qed

lemma close_no_faults:
  "faults w = [] \<Longrightarrow> close_fd s w = emit (SysClose s) w"
  "faults w = [] \<Longrightarrow> close_output_file f w = emit (Fclose (fname f)) w"
  by (simp_all add: close_fd.simps [of s w] close_output_file.simps [of f w] take_fault_def emit_def)

lemma bridge_del_effect:
  assumes "bridge_del b w = (r, w')"
  shows "r = Destroyed \<and> calls_only w w' \<and>
    (\<exists>evs. trace w' = trace w @ EvIoStop (fd (srcwatcher b)) # EvIoStop (fd (destwatcher b)) # evs \<and>
       SysClose (fd (srcwatcher b)) \<in> set evs \<and> SysClose (fd (destwatcher b)) \<in> set evs \<and>
       Fclose (fname (srcFile b)) \<in> set evs \<and> Fclose (fname (destFile b)) \<in> set evs \<and>
       (\<forall>e \<in> set evs. is_stderr e \<or> e = SysClose (fd (srcwatcher b)) \<or>
          e = SysClose (fd (destwatcher b)) \<or> e = Fclose (fname (srcFile b)) \<or>
          e = Fclose (fname (destFile b)))) \<and>
    (faults w = [] \<longrightarrow>
       w' = w\<lparr>trace := trace w @
              [EvIoStop (fd (srcwatcher b)), EvIoStop (fd (destwatcher b)),
               SysClose (fd (srcwatcher b)), SysClose (fd (destwatcher b)),
               Fclose (fname (srcFile b)), Fclose (fname (destFile b))]\<rparr>)"
proof -
  let ?s = "fd (srcwatcher b)" and ?d = "fd (destwatcher b)"
  define w2 where "w2 = emit (EvIoStop ?d) (emit (EvIoStop ?s) w)"
  define w3 where "w3 = close_fd ?s w2"
  define w4 where "w4 = close_fd ?d w3"
  define w5 where "w5 = close_output_file (srcFile b) w4"
  define w6 where "w6 = close_output_file (destFile b) w5"
  from assms have res: "r = Destroyed" "w' = w6"
    by (simp_all add: bridge_del_def bridge_fini_def ev_io_stop_def w2_def w3_def w4_def w5_def
        w6_def)
  have t2: "trace w2 = trace w @ [EvIoStop ?s, EvIoStop ?d]"
    by (simp add: w2_def emit_def)
  from close_fd_trace [of ?s w2] obtain e3 where
    t3: "trace w3 = trace w2 @ SysClose ?s # e3" "\<forall>e \<in> set e3. e = SysClose ?s \<or> is_stderr e"
    unfolding w3_def by blast
  from close_fd_trace [of ?d w3] obtain e4 where
    t4: "trace w4 = trace w3 @ SysClose ?d # e4" "\<forall>e \<in> set e4. e = SysClose ?d \<or> is_stderr e"
    unfolding w4_def by blast
  from close_output_file_trace [of "srcFile b" w4] obtain e5 where
    t5: "trace w5 = trace w4 @ Fclose (fname (srcFile b)) # e5"
      "\<forall>e \<in> set e5. e = Fclose (fname (srcFile b)) \<or> is_stderr e"
    unfolding w5_def by blast
  from close_output_file_trace [of "destFile b" w5] obtain e6 where
    t6: "trace w6 = trace w5 @ Fclose (fname (destFile b)) # e6"
      "\<forall>e \<in> set e6. e = Fclose (fname (destFile b)) \<or> is_stderr e"
    unfolding w6_def by blast
  define evs where "evs = SysClose ?s # e3 @ SysClose ?d # e4 @
     Fclose (fname (srcFile b)) # e5 @ Fclose (fname (destFile b)) # e6"
  from t2 t3(1) t4(1) t5(1) t6(1) have tr: "trace w6 = trace w @ EvIoStop ?s # EvIoStop ?d # evs"
    by (simp add: evs_def)
  have mem: "SysClose ?s \<in> set evs" "SysClose ?d \<in> set evs"
    "Fclose (fname (srcFile b)) \<in> set evs" "Fclose (fname (destFile b)) \<in> set evs"
    by (simp_all add: evs_def)
  from t3(2) t4(2) t5(2) t6(2) have only: "\<forall>e \<in> set evs. is_stderr e \<or> e = SysClose ?s \<or>
          e = SysClose ?d \<or> e = Fclose (fname (srcFile b)) \<or> e = Fclose (fname (destFile b))"
    by (auto simp add: evs_def)
  have c2: "calls_only w w2" by (simp add: w2_def calls_only_def emit_def)
  have "calls_only w2 w3" "calls_only w3 w4" "calls_only w4 w5" "calls_only w5 w6"
    by (simp_all add: w3_def w4_def w5_def w6_def calls_only_close_fd calls_only_close_output_file)
  with c2 have co: "calls_only w w6" by (blast intro: calls_only_trans)
  have quiet: "faults w = [] \<longrightarrow>
       w6 = w\<lparr>trace := trace w @
              [EvIoStop ?s, EvIoStop ?d, SysClose ?s, SysClose ?d,
               Fclose (fname (srcFile b)), Fclose (fname (destFile b))]\<rparr>"
    by (simp add: w6_def w5_def w4_def w3_def w2_def close_no_faults emit_def)
  from res tr mem only co quiet show ?thesis by blast
qed

text \<open>
  Claim C7.  After the four transfer steps the interest masks are
  recomputed: the source watcher waits for reading iff the source has not
  ended and for writing iff the destination journal is not drained; the
  destination watcher waits for reading iff the destination has not ended
  and for writing iff the source journal is not drained.  A watcher whose
  mask has changed is stopped, and started again with the new mask unless
  the new mask is empty; a watcher whose mask has not changed is left
  alone; nothing else happens in the world.  When both masks are empty the
  bridge is destroyed: both watchers are stopped, both sockets and both
  journals are closed, and no other call is made; otherwise the bridge
  lives on with the recalibrated watchers.  This is how every dispatch of
  a connected bridge ends whose four steps met no error.
\<close>

theorem recalibrate_masks:
  "(recalibrate b w = (b', w') \<longrightarrow>
      (events (srcwatcher b') AND EV_READ \<noteq> 0 \<longleftrightarrow> \<not> eofFromSource b) \<and>
      (events (srcwatcher b') AND EV_WRITE \<noteq> 0 \<longleftrightarrow> \<not> destinationFlushed b) \<and>
      (events (destwatcher b') AND EV_READ \<noteq> 0 \<longleftrightarrow> \<not> eofFromDestination b) \<and>
      (events (destwatcher b') AND EV_WRITE \<noteq> 0 \<longleftrightarrow> \<not> sourceFlushed b) \<and>
      (events (srcwatcher b) AND (EV_READ OR EV_WRITE) \<noteq> 0 \<and>
       events (srcwatcher b') AND (EV_READ OR EV_WRITE) = 0 \<longrightarrow>
         \<not> active (srcwatcher b') \<and> EvIoStop (fd (srcwatcher b)) \<in> set (new_events w w')) \<and>
      (events (destwatcher b) AND (EV_READ OR EV_WRITE) \<noteq> 0 \<and>
       events (destwatcher b') AND (EV_READ OR EV_WRITE) = 0 \<longrightarrow>
         \<not> active (destwatcher b') \<and> EvIoStop (fd (destwatcher b)) \<in> set (new_events w w')) \<and>
      finish b w =
        (if events (srcwatcher b') AND (EV_READ OR EV_WRITE) = 0 \<and>
            events (destwatcher b') AND (EV_READ OR EV_WRITE) = 0
         then bridge_del b' w' else (Running b', w')) \<and>
      events (srcwatcher b') AND (EV_READ OR EV_WRITE) = src_flags b \<and>
      events (destwatcher b') AND (EV_READ OR EV_WRITE) = dest_flags b \<and>
      (events (srcwatcher b) \<noteq> src_flags b \<and> src_flags b \<noteq> 0 \<longrightarrow>
         active (srcwatcher b') \<and> events (srcwatcher b') = src_flags b) \<and>
      (events (destwatcher b) \<noteq> dest_flags b \<and> dest_flags b \<noteq> 0 \<longrightarrow>
         active (destwatcher b') \<and> events (destwatcher b') = dest_flags b) \<and>
      (events (srcwatcher b) = src_flags b \<longrightarrow> srcwatcher b' = srcwatcher b) \<and>
      (events (destwatcher b) = dest_flags b \<longrightarrow> destwatcher b' = destwatcher b) \<and>
      fd (srcwatcher b') = fd (srcwatcher b) \<and> fd (destwatcher b') = fd (destwatcher b) \<and>
      b' = b\<lparr>srcwatcher := srcwatcher b', destwatcher := destwatcher b'\<rparr> \<and>
      w' = w\<lparr>trace := trace w @
             (if events (srcwatcher b) \<noteq> src_flags b
              then EvIoStop (fd (srcwatcher b)) #
                   (if src_flags b \<noteq> 0 then [EvIoStart (fd (srcwatcher b)) (src_flags b)] else [])
              else []) @
             (if events (destwatcher b) \<noteq> dest_flags b
              then EvIoStop (fd (destwatcher b)) #
                   (if dest_flags b \<noteq> 0 then [EvIoStart (fd (destwatcher b)) (dest_flags b)] else [])
              else [])\<rparr>) \<and>
   (fst (finish b w) = Destroyed \<longleftrightarrow>
      eofFromSource b \<and> destinationFlushed b \<and> eofFromDestination b \<and> sourceFlushed b) \<and>
   (four_steps b0 w0 = (False, b, w) \<longrightarrow> transfer b0 w0 = finish b w) \<and>
   (bridge_del b w = (r, w') \<longrightarrow>
      r = Destroyed \<and> calls_only w w' \<and>
      (\<exists>evs. trace w' =
                trace w @ EvIoStop (fd (srcwatcher b)) # EvIoStop (fd (destwatcher b)) # evs \<and>
             SysClose (fd (srcwatcher b)) \<in> set evs \<and> SysClose (fd (destwatcher b)) \<in> set evs \<and>
             Fclose (fname (srcFile b)) \<in> set evs \<and> Fclose (fname (destFile b)) \<in> set evs \<and>
             list_all (\<lambda>e. is_stderr e \<or> e = SysClose (fd (srcwatcher b)) \<or>
                         e = SysClose (fd (destwatcher b)) \<or> e = Fclose (fname (srcFile b)) \<or>
                         e = Fclose (fname (destFile b))) evs) \<and>
      (faults w = [] \<longrightarrow>
         w' = w\<lparr>trace := trace w @
                [EvIoStop (fd (srcwatcher b)), EvIoStop (fd (destwatcher b)),
                 SysClose (fd (srcwatcher b)), SysClose (fd (destwatcher b)),
                 Fclose (fname (srcFile b)), Fclose (fname (destFile b))]\<rparr>)) \<and>
   (connectedToDestination b0 \<and> flags AND EV_ERROR = 0 \<and>
    flags AND (EV_READ OR EV_WRITE) \<noteq> 0 \<and> four_steps b0 w0 = (False, b, w) \<longrightarrow>
      bridge_cb on_dest flags b0 w0 = Returned (finish b w))"
proof (intro conjI impI)
  assume r: "recalibrate b w = (b', w')"
  note e = recalibrate_effect [OF r]
  note x = recalibrate_exact [OF r]
  from e show ms: "events (srcwatcher b') AND (EV_READ OR EV_WRITE) = src_flags b"
    and md: "events (destwatcher b') AND (EV_READ OR EV_WRITE) = dest_flags b" by simp_all
  from mask_bits [OF ms] flags_bits(1,2) [of b]
  show "events (srcwatcher b') AND EV_READ \<noteq> 0 \<longleftrightarrow> \<not> eofFromSource b"
    "events (srcwatcher b') AND EV_WRITE \<noteq> 0 \<longleftrightarrow> \<not> destinationFlushed b" by simp_all
  from mask_bits [OF md] flags_bits(3,4) [of b]
  show "events (destwatcher b') AND EV_READ \<noteq> 0 \<longleftrightarrow> \<not> eofFromDestination b"
    "events (destwatcher b') AND EV_WRITE \<noteq> 0 \<longleftrightarrow> \<not> sourceFlushed b" by simp_all
  show "finish b w =
        (if events (srcwatcher b') AND (EV_READ OR EV_WRITE) = 0 \<and>
            events (destwatcher b') AND (EV_READ OR EV_WRITE) = 0
         then bridge_del b' w' else (Running b', w'))"
    using r by (simp add: finish_def)
  from e show "fd (srcwatcher b') = fd (srcwatcher b)" "fd (destwatcher b') = fd (destwatcher b)"
    "b' = b\<lparr>srcwatcher := srcwatcher b', destwatcher := destwatcher b'\<rparr>" by simp_all
  from x show "events (srcwatcher b) = src_flags b \<Longrightarrow> srcwatcher b' = srcwatcher b"
    "events (destwatcher b) = dest_flags b \<Longrightarrow> destwatcher b' = destwatcher b"
    by simp_all
  from x show "w' = w\<lparr>trace := trace w @
             (if events (srcwatcher b) \<noteq> src_flags b
              then EvIoStop (fd (srcwatcher b)) #
                   (if src_flags b \<noteq> 0 then [EvIoStart (fd (srcwatcher b)) (src_flags b)] else [])
              else []) @
             (if events (destwatcher b) \<noteq> dest_flags b
              then EvIoStop (fd (destwatcher b)) #
                   (if dest_flags b \<noteq> 0 then [EvIoStart (fd (destwatcher b)) (dest_flags b)] else [])
              else [])\<rparr>" by (rule conjunct1)
next
  assume r: "recalibrate b w = (b', w')"
    and c: "events (srcwatcher b) \<noteq> src_flags b \<and> src_flags b \<noteq> 0"
  from recalibrate_exact [OF r] c
  show "active (srcwatcher b')" "events (srcwatcher b') = src_flags b" by simp_all
next
  assume r: "recalibrate b w = (b', w')"
    and c: "events (destwatcher b) \<noteq> dest_flags b \<and> dest_flags b \<noteq> 0"
  from recalibrate_exact [OF r] c
  show "active (destwatcher b')" "events (destwatcher b') = dest_flags b" by simp_all
next
  assume r: "recalibrate b w = (b', w')"
    and c: "events (srcwatcher b) AND (EV_READ OR EV_WRITE) \<noteq> 0 \<and>
       events (srcwatcher b') AND (EV_READ OR EV_WRITE) = 0"
  note e = recalibrate_effect [OF r]
  from e c have z: "src_flags b = 0" by simp
  with c have "events (srcwatcher b) \<noteq> src_flags b" by auto
  with e z show "\<not> active (srcwatcher b')" "EvIoStop (fd (srcwatcher b)) \<in> set (new_events w w')"
    by simp_all
next
  assume r: "recalibrate b w = (b', w')"
    and c: "events (destwatcher b) AND (EV_READ OR EV_WRITE) \<noteq> 0 \<and>
       events (destwatcher b') AND (EV_READ OR EV_WRITE) = 0"
  note e = recalibrate_effect [OF r]
  from e c have z: "dest_flags b = 0" by simp
  with c have "events (destwatcher b) \<noteq> dest_flags b" by auto
  with e z show "\<not> active (destwatcher b')" "EvIoStop (fd (destwatcher b)) \<in> set (new_events w w')"
    by simp_all
next
  obtain b' w' where r: "recalibrate b w = (b', w')" by (cases "recalibrate b w")
  note e = recalibrate_effect [OF r]
  from e flags_bits(5,6) [of b] r
  show "fst (finish b w) = Destroyed \<longleftrightarrow>
      eofFromSource b \<and> destinationFlushed b \<and> eofFromDestination b \<and> sourceFlushed b"
    by (auto simp add: finish_def bridge_del_def)
next
  assume "four_steps b0 w0 = (False, b, w)"
  then show "transfer b0 w0 = finish b w" by (simp add: transfer_def)
next
  assume d: "bridge_del b w = (r, w')"
  note e = bridge_del_effect [OF d]
  from e show "r = Destroyed" "calls_only w w'" by simp_all
  from e show "\<exists>evs. trace w' =
                trace w @ EvIoStop (fd (srcwatcher b)) # EvIoStop (fd (destwatcher b)) # evs \<and>
             SysClose (fd (srcwatcher b)) \<in> set evs \<and> SysClose (fd (destwatcher b)) \<in> set evs \<and>
             Fclose (fname (srcFile b)) \<in> set evs \<and> Fclose (fname (destFile b)) \<in> set evs \<and>
             list_all (\<lambda>e. is_stderr e \<or> e = SysClose (fd (srcwatcher b)) \<or>
                         e = SysClose (fd (destwatcher b)) \<or> e = Fclose (fname (srcFile b)) \<or>
                         e = Fclose (fname (destFile b))) evs"
    by (simp add: list_all_iff)
  assume "faults w = []"
  with e show "w' = w\<lparr>trace := trace w @
                [EvIoStop (fd (srcwatcher b)), EvIoStop (fd (destwatcher b)),
                 SysClose (fd (srcwatcher b)), SysClose (fd (destwatcher b)),
                 Fclose (fname (srcFile b)), Fclose (fname (destFile b))]\<rparr>" by simp
next
  assume "connectedToDestination b0 \<and> flags AND EV_ERROR = 0 \<and>
    flags AND (EV_READ OR EV_WRITE) \<noteq> 0 \<and> four_steps b0 w0 = (False, b, w)"
  then show "bridge_cb on_dest flags b0 w0 = Returned (finish b w)"
    by (simp add: bridge_cb_def transfer_def)
qed

subsection \<open>Replay cursors stay within their journals\<close>

lemma grow_at: "length (fs w name) \<le> length (((fs w)(k := fs w k @ data)) name)"
  by simp

lemma four_steps_cursors:
  assumes run: "four_steps b w = (err, b4, w4)" and inv: "cursors_in_range b w"
  shows "cursors_in_range b4 w4"
proof -
  obtain e1 c1 b1 w1 where s1: "read_source b w = (e1, c1, b1, w1)"
    by (cases "read_source b w") auto
  note f1 = read_source_effect [OF s1]
  from f1 obtain d1 where d1: "fs w1 = (fs w)(fname (srcFile b) := fs w (fname (srcFile b)) @ d1)"
    by blast
  from inv f1 have i1: "cursors_in_range b1 w1"
    unfolding cursors_in_range_def d1
    by (metis (no_types, lifting) grow_at le_trans)
  show ?thesis
  proof (cases e1)
    case True
    with run s1 i1 show ?thesis by (simp add: four_steps_def)
  next
    case n1: False
    obtain e2 b2 w2 where s2: "bridge_source c1 b1 w1 = (e2, b2, w2)"
      by (cases "bridge_source c1 b1 w1") auto
    note f2 = bridge_source_effect [OF s2]
    from i1 f2 have i2: "cursors_in_range b2 w2"
      by (simp add: cursors_in_range_def)
    show ?thesis
    proof (cases e2)
      case True
      with run s1 n1 s2 i2 show ?thesis by (simp add: four_steps_def)
    next
      case n2: False
      obtain e3 c3 b3 w3 where s3: "read_destination b2 w2 = (e3, c3, b3, w3)"
        by (cases "read_destination b2 w2") auto
      note f3 = read_destination_effect [OF s3]
      from f3 obtain d3 where
        d3: "fs w3 = (fs w2)(fname (destFile b2) := fs w2 (fname (destFile b2)) @ d3)"
        by blast
      from i2 f3 have i3: "cursors_in_range b3 w3"
        unfolding cursors_in_range_def d3
        by (metis (no_types, lifting) grow_at le_trans)
      show ?thesis
      proof (cases e3)
        case True
        with run s1 n1 s2 n2 s3 i3 show ?thesis by (simp add: four_steps_def)
      next
        case n3: False
        with run s1 n1 s2 n2 s3 have s4: "bridge_destination c3 b3 w3 = (err, b4, w4)"
          by (simp add: four_steps_def)
        note f4 = bridge_destination_effect [OF s4]
        from i3 f4 show ?thesis by (simp add: cursors_in_range_def)
      qed
    qed
  qed
qed

lemma finish_cursors:
  assumes "finish b w = (Running b', w')" and "cursors_in_range b w"
  shows "cursors_in_range b' w'"
proof -
  obtain b5 w5 where r: "recalibrate b w = (b5, w5)" by (cases "recalibrate b w")
  note e = recalibrate_effect [OF r]
  from assms(1) r have "b' = b5" "w' = w5"
    by (auto simp add: finish_def bridge_del_def split: if_splits)
  with recalibrate_fields [OF r] have "srcPos b' = srcPos b" "destPos b' = destPos b"
    "srcFile b' = srcFile b" "destFile b' = destFile b" "fs w' = fs w"
    by simp_all
  with assms(2) show ?thesis by (simp add: cursors_in_range_def)
qed

lemma complete_connection_cursors:
  assumes "complete_connection b w = (Running b', w')" and "cursors_in_range b w"
  shows "cursors_in_range b' w'"
proof -
  from assms(1) have "srcPos b' = srcPos b \<and> destPos b' = destPos b \<and>
    srcFile b' = srcFile b \<and> destFile b' = destFile b \<and> fs w' = fs w"
    by (auto simp add: complete_connection_def sys_getsockopt_error_def take_fault_def
        bridge_del_def ev_io_stop_def ev_io_start_def ev_io_set_def emit_def Let_def
        split: list.splits option.splits if_splits)
  with assms(2) show ?thesis by (simp add: cursors_in_range_def)
qed

lemma bridge_cb_cursors:
  assumes "bridge_cb on_dest flags b w = Returned (Running b', w')" and "cursors_in_range b w"
  shows "cursors_in_range b' w'"
proof -
  from assms(1) have
    "complete_connection b w = (Running b', w') \<or> transfer b w = (Running b', w')"
    by (auto simp add: bridge_cb_def bridge_del_def split: if_splits)
  then show ?thesis
  proof
    assume "complete_connection b w = (Running b', w')"
    from complete_connection_cursors [OF this assms(2)] show ?thesis .
  next
    assume t: "transfer b w = (Running b', w')"
    obtain err b4 w4 where fsteps: "four_steps b w = (err, b4, w4)"
      by (cases "four_steps b w") auto
    with t have "finish b4 w4 = (Running b', w')"
      by (cases err) (simp_all add: transfer_def bridge_del_def)
    from finish_cursors [OF this four_steps_cursors [OF fsteps assms(2)]] show ?thesis .
  qed
qed

text \<open>
  Claim C8.  At every dispatch boundary of every bridge, each journal's
  replay cursor is at most the journal's length.  Opening a journal sets
  the cursor to the end of the file; the steps that append to a journal
  leave both cursors as they are and never shorten a file; and replay
  leaves the files as they are and moves the cursor forward, never beyond
  the end of the journal it reads.
\<close>

theorem replay_cursor_in_range:
  "(reachable b w \<longrightarrow> cursors_in_range b w) \<and>
   (open_output_file n a w = (Returned (Some (f, pos)), w') \<longrightarrow>
      fs w' = fs w \<and> pos = length (fs w' (fname f))) \<and>
   (read_source b w = (err, count, b', w') \<longrightarrow>
      srcPos b' = srcPos b \<and> destPos b' = destPos b \<and> files_grow w w') \<and>
   (read_destination b w = (err, count, b', w') \<longrightarrow>
      srcPos b' = srcPos b \<and> destPos b' = destPos b \<and> files_grow w w') \<and>
   (write_from_file s f pos w = (rc, f', pos', w') \<longrightarrow>
      fs w' = fs w \<and> pos \<le> pos' \<and>
      (pos \<le> length (fs w (fname f)) \<longrightarrow> pos' \<le> length (fs w (fname f))))"
proof (intro conjI impI)
  assume "reachable b w"
  then show "cursors_in_range b w"
  proof (induction rule: reachable.induct)
    case (created srcfd srcaddrlen srcaddr destaddr w b w')
    from bridge_init_result [OF created] show ?case by (simp add: cursors_in_range_def)
  next
    case (dispatched b w on_dest flags b' w')
    from bridge_cb_cursors [OF dispatched(2) dispatched(3)] show ?case .
  next
    case (outside b w w')
    then show ?case
      by (auto simp add: cursors_in_range_def files_grow_def intro: le_trans)
  qed
next
  assume "open_output_file n a w = (Returned (Some (f, pos)), w')"
  from open_output_file_result [OF this]
  show "fs w' = fs w" "pos = length (fs w' (fname f))" by (simp_all add: calls_only_def)
next
  assume r: "read_source b w = (err, count, b', w')"
  from read_source_effect [OF r] show "srcPos b' = srcPos b" "destPos b' = destPos b"
    by simp_all
  from read_source_effect [OF r] obtain data where
    "fs w' = (fs w)(fname (srcFile b) := fs w (fname (srcFile b)) @ data)" by blast
  then show "files_grow w w'" by (simp add: files_grow_def)
next
  assume r: "read_destination b w = (err, count, b', w')"
  from read_destination_effect [OF r] show "srcPos b' = srcPos b" "destPos b' = destPos b"
    by simp_all
  from read_destination_effect [OF r] obtain data where
    "fs w' = (fs w)(fname (destFile b) := fs w (fname (destFile b)) @ data)" by blast
  then show "files_grow w w'" by (simp add: files_grow_def)
next
  assume r: "write_from_file s f pos w = (rc, f', pos', w')"
  from write_from_file_effect [OF r]
  show "fs w' = fs w" "pos \<le> pos'" by simp_all
  assume "pos \<le> length (fs w (fname f))"
  with write_from_file_effect [OF r] show "pos' \<le> length (fs w (fname f))" by simp
qed

subsection \<open>The invariants at work\<close>

lemmas example_defs = quiet_world_def fresh_bridge_def upstream_def client_addr_def created_world_def
  data_world_def data_world_after_def partly_sent_def half_closed_def source_ended_def both_ended_def
  eof_world_def reset_world_def reply_world_def hello_def farewell_world_def farewell_read_def
  farewell_read_world_def farewell_sent_def farewell_sent_world_def dest_eof_world_def dest_ended_def

theorem recalibrate_masks_witness:
  "recalibrate source_ended quiet_world = (half_closed, quiet_world\<lparr>trace := [EvIoStop 5]\<rparr>) \<and>
   eofFromSource source_ended \<and> events (srcwatcher half_closed) AND EV_READ = 0 \<and>
   destinationFlushed source_ended \<and> events (srcwatcher half_closed) AND EV_WRITE = 0 \<and>
   \<not> eofFromDestination source_ended \<and> events (destwatcher half_closed) AND EV_READ \<noteq> 0 \<and>
   sourceFlushed source_ended \<and> events (destwatcher half_closed) AND EV_WRITE = 0 \<and>
   events (srcwatcher source_ended) AND (EV_READ OR EV_WRITE) \<noteq> 0 \<and>
   events (srcwatcher half_closed) AND (EV_READ OR EV_WRITE) = 0 \<and>
   \<not> active (srcwatcher half_closed) \<and>
   EvIoStop 5 \<in> set (new_events quiet_world (quiet_world\<lparr>trace := [EvIoStop 5]\<rparr>)) \<and>
   events (destwatcher source_ended) = dest_flags source_ended \<and>
   destwatcher half_closed = destwatcher source_ended \<and>
   finish source_ended quiet_world = (Running half_closed, quiet_world\<lparr>trace := [EvIoStop 5]\<rparr>) \<and>
   recalibrate both_ended quiet_world =
     (both_ended\<lparr>srcwatcher := \<lparr>fd = 5, events = 0x80, active = False\<rparr>,
                 destwatcher := \<lparr>fd = 7, events = 0x80, active = False\<rparr>\<rparr>,
      quiet_world\<lparr>trace := [EvIoStop 5, EvIoStop 7]\<rparr>) \<and>
   events (destwatcher both_ended) AND (EV_READ OR EV_WRITE) \<noteq> 0 \<and>
   EvIoStop 7 \<in> set (new_events quiet_world (quiet_world\<lparr>trace := [EvIoStop 5, EvIoStop 7]\<rparr>)) \<and>
   fst (finish both_ended quiet_world) = Destroyed \<and>
   finish both_ended quiet_world =
     (Destroyed,
      quiet_world\<lparr>trace := [EvIoStop 5, EvIoStop 7, EvIoStop 5, EvIoStop 7, SysClose 5, SysClose 7,
                            Fclose ''192.0.2.7:54321'', Fclose ''10.0.0.1:40000'']\<rparr>) \<and>
   four_steps fresh_bridge eof_world =
     (False, source_ended, quiet_world\<lparr>trace := [SysShutdown 5 SHUT_RD, SysShutdown 7 SHUT_WR]\<rparr>) \<and>
   transfer fresh_bridge eof_world =
     finish source_ended (quiet_world\<lparr>trace := [SysShutdown 5 SHUT_RD, SysShutdown 7 SHUT_WR]\<rparr>) \<and>
   four_steps fresh_bridge data_world =
     (False, partly_sent\<lparr>destwatcher := destwatcher fresh_bridge\<rparr>, data_world_after\<lparr>trace := []\<rparr>) \<and>
   recalibrate (partly_sent\<lparr>destwatcher := destwatcher fresh_bridge\<rparr>) (data_world_after\<lparr>trace := []\<rparr>) =
     (partly_sent, data_world_after) \<and>
   events (destwatcher fresh_bridge) \<noteq> dest_flags (partly_sent\<lparr>destwatcher := destwatcher fresh_bridge\<rparr>) \<and>
   dest_flags (partly_sent\<lparr>destwatcher := destwatcher fresh_bridge\<rparr>) = 3 \<and>
   active (destwatcher partly_sent) \<and> events (destwatcher partly_sent) = 3 \<and>
   srcwatcher partly_sent = srcwatcher fresh_bridge \<and>
   trace data_world_after = [EvIoStop 7, EvIoStart 7 3] \<and>
   transfer fresh_bridge data_world = (Running partly_sent, data_world_after) \<and>
   recalibrate (fresh_bridge\<lparr>destinationFlushed := False\<rparr>) quiet_world =
     (fresh_bridge\<lparr>srcwatcher := \<lparr>fd = 5, events = 3, active = True\<rparr>, destinationFlushed := False\<rparr>,
      quiet_world\<lparr>trace := [EvIoStop 5, EvIoStart 5 3]\<rparr>) \<and>
   events (srcwatcher (fresh_bridge\<lparr>destinationFlushed := False\<rparr>)) \<noteq>
     src_flags (fresh_bridge\<lparr>destinationFlushed := False\<rparr>) \<and>
   src_flags (fresh_bridge\<lparr>destinationFlushed := False\<rparr>) = 3 \<and>
   active (srcwatcher (fresh_bridge\<lparr>srcwatcher := \<lparr>fd = 5, events = 3, active = True\<rparr>,
                                   destinationFlushed := False\<rparr>)) \<and>
   bridge_del both_ended (quiet_world\<lparr>faults := [Some EINTR, Some EIO]\<rparr>) =
     (Destroyed,
      quiet_world\<lparr>trace := [EvIoStop 5, EvIoStop 7, SysClose 5, SysClose 5,
                            Stderr ''Unable to properly close fd'', SysClose 7,
                            Fclose ''192.0.2.7:54321'', Fclose ''10.0.0.1:40000'']\<rparr>) \<and>
   calls_only (quiet_world\<lparr>faults := [Some EINTR, Some EIO]\<rparr>)
     (quiet_world\<lparr>trace := [EvIoStop 5, EvIoStop 7, SysClose 5, SysClose 5,
                            Stderr ''Unable to properly close fd'', SysClose 7,
                            Fclose ''192.0.2.7:54321'', Fclose ''10.0.0.1:40000'']\<rparr>) \<and>
   faults quiet_world = [] \<and>
   bridge_del both_ended quiet_world =
     (Destroyed,
      quiet_world\<lparr>trace := [EvIoStop 5, EvIoStop 7, SysClose 5, SysClose 7,
                            Fclose ''192.0.2.7:54321'', Fclose ''10.0.0.1:40000'']\<rparr>) \<and>
   connectedToDestination fresh_bridge \<and> EV_READ AND EV_ERROR = 0 \<and>
   EV_READ AND (EV_READ OR EV_WRITE) \<noteq> 0 \<and>
   bridge_cb False EV_READ fresh_bridge data_world = Returned (Running partly_sent, data_world_after)"
proof -
  note run = cb_defs run_defs ev_defs example_defs const_upd
  have r1: "recalibrate source_ended quiet_world = (half_closed, quiet_world\<lparr>trace := [EvIoStop 5]\<rparr>)"
    by (simp add: run)
  have r2: "recalibrate both_ended quiet_world =
     (both_ended\<lparr>srcwatcher := \<lparr>fd = 5, events = 0x80, active = False\<rparr>,
                 destwatcher := \<lparr>fd = 7, events = 0x80, active = False\<rparr>\<rparr>,
      quiet_world\<lparr>trace := [EvIoStop 5, EvIoStop 7]\<rparr>)"
    by (simp add: run)
  have r3: "four_steps fresh_bridge eof_world =
     (False, source_ended, quiet_world\<lparr>trace := [SysShutdown 5 SHUT_RD, SysShutdown 7 SHUT_WR]\<rparr>)"
    by (simp add: run)
  have r4: "four_steps fresh_bridge data_world =
     (False, partly_sent\<lparr>destwatcher := destwatcher fresh_bridge\<rparr>, data_world_after\<lparr>trace := []\<rparr>)"
    by (simp add: run)
  have r5: "recalibrate (partly_sent\<lparr>destwatcher := destwatcher fresh_bridge\<rparr>)
      (data_world_after\<lparr>trace := []\<rparr>) = (partly_sent, data_world_after)"
    by (simp add: run)
  have r6: "recalibrate (fresh_bridge\<lparr>destinationFlushed := False\<rparr>) quiet_world =
     (fresh_bridge\<lparr>srcwatcher := \<lparr>fd = 5, events = 3, active = True\<rparr>, destinationFlushed := False\<rparr>,
      quiet_world\<lparr>trace := [EvIoStop 5, EvIoStart 5 3]\<rparr>)"
    by (simp add: run)
  have r7: "bridge_del both_ended (quiet_world\<lparr>faults := [Some EINTR, Some EIO]\<rparr>) =
     (Destroyed,
      quiet_world\<lparr>trace := [EvIoStop 5, EvIoStop 7, SysClose 5, SysClose 5,
                            Stderr ''Unable to properly close fd'', SysClose 7,
                            Fclose ''192.0.2.7:54321'', Fclose ''10.0.0.1:40000'']\<rparr>)"
    by (simp add: run)
  have flags: "eofFromSource source_ended" "destinationFlushed source_ended"
    "\<not> eofFromDestination source_ended" "sourceFlushed source_ended"
    "events (srcwatcher source_ended) AND (EV_READ OR EV_WRITE) \<noteq> 0"
    "events (srcwatcher half_closed) AND (EV_READ OR EV_WRITE) = 0"
    "events (destwatcher both_ended) AND (EV_READ OR EV_WRITE) \<noteq> 0"
    "eofFromSource both_ended" "destinationFlushed both_ended"
    "eofFromDestination both_ended" "sourceFlushed both_ended"
    "events (destwatcher source_ended) = dest_flags source_ended"
    "events (destwatcher fresh_bridge) \<noteq> dest_flags (partly_sent\<lparr>destwatcher := destwatcher fresh_bridge\<rparr>)"
    "dest_flags (partly_sent\<lparr>destwatcher := destwatcher fresh_bridge\<rparr>) = 3"
    "events (srcwatcher fresh_bridge) = src_flags (partly_sent\<lparr>destwatcher := destwatcher fresh_bridge\<rparr>)"
    "events (srcwatcher (fresh_bridge\<lparr>destinationFlushed := False\<rparr>)) \<noteq>
       src_flags (fresh_bridge\<lparr>destinationFlushed := False\<rparr>)"
    "src_flags (fresh_bridge\<lparr>destinationFlushed := False\<rparr>) = 3"
    "faults quiet_world = []"
    by (simp_all add: ev_defs example_defs src_flags_def dest_flags_def)
  note first = recalibrate_masks [THEN conjunct1, rule_format]
  note second = recalibrate_masks [THEN conjunct2, THEN conjunct1]
  note third = recalibrate_masks [THEN conjunct2, THEN conjunct2, THEN conjunct1, rule_format]
  note fourth = recalibrate_masks
    [THEN conjunct2, THEN conjunct2, THEN conjunct2, THEN conjunct1, rule_format]
  note fifth = recalibrate_masks
    [THEN conjunct2, THEN conjunct2, THEN conjunct2, THEN conjunct2, THEN mp]
  note bit_sr = first [THEN conjunct1]
  note bit_sw = first [THEN conjunct2, THEN conjunct1]
  note bit_dr = first [THEN conjunct2, THEN conjunct2, THEN conjunct1]
  note bit_dw = first [THEN conjunct2, THEN conjunct2, THEN conjunct2, THEN conjunct1]
  note stop_s = first
    [THEN conjunct2, THEN conjunct2, THEN conjunct2, THEN conjunct2, THEN conjunct1,
     rule_format]
  note stop_d = first
    [THEN conjunct2, THEN conjunct2, THEN conjunct2, THEN conjunct2, THEN conjunct2,
     THEN conjunct1, rule_format]
  note fin_eq = first
    [THEN conjunct2, THEN conjunct2, THEN conjunct2, THEN conjunct2, THEN conjunct2,
     THEN conjunct2, THEN conjunct1]
  note start_s = first
    [THEN conjunct2, THEN conjunct2, THEN conjunct2, THEN conjunct2, THEN conjunct2,
     THEN conjunct2, THEN conjunct2, THEN conjunct2, THEN conjunct2, THEN conjunct1,
     rule_format]
  note start_d = first
    [THEN conjunct2, THEN conjunct2, THEN conjunct2, THEN conjunct2, THEN conjunct2,
     THEN conjunct2, THEN conjunct2, THEN conjunct2, THEN conjunct2, THEN conjunct2,
     THEN conjunct1, rule_format]
  note same_s = first
    [THEN conjunct2, THEN conjunct2, THEN conjunct2, THEN conjunct2, THEN conjunct2,
     THEN conjunct2, THEN conjunct2, THEN conjunct2, THEN conjunct2, THEN conjunct2,
     THEN conjunct2, THEN conjunct1, rule_format]
  note same_d = first
    [THEN conjunct2, THEN conjunct2, THEN conjunct2, THEN conjunct2, THEN conjunct2,
     THEN conjunct2, THEN conjunct2, THEN conjunct2, THEN conjunct2, THEN conjunct2,
     THEN conjunct2, THEN conjunct2, THEN conjunct1, rule_format]
  note world_eq = first
    [THEN conjunct2, THEN conjunct2, THEN conjunct2, THEN conjunct2, THEN conjunct2,
     THEN conjunct2, THEN conjunct2, THEN conjunct2, THEN conjunct2, THEN conjunct2,
     THEN conjunct2, THEN conjunct2, THEN conjunct2, THEN conjunct2, THEN conjunct2,
     THEN conjunct2]
  have fds: "fd (srcwatcher source_ended) = 5" "fd (destwatcher both_ended) = 7"
    "fd (srcwatcher both_ended) = 5"
    "fname (srcFile both_ended) = ''192.0.2.7:54321''" "fname (destFile both_ended) = ''10.0.0.1:40000''"
    by (simp_all add: example_defs)
  have new5: "EvIoStop 5 \<in> set (new_events quiet_world (quiet_world\<lparr>trace := [EvIoStop 5]\<rparr>))"
    and off5: "\<not> active (srcwatcher half_closed)"
    using stop_s [OF r1 conjI [OF flags(5) flags(6)]] fds by simp_all
  have zero7: "events (destwatcher (both_ended\<lparr>srcwatcher := \<lparr>fd = 5, events = 0x80, active = False\<rparr>,
                 destwatcher := \<lparr>fd = 7, events = 0x80, active = False\<rparr>\<rparr>)) AND (EV_READ OR EV_WRITE) = 0"
    by (simp add: ev_defs example_defs)
  have new7: "EvIoStop 7 \<in> set (new_events quiet_world (quiet_world\<lparr>trace := [EvIoStop 5, EvIoStop 7]\<rparr>))"
    using stop_d [OF r2 conjI [OF flags(7) zero7]] fds by simp
  have bits: "events (srcwatcher half_closed) AND EV_READ = 0"
    "events (srcwatcher half_closed) AND EV_WRITE = 0"
    "events (destwatcher half_closed) AND EV_READ \<noteq> 0"
    "events (destwatcher half_closed) AND EV_WRITE = 0"
    using bit_sr [OF r1] bit_sw [OF r1] bit_dr [OF r1] bit_dw [OF r1] flags by simp_all
  have same: "destwatcher half_closed = destwatcher source_ended"
    by (rule same_d [OF r1 flags(12)])
  have live: "events (destwatcher half_closed) AND (EV_READ OR EV_WRITE) \<noteq> 0"
    by (simp add: ev_defs example_defs)
  have fin: "finish source_ended quiet_world = (Running half_closed, quiet_world\<lparr>trace := [EvIoStop 5]\<rparr>)"
    using fin_eq [OF r1] live by simp
  have des: "fst (finish both_ended quiet_world) = Destroyed"
    using second [of both_ended quiet_world] flags by blast
  have tr: "transfer fresh_bridge eof_world =
     finish source_ended (quiet_world\<lparr>trace := [SysShutdown 5 SHUT_RD, SysShutdown 7 SHUT_WR]\<rparr>)"
    by (rule third [OF r3])
  have dw: "destwatcher (partly_sent\<lparr>destwatcher := destwatcher fresh_bridge\<rparr>) = destwatcher fresh_bridge"
    "srcwatcher (partly_sent\<lparr>destwatcher := destwatcher fresh_bridge\<rparr>) = srcwatcher fresh_bridge"
    "fd (destwatcher fresh_bridge) = 7" "fd (srcwatcher fresh_bridge) = 5"
    "trace (data_world_after\<lparr>trace := []\<rparr>) = []"
    by (simp_all add: example_defs)
  have started: "active (destwatcher partly_sent)" "events (destwatcher partly_sent) = 3"
    using start_d [OF r5] flags dw by simp_all
  have kept: "srcwatcher partly_sent = srcwatcher fresh_bridge"
    using same_s [OF r5] flags dw by simp
  have calls: "trace data_world_after = [EvIoStop 7, EvIoStart 7 3]"
  proof -
    from world_eq [OF r5] have "trace data_world_after =
      trace (data_world_after\<lparr>trace := []\<rparr>\<lparr>trace := trace (data_world_after\<lparr>trace := []\<rparr>) @
             (if events (srcwatcher (partly_sent\<lparr>destwatcher := destwatcher fresh_bridge\<rparr>)) \<noteq>
                 src_flags (partly_sent\<lparr>destwatcher := destwatcher fresh_bridge\<rparr>)
              then EvIoStop (fd (srcwatcher (partly_sent\<lparr>destwatcher := destwatcher fresh_bridge\<rparr>))) #
                   (if src_flags (partly_sent\<lparr>destwatcher := destwatcher fresh_bridge\<rparr>) \<noteq> 0
                    then [EvIoStart (fd (srcwatcher (partly_sent\<lparr>destwatcher := destwatcher fresh_bridge\<rparr>)))
                            (src_flags (partly_sent\<lparr>destwatcher := destwatcher fresh_bridge\<rparr>))]
                    else [])
              else []) @
             (if events (destwatcher (partly_sent\<lparr>destwatcher := destwatcher fresh_bridge\<rparr>)) \<noteq>
                 dest_flags (partly_sent\<lparr>destwatcher := destwatcher fresh_bridge\<rparr>)
              then EvIoStop (fd (destwatcher (partly_sent\<lparr>destwatcher := destwatcher fresh_bridge\<rparr>))) #
                   (if dest_flags (partly_sent\<lparr>destwatcher := destwatcher fresh_bridge\<rparr>) \<noteq> 0
                    then [EvIoStart (fd (destwatcher (partly_sent\<lparr>destwatcher := destwatcher fresh_bridge\<rparr>)))
                            (dest_flags (partly_sent\<lparr>destwatcher := destwatcher fresh_bridge\<rparr>))]
                    else [])
              else [])\<rparr>)" by simp
    also have "\<dots> = [EvIoStop 7, EvIoStart 7 3]"
      using flags(13,14,15) dw by simp
    finally show ?thesis .
  qed
  have started_s: "active (srcwatcher (fresh_bridge\<lparr>srcwatcher := \<lparr>fd = 5, events = 3, active = True\<rparr>,
                                   destinationFlushed := False\<rparr>))"
    using start_s [OF r6 conjI [OF flags(16)]] flags(17) by simp
  have live2: "events (destwatcher partly_sent) AND (EV_READ OR EV_WRITE) \<noteq> 0"
    by (simp add: ev_defs example_defs)
  have tr2: "transfer fresh_bridge data_world = (Running partly_sent, data_world_after)"
    using third [OF r4] fin_eq [OF r5] live2 by simp
  have gone: "bridge_del both_ended quiet_world =
     (Destroyed,
      quiet_world\<lparr>trace := [EvIoStop 5, EvIoStop 7, SysClose 5, SysClose 7,
                            Fclose ''192.0.2.7:54321'', Fclose ''10.0.0.1:40000'']\<rparr>)"
  proof -
    obtain r w' where d: "bridge_del both_ended quiet_world = (r, w')"
      by (cases "bridge_del both_ended quiet_world")
    from fourth [OF d] flags(18) fds have "r = Destroyed"
      "w' = quiet_world\<lparr>trace := trace quiet_world @ [EvIoStop 5, EvIoStop 7, SysClose 5, SysClose 7,
                            Fclose ''192.0.2.7:54321'', Fclose ''10.0.0.1:40000'']\<rparr>"
      by simp_all
    moreover have "trace quiet_world = []" by (simp add: quiet_world_def)
    ultimately show ?thesis using d by simp
  qed
  have co: "calls_only (quiet_world\<lparr>faults := [Some EINTR, Some EIO]\<rparr>)
     (quiet_world\<lparr>trace := [EvIoStop 5, EvIoStop 7, SysClose 5, SysClose 5,
                            Stderr ''Unable to properly close fd'', SysClose 7,
                            Fclose ''192.0.2.7:54321'', Fclose ''10.0.0.1:40000'']\<rparr>)"
    using fourth [OF r7] by simp
  have fin2: "finish both_ended quiet_world =
     (Destroyed,
      quiet_world\<lparr>trace := [EvIoStop 5, EvIoStop 7, EvIoStop 5, EvIoStop 7, SysClose 5, SysClose 7,
                            Fclose ''192.0.2.7:54321'', Fclose ''10.0.0.1:40000'']\<rparr>)"
    by (simp add: run)
  have pre: "connectedToDestination fresh_bridge" "EV_READ AND EV_ERROR = 0"
    "EV_READ AND (EV_READ OR EV_WRITE) \<noteq> 0"
    by (simp_all add: ev_defs example_defs)
  have whole: "bridge_cb False EV_READ fresh_bridge data_world =
      Returned (Running partly_sent, data_world_after)"
    using fifth [OF conjI [OF pre(1) conjI [OF pre(2) conjI [OF pre(3) r4]]], of False]
      fin_eq [OF r5] live2 by simp
  from r1 r2 r3 r4 r5 r6 r7 flags(1-14,16-18) new5 off5 new7 bits same fin des tr started kept calls
    tr2 started_s gone co fin2 pre whole
  show ?thesis by simp
qed

theorem replay_cursor_in_range_witness:
  "reachable partly_sent data_world_after \<and> cursors_in_range partly_sent data_world_after \<and>
   srcPos partly_sent = 3 \<and> length (fs data_world_after (fname (srcFile partly_sent))) = 5 \<and>
   open_output_file 16 client_addr quiet_world =
     (Returned (Some (\<lparr>fname = ''192.0.2.7:54321'', fpos = 0\<rparr>, 0)), quiet_world) \<and>
   (0::nat) = length (fs quiet_world ''192.0.2.7:54321'') \<and>
   read_source fresh_bridge eof_world =
     (False, 0, source_ended, quiet_world\<lparr>trace := [SysShutdown 5 SHUT_RD]\<rparr>) \<and>
   srcPos source_ended = srcPos fresh_bridge \<and>
   files_grow eof_world (quiet_world\<lparr>trace := [SysShutdown 5 SHUT_RD]\<rparr>) \<and>
   read_destination fresh_bridge quiet_world = (False, 0, fresh_bridge, quiet_world) \<and>
   write_from_file 4 \<lparr>fname = ''j'', fpos = 0\<rparr> 0 replay_world =
     (0, \<lparr>fname = ''j'', fpos = 3\<rparr>, 3, replay_world_after) \<and>
   fs replay_world_after = fs replay_world \<and> (0::nat) \<le> 3 \<and>
   0 \<le> length (fs replay_world ''j'') \<and> 3 \<le> length (fs replay_world ''j'')"
proof -
  have i: "bridge_init 5 16 client_addr upstream quiet_world = (Returned (Some fresh_bridge), created_world)"
    by (simp add: init_defs ev_defs stdio_defs addr_defs Let_def example_defs)
  have g: "files_grow created_world data_world"
    by (simp add: files_grow_def example_defs)
  have d: "bridge_cb False EV_READ fresh_bridge data_world = Returned (Running partly_sent, data_world_after)"
    by (simp add: cb_defs run_defs ev_defs example_defs const_upd)
  have reach: "reachable partly_sent data_world_after"
    by (rule reachable.dispatched [OF reachable.outside [OF reachable.created [OF i] g] d])
  have o: "open_output_file 16 client_addr quiet_world =
     (Returned (Some (\<lparr>fname = ''192.0.2.7:54321'', fpos = 0\<rparr>, 0)), quiet_world)"
    by (simp add: init_defs ev_defs stdio_defs addr_defs Let_def example_defs)
  have rs: "read_source fresh_bridge eof_world =
     (False, 0, source_ended, quiet_world\<lparr>trace := [SysShutdown 5 SHUT_RD]\<rparr>)"
    by (simp add: cb_defs run_defs ev_defs example_defs const_upd)
  have rd: "read_destination fresh_bridge quiet_world = (False, 0, fresh_bridge, quiet_world)"
    by (simp add: cb_defs run_defs ev_defs example_defs const_upd)
  have wf: "write_from_file 4 \<lparr>fname = ''j'', fpos = 0\<rparr> 0 replay_world =
      (0, \<lparr>fname = ''j'', fpos = 3\<rparr>, 3, replay_world_after)"
    by (simp add: run_defs replay_world_def replay_world_after_def quiet_world_def hello_def)
  have data: "srcPos partly_sent = 3" "length (fs data_world_after (fname (srcFile partly_sent))) = 5"
    "length (fs replay_world ''j'') = 5"
    by (simp_all add: example_defs replay_world_def)
  note c1 = replay_cursor_in_range [THEN conjunct1, rule_format]
  note c2 = replay_cursor_in_range [THEN conjunct2, THEN conjunct1, rule_format]
  note c3 = replay_cursor_in_range [THEN conjunct2, THEN conjunct2, THEN conjunct1, rule_format]
  note c4 = replay_cursor_in_range [THEN conjunct2, THEN conjunct2, THEN conjunct2, THEN conjunct1,
      rule_format]
  note c5 = replay_cursor_in_range [THEN conjunct2, THEN conjunct2, THEN conjunct2, THEN conjunct2,
      rule_format]
  have k1: "cursors_in_range partly_sent data_world_after" by (rule c1 [OF reach])
  have k2: "(0::nat) = length (fs quiet_world ''192.0.2.7:54321'')"
    using c2 [OF o] by simp
  have k3: "srcPos source_ended = srcPos fresh_bridge"
    "files_grow eof_world (quiet_world\<lparr>trace := [SysShutdown 5 SHUT_RD]\<rparr>)"
    using c3 [OF rs] by simp_all
  have k5: "fs replay_world_after = fs replay_world" "3 \<le> length (fs replay_world ''j'')"
    using c5 [OF wf] by simp_all
  from reach o rs rd wf data k1 k2 k3 k5 c4 [OF rd] show ?thesis by simp
qed

subsection \<open>The names of the journals\<close>

text \<open>
  Claim C2, amended.  The journal of the destination direction, opened when
  the bridge is made, is named by the address formatter's key for the
  local address of the destination socket, which \<^verbatim>\<open>getsockname\<close> reports,
  and the journal of the source direction by the key for the client's
  address.  What is read from the destination is appended to that file and
  changes no other file.
\<close>

theorem journal_names:
  "(bridge_init srcfd n a d w = (Returned (Some b), w') \<longrightarrow>
      satos a n = Inr (fname (srcFile b)) \<and>
      satos (fst (sockname w (fd (destwatcher b)))) (snd (sockname w (fd (destwatcher b)))) =
        Inr (fname (destFile b))) \<and>
   (read_destination b w = (err, count, b', w') \<longrightarrow>
      fname (destFile b') = fname (destFile b) \<and>
      (\<exists>data. fs w' = (fs w)(fname (destFile b) := fs w (fname (destFile b)) @ data) \<and>
              (\<not> err \<longrightarrow> count = length data)))"
proof (intro conjI impI)
  assume i: "bridge_init srcfd n a d w = (Returned (Some b), w')"
  from bridge_init_result [OF i]
  show "satos a n = Inr (fname (srcFile b))"
    "satos (fst (sockname w (fd (destwatcher b)))) (snd (sockname w (fd (destwatcher b)))) =
        Inr (fname (destFile b))"
    by simp_all
next
  assume r: "read_destination b w = (err, count, b', w')"
  from read_destination_effect [OF r]
  show "fname (destFile b') = fname (destFile b)"
    "\<exists>data. fs w' = (fs w)(fname (destFile b) := fs w (fname (destFile b)) @ data) \<and>
              (\<not> err \<longrightarrow> count = length data)"
    by simp_all
qed

theorem journal_names_witness:
  "bridge_init 5 16 client_addr upstream quiet_world = (Returned (Some fresh_bridge), created_world) \<and>
   satos client_addr 16 = Inr ''192.0.2.7:54321'' \<and>
   fname (srcFile fresh_bridge) = ''192.0.2.7:54321'' \<and>
   fd (destwatcher fresh_bridge) = 7 \<and>
   satos (fst (sockname quiet_world 7)) (snd (sockname quiet_world 7)) = Inr ''10.0.0.1:40000'' \<and>
   fname (destFile fresh_bridge) = ''10.0.0.1:40000'' \<and>
   read_destination fresh_bridge reply_world =
     (False, 2, fresh_bridge\<lparr>destFile := \<lparr>fname = ''10.0.0.1:40000'', fpos = 2\<rparr>\<rparr>,
      quiet_world\<lparr>fs := (\<lambda>_. [])(''10.0.0.1:40000'' := [104, 105])\<rparr>) \<and>
   fs (quiet_world\<lparr>fs := (\<lambda>_. [])(''10.0.0.1:40000'' := [104, 105])\<rparr>) =
     (fs reply_world)(''10.0.0.1:40000'' := fs reply_world ''10.0.0.1:40000'' @ [104, 105])"
proof -
  have i: "bridge_init 5 16 client_addr upstream quiet_world = (Returned (Some fresh_bridge), created_world)"
    by (simp add: init_defs ev_defs stdio_defs addr_defs Let_def example_defs)
  have r: "read_destination fresh_bridge reply_world =
     (False, 2, fresh_bridge\<lparr>destFile := \<lparr>fname = ''10.0.0.1:40000'', fpos = 2\<rparr>\<rparr>,
      quiet_world\<lparr>fs := (\<lambda>_. [])(''10.0.0.1:40000'' := [104, 105])\<rparr>)"
    by (simp add: cb_defs run_defs ev_defs example_defs const_upd)
  have names: "fname (srcFile fresh_bridge) = ''192.0.2.7:54321''"
    "fname (destFile fresh_bridge) = ''10.0.0.1:40000''" "fd (destwatcher fresh_bridge) = 7"
    "fs (quiet_world\<lparr>fs := (\<lambda>_. [])(''10.0.0.1:40000'' := [104, 105])\<rparr>) =
     (fs reply_world)(''10.0.0.1:40000'' := fs reply_world ''10.0.0.1:40000'' @ [104, 105])"
    by (simp_all add: example_defs)
  note first = journal_names [THEN conjunct1, rule_format, OF i]
  note second = journal_names [THEN conjunct2, rule_format, OF r]
  from first names have "satos client_addr 16 = Inr ''192.0.2.7:54321''"
    "satos (fst (sockname quiet_world 7)) (snd (sockname quiet_world 7)) = Inr ''10.0.0.1:40000''"
    by simp_all
  with i r names second show ?thesis by simp
qed

text \<open>
  Claim C2 as stated fails: the destination journal is not named after the
  destination peer.  The bridge made for the destination \<^verbatim>\<open>10.0.0.2:80\<close>
  opens the journal \<^verbatim>\<open>10.0.0.1:40000\<close>, the local name of its socket.
\<close>

theorem dest_journal_name_counterexample:
  "bridge_init 5 16 client_addr upstream quiet_world = (Returned (Some fresh_bridge), created_world) \<and>
   satos (ai_addr upstream) (ai_addrlen upstream) = Inr ''10.0.0.2:80'' \<and>
   fname (destFile fresh_bridge) = ''10.0.0.1:40000'' \<and>
   fname (destFile fresh_bridge) \<noteq> ''10.0.0.2:80''"
  by (simp add: init_defs ev_defs stdio_defs addr_defs Let_def example_defs)

subsection \<open>Journals that stay drained\<close>

lemma append_nothing: "(f :: string \<Rightarrow> byte list)(k := f k @ []) = f"
  by simp

lemma source_direction_steps:
  assumes half: "sourceFlushed b \<longrightarrow> length (fs w (fname (srcFile b))) \<le> srcPos b"
    and s1: "read_source b w = (False, count, b1, w1)"
    and s2: "bridge_source count b1 w1 = (err, b2, w2)"
  shows "(\<not> replays_source count b1 \<longrightarrow> length (fs w1 (fname (srcFile b1))) \<le> srcPos b1) \<and>
    (\<not> err \<and> sourceFlushed b2 \<longrightarrow> length (fs w2 (fname (srcFile b2))) \<le> srcPos b2) \<and>
    (SysShutdown (fd (destwatcher b1)) SHUT_WR \<in> set (new_events w1 w2) \<longrightarrow>
       eofFromSource b2 \<and> sourceFlushed b2 \<and> length (fs w2 (fname (srcFile b2))) \<le> srcPos b2)"
proof -
  note f1 = read_source_effect [OF s1]
  note f2 = bridge_source_effect [OF s2]
  from f1 obtain data where data:
    "fs w1 = (fs w)(fname (srcFile b) := fs w (fname (srcFile b)) @ data)" "count = length data"
    by auto
  have pre: "\<not> replays_source count b1 \<longrightarrow> length (fs w1 (fname (srcFile b1))) \<le> srcPos b1"
  proof
    assume "\<not> replays_source count b1"
    then have fl: "sourceFlushed b1" and c0: "count = 0" by (simp_all add: replays_source_def)
    from c0 data have "fs w1 = fs w" by simp
    with fl f1 half show "length (fs w1 (fname (srcFile b1))) \<le> srcPos b1" by simp
  qed
  have post: "\<not> err \<and> sourceFlushed b2 \<longrightarrow> length (fs w2 (fname (srcFile b2))) \<le> srcPos b2"
  proof
    assume a: "\<not> err \<and> sourceFlushed b2"
    show "length (fs w2 (fname (srcFile b2))) \<le> srcPos b2"
    proof (cases "replays_source count b1")
      case True
      with a f2 show ?thesis by simp
    next
      case False
      with pre f2 show ?thesis by simp
    qed
  qed
  from f2 post have "SysShutdown (fd (destwatcher b1)) SHUT_WR \<in> set (new_events w1 w2) \<longrightarrow>
       eofFromSource b2 \<and> sourceFlushed b2 \<and> length (fs w2 (fname (srcFile b2))) \<le> srcPos b2"
    by simp
  with pre post show ?thesis by blast
qed

lemma source_direction_frame:
  assumes half: "destinationFlushed b \<longrightarrow> length (fs w (fname (destFile b))) \<le> destPos b"
    and names: "fname (srcFile b) \<noteq> fname (destFile b)"
    and s1: "read_source b w = (e1, count, b1, w1)"
    and s2: "bridge_source count b1 w1 = (err, b2, w2)"
  shows "(destinationFlushed b2 \<longrightarrow> length (fs w2 (fname (destFile b2))) \<le> destPos b2) \<and>
    fname (srcFile b2) \<noteq> fname (destFile b2)"
proof -
  note f1 = read_source_effect [OF s1]
  note f2 = bridge_source_effect [OF s2]
  from f1 obtain data where
    "fs w1 = (fs w)(fname (srcFile b) := fs w (fname (srcFile b)) @ data)" by blast
  with names have "fs w1 (fname (destFile b)) = fs w (fname (destFile b))" by simp
  with f1 f2 half names show ?thesis by simp
qed

lemma destination_direction_steps:
  assumes half: "destinationFlushed b \<longrightarrow> length (fs w (fname (destFile b))) \<le> destPos b"
    and s1: "read_destination b w = (False, count, b1, w1)"
    and s2: "bridge_destination count b1 w1 = (err, b2, w2)"
  shows "(\<not> replays_destination count b1 \<longrightarrow> length (fs w1 (fname (destFile b1))) \<le> destPos b1) \<and>
    (\<not> err \<and> destinationFlushed b2 \<longrightarrow> length (fs w2 (fname (destFile b2))) \<le> destPos b2) \<and>
    (SysShutdown (fd (srcwatcher b1)) SHUT_WR \<in> set (new_events w1 w2) \<longrightarrow>
       eofFromDestination b2 \<and> destinationFlushed b2 \<and> length (fs w2 (fname (destFile b2))) \<le> destPos b2)"
proof -
  note f1 = read_destination_effect [OF s1]
  note f2 = bridge_destination_effect [OF s2]
  from f1 obtain data where data:
    "fs w1 = (fs w)(fname (destFile b) := fs w (fname (destFile b)) @ data)" "count = length data"
    by auto
  have pre: "\<not> replays_destination count b1 \<longrightarrow> length (fs w1 (fname (destFile b1))) \<le> destPos b1"
  proof
    assume "\<not> replays_destination count b1"
    then have fl: "destinationFlushed b1" and c0: "count = 0" by (simp_all add: replays_destination_def)
    from c0 data have "fs w1 = fs w" by simp
    with fl f1 half show "length (fs w1 (fname (destFile b1))) \<le> destPos b1" by simp
  qed
  have post: "\<not> err \<and> destinationFlushed b2 \<longrightarrow> length (fs w2 (fname (destFile b2))) \<le> destPos b2"
  proof
    assume a: "\<not> err \<and> destinationFlushed b2"
    show "length (fs w2 (fname (destFile b2))) \<le> destPos b2"
    proof (cases "replays_destination count b1")
      case True
      with a f2 show ?thesis by simp
    next
      case False
      with pre f2 show ?thesis by simp
    qed
  qed
  from f2 post have "SysShutdown (fd (srcwatcher b1)) SHUT_WR \<in> set (new_events w1 w2) \<longrightarrow>
       eofFromDestination b2 \<and> destinationFlushed b2 \<and> length (fs w2 (fname (destFile b2))) \<le> destPos b2"
    by simp
  with pre post show ?thesis by blast
qed

lemma destination_direction_frame:
  assumes half: "sourceFlushed b \<longrightarrow> length (fs w (fname (srcFile b))) \<le> srcPos b"
    and names: "fname (srcFile b) \<noteq> fname (destFile b)"
    and s1: "read_destination b w = (e1, count, b1, w1)"
    and s2: "bridge_destination count b1 w1 = (err, b2, w2)"
  shows "(sourceFlushed b2 \<longrightarrow> length (fs w2 (fname (srcFile b2))) \<le> srcPos b2) \<and>
    fname (srcFile b2) \<noteq> fname (destFile b2)"
proof -
  note f1 = read_destination_effect [OF s1]
  note f2 = bridge_destination_effect [OF s2]
  from f1 obtain data where
    "fs w1 = (fs w)(fname (destFile b) := fs w (fname (destFile b)) @ data)" by blast
  with names have "fs w1 (fname (srcFile b)) = fs w (fname (srcFile b))" by simp
  with f1 f2 half names show ?thesis by simp
qed

lemma four_steps_drained:
  assumes run: "four_steps b w = (False, b4, w4)" and inv: "drained_if_flushed b w"
    and names: "fname (srcFile b) \<noteq> fname (destFile b)"
  shows "drained_if_flushed b4 w4 \<and> fname (srcFile b4) \<noteq> fname (destFile b4)"
proof -
  obtain e1 c1 b1 w1 where s1: "read_source b w = (e1, c1, b1, w1)"
    by (cases "read_source b w") auto
  with run have n1: "\<not> e1" by (cases e1) (simp_all add: four_steps_def)
  obtain e2 b2 w2 where s2: "bridge_source c1 b1 w1 = (e2, b2, w2)"
    by (cases "bridge_source c1 b1 w1") auto
  with run s1 n1 have n2: "\<not> e2" by (cases e2) (simp_all add: four_steps_def)
  obtain e3 c3 b3 w3 where s3: "read_destination b2 w2 = (e3, c3, b3, w3)"
    by (cases "read_destination b2 w2") auto
  with run s1 n1 s2 n2 have n3: "\<not> e3" by (cases e3) (simp_all add: four_steps_def)
  from run s1 n1 s2 n2 s3 n3 have s4: "bridge_destination c3 b3 w3 = (False, b4, w4)"
    by (simp add: four_steps_def)
  from inv have hs: "sourceFlushed b \<longrightarrow> length (fs w (fname (srcFile b))) \<le> srcPos b"
    and hd: "destinationFlushed b \<longrightarrow> length (fs w (fname (destFile b))) \<le> destPos b"
    by (simp_all add: drained_if_flushed_def)
  from s1 n1 have s1': "read_source b w = (False, c1, b1, w1)" by simp
  from s3 n3 have s3': "read_destination b2 w2 = (False, c3, b3, w3)" by simp
  from source_direction_steps [OF hs s1' s2] n2
  have hs2: "sourceFlushed b2 \<longrightarrow> length (fs w2 (fname (srcFile b2))) \<le> srcPos b2" by simp
  from source_direction_frame [OF hd names s1 s2]
  have hd2: "destinationFlushed b2 \<longrightarrow> length (fs w2 (fname (destFile b2))) \<le> destPos b2"
    and names2: "fname (srcFile b2) \<noteq> fname (destFile b2)" by simp_all
  from destination_direction_steps [OF hd2 s3' s4]
  have hd4: "destinationFlushed b4 \<longrightarrow> length (fs w4 (fname (destFile b4))) \<le> destPos b4" by simp
  from destination_direction_frame [OF hs2 names2 s3 s4]
  have "(sourceFlushed b4 \<longrightarrow> length (fs w4 (fname (srcFile b4))) \<le> srcPos b4) \<and>
    fname (srcFile b4) \<noteq> fname (destFile b4)" by simp
  with hd4 show ?thesis by (simp add: drained_if_flushed_def)
qed

lemma unchanged_drained:
  assumes "srcPos b' = srcPos b" "destPos b' = destPos b" "srcFile b' = srcFile b"
    "destFile b' = destFile b" "sourceFlushed b' = sourceFlushed b"
    "destinationFlushed b' = destinationFlushed b" "fs w' = fs w"
    and "drained_if_flushed b w" and "fname (srcFile b) \<noteq> fname (destFile b)"
  shows "drained_if_flushed b' w' \<and> fname (srcFile b') \<noteq> fname (destFile b')"
  using assms by (simp add: drained_if_flushed_def)

lemma bridge_cb_drained:
  assumes run: "bridge_cb on_dest flags b w = Returned (Running b', w')"
    and inv: "drained_if_flushed b w" and names: "fname (srcFile b) \<noteq> fname (destFile b)"
  shows "drained_if_flushed b' w' \<and> fname (srcFile b') \<noteq> fname (destFile b')"
proof -
  from run have
    "complete_connection b w = (Running b', w') \<or> transfer b w = (Running b', w')"
    by (auto simp add: bridge_cb_def bridge_del_def split: if_splits)
  then show ?thesis
  proof
    assume "complete_connection b w = (Running b', w')"
    then have u: "srcPos b' = srcPos b" "destPos b' = destPos b"
      "srcFile b' = srcFile b" "destFile b' = destFile b"
      "sourceFlushed b' = sourceFlushed b" "destinationFlushed b' = destinationFlushed b"
      "fs w' = fs w"
      by (auto simp add: complete_connection_def sys_getsockopt_error_def take_fault_def
          bridge_del_def ev_io_stop_def ev_io_start_def ev_io_set_def emit_def Let_def
          split: list.splits option.splits if_splits)
    show ?thesis by (rule unchanged_drained [OF u inv names])
  next
    assume t: "transfer b w = (Running b', w')"
    obtain err b4 w4 where fsteps: "four_steps b w = (err, b4, w4)"
      by (cases "four_steps b w") auto
    with t have ne: "\<not> err" and fin: "finish b4 w4 = (Running b', w')"
      by (cases err; simp add: transfer_def bridge_del_def)+
    from fsteps ne have "four_steps b w = (False, b4, w4)" by simp
    note d4 = four_steps_drained [OF this inv names]
    obtain b5 w5 where r: "recalibrate b4 w4 = (b5, w5)" by (cases "recalibrate b4 w4")
    from fin r have "b' = b5" "w' = w5"
      by (auto simp add: finish_def bridge_del_def split: if_splits)
    with recalibrate_fields [OF r] have u: "srcPos b' = srcPos b4" "destPos b' = destPos b4"
      "srcFile b' = srcFile b4" "destFile b' = destFile b4" "sourceFlushed b' = sourceFlushed b4"
      "destinationFlushed b' = destinationFlushed b4" "fs w' = fs w4"
      by simp_all
    from d4 have i4: "drained_if_flushed b4 w4" and n4: "fname (srcFile b4) \<noteq> fname (destFile b4)"
      by simp_all
    show ?thesis by (rule unchanged_drained [OF u i4 n4])
  qed
qed

subsection \<open>Shutting down a write half\<close>

lemma read_source_trace:
  assumes "read_source b w = (err, count, b1, w1)"
  shows "\<exists>evs. trace w1 = trace w @ evs \<and>
    list_all (\<lambda>e. is_stderr e \<or> e = SysShutdown (fd (srcwatcher b)) SHUT_RD) evs"
proof -
  let ?r = "if \<not> eofFromSource b then read_into_file (fd (srcwatcher b)) (srcFile b) w
            else (0, 0, srcFile b, w)"
  obtain rc c f w0 where r: "?r = (rc, c, f, w0)" by (cases ?r) auto
  have "\<exists>evs. trace w0 = trace w @ evs \<and> list_all is_stderr evs"
  proof (cases "eofFromSource b")
    case True
    with r show ?thesis by simp
  next
    case False
    with r have "read_loop (fd (srcwatcher b)) (srcFile b) 0 w = (rc, c, f, w0)"
      by (simp add: read_into_file_def)
    from read_loop_effect [OF this] show ?thesis by blast
  qed
  then obtain evs where evs: "trace w0 = trace w @ evs" "list_all is_stderr evs" by blast
  obtain ok w2 where sh: "sys_shutdown (fd (srcwatcher b)) SHUT_RD w0 = (ok, w2)"
    by (cases "sys_shutdown (fd (srcwatcher b)) SHUT_RD w0")
  note st = sys_shutdown_trace [OF sh]
  from assms r sh have
    "w1 = emit (Stderr ''Error reading from source into source output file'') w0 \<or>
     w1 = w2 \<or> w1 = emit (Stderr ''Unable to shutdown source for reading'') w2 \<or> w1 = w0"
    by (auto simp add: read_source_def split: if_splits)
  with evs(1) st have "trace w1 = trace w @ evs @ [Stderr ''Error reading from source into source output file''] \<or>
     trace w1 = trace w @ evs @ [SysShutdown (fd (srcwatcher b)) SHUT_RD] \<or>
     trace w1 = trace w @ evs @ [SysShutdown (fd (srcwatcher b)) SHUT_RD,
        Stderr ''Unable to shutdown source for reading''] \<or>
     trace w1 = trace w @ evs @ []"
    by (auto simp add: emit_fields)
  then have "\<exists>tl. trace w1 = trace w @ evs @ tl \<and>
      list_all (\<lambda>e. is_stderr e \<or> e = SysShutdown (fd (srcwatcher b)) SHUT_RD) tl"
    by (elim disjE) (simp_all add: is_stderr_def)
  then obtain tl where tl: "trace w1 = trace w @ evs @ tl"
      "list_all (\<lambda>e. is_stderr e \<or> e = SysShutdown (fd (srcwatcher b)) SHUT_RD) tl" by blast
  from evs(2) tl(2) have "list_all (\<lambda>e. is_stderr e \<or> e = SysShutdown (fd (srcwatcher b)) SHUT_RD) (evs @ tl)"
    by (auto simp add: list_all_iff)
  with tl(1) show ?thesis by blast
qed

lemma read_destination_trace:
  assumes "read_destination b w = (err, count, b1, w1)"
  shows "\<exists>evs. trace w1 = trace w @ evs \<and>
    list_all (\<lambda>e. is_stderr e \<or> e = SysShutdown (fd (destwatcher b)) SHUT_RD) evs"
proof -
  let ?r = "if \<not> eofFromDestination b then read_into_file (fd (destwatcher b)) (destFile b) w
            else (0, 0, destFile b, w)"
  obtain rc c f w0 where r: "?r = (rc, c, f, w0)" by (cases ?r) auto
  have "\<exists>evs. trace w0 = trace w @ evs \<and> list_all is_stderr evs"
  proof (cases "eofFromDestination b")
    case True
    with r show ?thesis by simp
  next
    case False
    with r have "read_loop (fd (destwatcher b)) (destFile b) 0 w = (rc, c, f, w0)"
      by (simp add: read_into_file_def)
    from read_loop_effect [OF this] show ?thesis by blast
  qed
  then obtain evs where evs: "trace w0 = trace w @ evs" "list_all is_stderr evs" by blast
  obtain ok w2 where sh: "sys_shutdown (fd (destwatcher b)) SHUT_RD w0 = (ok, w2)"
    by (cases "sys_shutdown (fd (destwatcher b)) SHUT_RD w0")
  note st = sys_shutdown_trace [OF sh]
  from assms r sh have
    "w1 = emit (Stderr ''Error reading from destination into destination output file'') w0 \<or>
     w1 = w2 \<or> w1 = emit (Stderr ''Unable to shutdown destination for reading'') w2 \<or> w1 = w0"
    by (auto simp add: read_destination_def split: if_splits)
  with evs(1) st have "trace w1 = trace w @ evs @ [Stderr ''Error reading from destination into destination output file''] \<or>
     trace w1 = trace w @ evs @ [SysShutdown (fd (destwatcher b)) SHUT_RD] \<or>
     trace w1 = trace w @ evs @ [SysShutdown (fd (destwatcher b)) SHUT_RD,
        Stderr ''Unable to shutdown destination for reading''] \<or>
     trace w1 = trace w @ evs @ []"
    by (auto simp add: emit_fields)
  then have "\<exists>tl. trace w1 = trace w @ evs @ tl \<and>
      list_all (\<lambda>e. is_stderr e \<or> e = SysShutdown (fd (destwatcher b)) SHUT_RD) tl"
    by (elim disjE) (simp_all add: is_stderr_def)
  then obtain tl where tl: "trace w1 = trace w @ evs @ tl"
      "list_all (\<lambda>e. is_stderr e \<or> e = SysShutdown (fd (destwatcher b)) SHUT_RD) tl" by blast
  from evs(2) tl(2) have "list_all (\<lambda>e. is_stderr e \<or> e = SysShutdown (fd (destwatcher b)) SHUT_RD) (evs @ tl)"
    by (auto simp add: list_all_iff)
  with tl(1) show ?thesis by blast
qed

lemma bridge_source_trace:
  assumes "bridge_source count b w = (err, b2, w2)"
  shows "\<exists>evs. trace w2 = trace w @ evs \<and>
    list_all (\<lambda>e. is_stderr e \<or> e = SysShutdown (fd (destwatcher b)) SHUT_WR) evs"
proof -
  let ?r = "if replays_source count b
            then write_from_file (fd (destwatcher b)) (srcFile b) (srcPos b) w
            else (FILE_EOF, srcFile b, srcPos b, w)"
  obtain rc f pos w0 where r: "?r = (rc, f, pos, w0)" by (cases ?r) auto
  have "logs_only w w0"
  proof (cases "replays_source count b")
    case True
    with r have "write_from_file (fd (destwatcher b)) (srcFile b) (srcPos b) w = (rc, f, pos, w0)"
      by simp
    from write_from_file_trace [OF this] show ?thesis .
  next
    case False
    with r show ?thesis by (simp add: logs_only_refl)
  qed
  then obtain evs where evs: "trace w0 = trace w @ evs" "list_all is_stderr evs"
    by (auto simp add: logs_only_def)
  obtain ok w3 where sh: "sys_shutdown (fd (destwatcher b)) SHUT_WR w0 = (ok, w3)"
    by (cases "sys_shutdown (fd (destwatcher b)) SHUT_WR w0")
  note st = sys_shutdown_trace [OF sh]
  from assms r sh have
    "w2 = emit (Stderr ''Error writing from source output file to destination'') w0 \<or>
     w2 = w3 \<or> w2 = emit (Stderr ''Unable to shutdown destination for writing'') w3 \<or> w2 = w0"
    by (auto simp add: bridge_source_def split: if_splits)
  with evs(1) st have "trace w2 = trace w @ evs @ [Stderr ''Error writing from source output file to destination''] \<or>
     trace w2 = trace w @ evs @ [SysShutdown (fd (destwatcher b)) SHUT_WR] \<or>
     trace w2 = trace w @ evs @ [SysShutdown (fd (destwatcher b)) SHUT_WR,
        Stderr ''Unable to shutdown destination for writing''] \<or>
     trace w2 = trace w @ evs @ []"
    by (auto simp add: emit_fields)
  then have "\<exists>tl. trace w2 = trace w @ evs @ tl \<and>
      list_all (\<lambda>e. is_stderr e \<or> e = SysShutdown (fd (destwatcher b)) SHUT_WR) tl"
    by (elim disjE) (simp_all add: is_stderr_def)
  then obtain tl where tl: "trace w2 = trace w @ evs @ tl"
      "list_all (\<lambda>e. is_stderr e \<or> e = SysShutdown (fd (destwatcher b)) SHUT_WR) tl" by blast
  from evs(2) tl(2) have "list_all (\<lambda>e. is_stderr e \<or> e = SysShutdown (fd (destwatcher b)) SHUT_WR) (evs @ tl)"
    by (auto simp add: list_all_iff)
  with tl(1) show ?thesis by blast
qed

lemma bridge_destination_trace:
  assumes "bridge_destination count b w = (err, b2, w2)"
  shows "\<exists>evs. trace w2 = trace w @ evs \<and>
    list_all (\<lambda>e. is_stderr e \<or> e = SysShutdown (fd (srcwatcher b)) SHUT_WR) evs"
proof -
  let ?r = "if replays_destination count b
            then write_from_file (fd (srcwatcher b)) (destFile b) (destPos b) w
            else (FILE_EOF, destFile b, destPos b, w)"
  obtain rc f pos w0 where r: "?r = (rc, f, pos, w0)" by (cases ?r) auto
  have "logs_only w w0"
  proof (cases "replays_destination count b")
    case True
    with r have "write_from_file (fd (srcwatcher b)) (destFile b) (destPos b) w = (rc, f, pos, w0)"
      by simp
    from write_from_file_trace [OF this] show ?thesis .
  next
    case False
    with r show ?thesis by (simp add: logs_only_refl)
  qed
  then obtain evs where evs: "trace w0 = trace w @ evs" "list_all is_stderr evs"
    by (auto simp add: logs_only_def)
  obtain ok w3 where sh: "sys_shutdown (fd (srcwatcher b)) SHUT_WR w0 = (ok, w3)"
    by (cases "sys_shutdown (fd (srcwatcher b)) SHUT_WR w0")
  note st = sys_shutdown_trace [OF sh]
  from assms r sh have
    "w2 = emit (Stderr ''Error writing from destination output file to source'') w0 \<or>
     w2 = w3 \<or> w2 = emit (Stderr ''Unable to shutdown source for writing'') w3 \<or> w2 = w0"
    by (auto simp add: bridge_destination_def split: if_splits)
  with evs(1) st have "trace w2 = trace w @ evs @ [Stderr ''Error writing from destination output file to source''] \<or>
     trace w2 = trace w @ evs @ [SysShutdown (fd (srcwatcher b)) SHUT_WR] \<or>
     trace w2 = trace w @ evs @ [SysShutdown (fd (srcwatcher b)) SHUT_WR,
        Stderr ''Unable to shutdown source for writing''] \<or>
     trace w2 = trace w @ evs @ []"
    by (auto simp add: emit_fields)
  then have "\<exists>tl. trace w2 = trace w @ evs @ tl \<and>
      list_all (\<lambda>e. is_stderr e \<or> e = SysShutdown (fd (srcwatcher b)) SHUT_WR) tl"
    by (elim disjE) (simp_all add: is_stderr_def)
  then obtain tl where tl: "trace w2 = trace w @ evs @ tl"
      "list_all (\<lambda>e. is_stderr e \<or> e = SysShutdown (fd (srcwatcher b)) SHUT_WR) tl" by blast
  from evs(2) tl(2) have "list_all (\<lambda>e. is_stderr e \<or> e = SysShutdown (fd (srcwatcher b)) SHUT_WR) (evs @ tl)"
    by (auto simp add: list_all_iff)
  with tl(1) show ?thesis by blast
qed

lemma bridge_del_no_shutdown:
  assumes "bridge_del b w = (r, w')"
  shows "\<exists>evs. trace w' = trace w @ evs \<and> SysShutdown s h \<notin> set evs"
proof -
  from bridge_del_effect [OF assms] obtain evs where
    evs: "trace w' = trace w @ EvIoStop (fd (srcwatcher b)) # EvIoStop (fd (destwatcher b)) # evs"
      "\<forall>e \<in> set evs. is_stderr e \<or> e = SysClose (fd (srcwatcher b)) \<or>
          e = SysClose (fd (destwatcher b)) \<or> e = Fclose (fname (srcFile b)) \<or>
          e = Fclose (fname (destFile b))"
    by blast
  from evs(2) have "SysShutdown s h \<notin> set evs" by (auto simp add: is_stderr_def)
  then have "SysShutdown s h \<notin> set (EvIoStop (fd (srcwatcher b)) # EvIoStop (fd (destwatcher b)) # evs)"
    by simp
  with evs(1) show ?thesis by blast
qed

lemma finish_no_shutdown:
  assumes "finish b w = (r, w')"
  shows "\<exists>evs. trace w' = trace w @ evs \<and> SysShutdown s h \<notin> set evs"
proof -
  obtain b5 w5 where rc: "recalibrate b w = (b5, w5)" by (cases "recalibrate b w")
  from recalibrate_exact [OF rc] obtain e5 where
    e5: "trace w5 = trace w @ e5" "SysShutdown s h \<notin> set e5"
    by (cases "events (srcwatcher b) \<noteq> src_flags b"; cases "src_flags b \<noteq> 0";
        cases "events (destwatcher b) \<noteq> dest_flags b"; cases "dest_flags b \<noteq> 0") auto
  from assms rc have "(r, w') = bridge_del b5 w5 \<or> w' = w5"
    by (auto simp add: finish_def split: if_splits)
  then show ?thesis
  proof
    assume "(r, w') = bridge_del b5 w5"
    from bridge_del_no_shutdown [OF this [symmetric], of s h] obtain e6 where
      "trace w' = trace w5 @ e6" "SysShutdown s h \<notin> set e6" by blast
    with e5 have "trace w' = trace w @ e5 @ e6" "SysShutdown s h \<notin> set (e5 @ e6)" by simp_all
    then show ?thesis by blast
  next
    assume "w' = w5"
    with e5 show ?thesis by blast
  qed
qed

lemma complete_connection_no_shutdown:
  assumes "complete_connection b w = (r, w')"
  shows "\<exists>evs. trace w' = trace w @ evs \<and> SysShutdown s h \<notin> set evs"
proof -
  obtain x w1 where g: "sys_getsockopt_error (fd (destwatcher b)) w = (x, w1)"
    by (cases "sys_getsockopt_error (fd (destwatcher b)) w")
  then have t1: "trace w1 = trace w"
    by (auto simp add: sys_getsockopt_error_def take_fault_def split: list.splits option.splits)
  show ?thesis
  proof (cases x)
    case None
    with assms g have "bridge_del b
        (emit (Stderr ''Unable to obtain connection completion information'') w1) = (r, w')"
      by (simp add: complete_connection_def)
    from bridge_del_no_shutdown [OF this, of s h] obtain evs where
      "trace w' = trace w1 @ Stderr ''Unable to obtain connection completion information'' # evs"
      "SysShutdown s h \<notin> set evs"
      by (auto simp add: emit_fields)
    with t1 have "trace w' =
        trace w @ Stderr ''Unable to obtain connection completion information'' # evs"
      "SysShutdown s h \<notin> set (Stderr ''Unable to obtain connection completion information'' # evs)"
      by simp_all
    then show ?thesis by blast
  next
    case (Some errcode)
    show ?thesis
    proof (cases "errcode = 0")
      case False
      with assms g Some have
        "bridge_del b (emit (Stderr ''Unable to complete connection'') w1) = (r, w')"
        by (simp add: complete_connection_def)
      from bridge_del_no_shutdown [OF this, of s h] obtain evs where
        "trace w' = trace w1 @ Stderr ''Unable to complete connection'' # evs"
        "SysShutdown s h \<notin> set evs"
        by (auto simp add: emit_fields)
      with t1 have "trace w' = trace w @ Stderr ''Unable to complete connection'' # evs"
        "SysShutdown s h \<notin> set (Stderr ''Unable to complete connection'' # evs)"
        by simp_all
      then show ?thesis by blast
    next
      case True
      with assms g Some t1 have "\<exists>a b c. trace w' = trace w @ [EvIoStop a, EvIoStart b c] \<or>
          (\<exists>d e. trace w' = trace w @ [EvIoStop a, EvIoStart b c, EvIoStart d e])"
        by (auto simp add: complete_connection_def ev_io_stop_def ev_io_start_def ev_io_set_def
            emit_def Let_def split: if_splits)
      then obtain evs where "trace w' = trace w @ evs" "SysShutdown s h \<notin> set evs"
        by auto
      then show ?thesis by blast
    qed
  qed
qed

lemma trace_steps:
  "trace w1 = trace w @ evs1 \<Longrightarrow> trace w2 = trace w1 @ evs2 \<Longrightarrow>
   new_events w w2 = evs1 @ evs2 \<and> new_events w1 w2 = evs2"
  by (simp add: new_events_def)

text \<open>
  Within the transfer part of a dispatch a write half is shut down only by
  step two (the destination's) and by step four (the source's).
\<close>

lemma transfer_shutdown:
  assumes run: "transfer b w = (r, w')"
    and mem: "SysShutdown s SHUT_WR \<in> set (new_events w w')"
  shows "\<exists>c1 b1 w1 e2 b2 w2.
     read_source b w = (False, c1, b1, w1) \<and> bridge_source c1 b1 w1 = (e2, b2, w2) \<and>
     (s = fd (destwatcher b) \<and> SysShutdown s SHUT_WR \<in> set (new_events w1 w2) \<or>
      \<not> e2 \<and>
      (\<exists>c3 b3 w3 e4 b4 w4.
         read_destination b2 w2 = (False, c3, b3, w3) \<and>
         bridge_destination c3 b3 w3 = (e4, b4, w4) \<and>
         s = fd (srcwatcher b) \<and> SysShutdown s SHUT_WR \<in> set (new_events w3 w4)))"
proof -
  obtain e1 c1 b1 w1 where s1: "read_source b w = (e1, c1, b1, w1)"
    by (cases "read_source b w") auto
  obtain e2 b2 w2 where s2: "bridge_source c1 b1 w1 = (e2, b2, w2)"
    by (cases "bridge_source c1 b1 w1") auto
  obtain e3 c3 b3 w3 where s3: "read_destination b2 w2 = (e3, c3, b3, w3)"
    by (cases "read_destination b2 w2") auto
  obtain e4 b4 w4 where s4: "bridge_destination c3 b3 w3 = (e4, b4, w4)"
    by (cases "bridge_destination c3 b3 w3") auto
  note f1 = read_source_effect [OF s1]
  note f2 = bridge_source_effect [OF s2]
  note f3 = read_destination_effect [OF s3]
  from read_source_trace [OF s1] obtain v1 where
    v1: "trace w1 = trace w @ v1"
      "list_all (\<lambda>e. is_stderr e \<or> e = SysShutdown (fd (srcwatcher b)) SHUT_RD) v1" by blast
  from bridge_source_trace [OF s2] obtain v2 where
    v2: "trace w2 = trace w1 @ v2"
      "list_all (\<lambda>e. is_stderr e \<or> e = SysShutdown (fd (destwatcher b1)) SHUT_WR) v2" by blast
  from read_destination_trace [OF s3] obtain v3 where
    v3: "trace w3 = trace w2 @ v3"
      "list_all (\<lambda>e. is_stderr e \<or> e = SysShutdown (fd (destwatcher b2)) SHUT_RD) v3" by blast
  from bridge_destination_trace [OF s4] obtain v4 where
    v4: "trace w4 = trace w3 @ v4"
      "list_all (\<lambda>e. is_stderr e \<or> e = SysShutdown (fd (srcwatcher b3)) SHUT_WR) v4" by blast
  from v1(2) have n1: "SysShutdown s SHUT_WR \<notin> set v1"
    by (auto simp add: list_all_iff is_stderr_def)
  from v3(2) have n3: "SysShutdown s SHUT_WR \<notin> set v3"
    by (auto simp add: list_all_iff is_stderr_def)
  from f1 have d1: "destwatcher b1 = destwatcher b" and q1: "srcwatcher b1 = srcwatcher b"
    by simp_all
  from f2 have q2: "srcwatcher b2 = srcwatcher b1" by simp
  from f3 have q3: "srcwatcher b3 = srcwatcher b2" by simp
  from v2(2) have n2: "SysShutdown s SHUT_WR \<in> set v2 \<longrightarrow> s = fd (destwatcher b)"
    unfolding d1 by (auto simp add: list_all_iff is_stderr_def)
  from v4(2) have n4: "SysShutdown s SHUT_WR \<in> set v4 \<longrightarrow> s = fd (srcwatcher b)"
    unfolding q3 q2 q1 by (auto simp add: list_all_iff is_stderr_def)
  have ne2: "new_events w1 w2 = v2" using v2(1) by (simp add: new_events_def)
  have ne4: "new_events w3 w4 = v4" using v4(1) by (simp add: new_events_def)
  obtain e b5 w5 where fsteps: "four_steps b w = (e, b5, w5)"
    by (cases "four_steps b w") auto
  have tail: "\<exists>v. trace w' = trace w5 @ v \<and> SysShutdown s SHUT_WR \<notin> set v"
  proof (cases e)
    case True
    with run fsteps have "bridge_del b5 w5 = (r, w')" by (simp add: transfer_def)
    from bridge_del_no_shutdown [OF this] show ?thesis .
  next
    case False
    with run fsteps have "finish b5 w5 = (r, w')" by (simp add: transfer_def)
    from finish_no_shutdown [OF this] show ?thesis .
  qed
  then obtain v where v: "trace w' = trace w5 @ v" "SysShutdown s SHUT_WR \<notin> set v" by blast
  show ?thesis
  proof (cases e1)
    case True
    with fsteps s1 have "w5 = w1" by (simp add: four_steps_def)
    with v v1 have "new_events w w' = v1 @ v" by (simp add: new_events_def)
    with mem n1 v(2) show ?thesis by simp
  next
    case k1: False
    show ?thesis
    proof (cases e2)
      case True
      with fsteps s1 s2 k1 have "w5 = w2" by (simp add: four_steps_def)
      with v v1 v2 have "new_events w w' = v1 @ v2 @ v" by (simp add: new_events_def)
      with mem n1 v(2) have "SysShutdown s SHUT_WR \<in> set v2" by simp
      with n2 ne2 s1 s2 k1 show ?thesis by auto
    next
      case k2: False
      show ?thesis
      proof (cases e3)
        case True
        with fsteps s1 s2 s3 k1 k2 have "w5 = w3" by (simp add: four_steps_def)
        with v v1 v2 v3 have "new_events w w' = v1 @ v2 @ v3 @ v" by (simp add: new_events_def)
        with mem n1 n3 v(2) have "SysShutdown s SHUT_WR \<in> set v2" by simp
        with n2 ne2 s1 s2 k1 show ?thesis by auto
      next
        case k3: False
        with fsteps s1 s2 s3 s4 k1 k2 have "w5 = w4" by (simp add: four_steps_def)
        with v v1 v2 v3 v4 have "new_events w w' = v1 @ v2 @ v3 @ v4 @ v"
          by (simp add: new_events_def)
        with mem n1 n3 v(2) have "SysShutdown s SHUT_WR \<in> set v2 \<or> SysShutdown s SHUT_WR \<in> set v4"
          by auto
        then show ?thesis
        proof
          assume "SysShutdown s SHUT_WR \<in> set v2"
          with n2 ne2 s1 s2 k1 show ?thesis by auto
        next
          assume "SysShutdown s SHUT_WR \<in> set v4"
          with n4 ne4 s1 s2 s3 s4 k1 k2 k3 show ?thesis by auto
        qed
      qed
    qed
  qed
qed

lemma bridge_cb_shutdown:
  assumes run: "bridge_cb on_dest flags b w = Returned (r, w')"
    and mem: "SysShutdown s SHUT_WR \<in> set (new_events w w')"
  shows "connectedToDestination b \<and> transfer b w = (r, w')"
proof -
  from run have
    "(r, w') = bridge_del b (emit (Stderr ''Error in bridge callback'') w) \<or>
     (\<not> connectedToDestination b \<and> complete_connection b w = (r, w')) \<or>
     (connectedToDestination b \<and> transfer b w = (r, w'))"
    by (auto simp add: bridge_cb_def split: if_splits)
  then show ?thesis
  proof (elim disjE)
    assume "(r, w') = bridge_del b (emit (Stderr ''Error in bridge callback'') w)"
    from bridge_del_no_shutdown [OF this [symmetric], of s SHUT_WR] obtain evs where
      "trace w' = trace w @ Stderr ''Error in bridge callback'' # evs"
      "SysShutdown s SHUT_WR \<notin> set evs"
      by (auto simp add: emit_fields)
    with mem show ?thesis by (simp add: new_events_def)
  next
    assume "\<not> connectedToDestination b \<and> complete_connection b w = (r, w')"
    then have "complete_connection b w = (r, w')" by simp
    from complete_connection_no_shutdown [OF this, of s SHUT_WR] mem show ?thesis
      by (auto simp add: new_events_def)
  next
    assume "connectedToDestination b \<and> transfer b w = (r, w')"
    then show ?thesis .
  qed
qed

lemma undisturbed_drained:
  "undisturbed b w \<Longrightarrow> drained_if_flushed b w \<and> fname (srcFile b) \<noteq> fname (destFile b)"
proof (induction rule: undisturbed.induct)
  case (begun srcfd srcaddrlen srcaddr destaddr w b w')
  from bridge_init_result [OF begun(1)] begun(2) show ?case
    by (simp add: drained_if_flushed_def)
next
  case (stepped b w on_dest flags b' w')
  from stepped(3) have "drained_if_flushed b w" "fname (srcFile b) \<noteq> fname (destFile b)"
    by simp_all
  from bridge_cb_drained [OF stepped(2) this] show ?case .
next
  case (elsewhere b w w')
  then show ?case by (simp add: drained_if_flushed_def)
qed

lemma destination_write_half:
  assumes run: "bridge_cb on_dest flags b w = Returned (r, w')"
    and fds: "fd (srcwatcher b) \<noteq> fd (destwatcher b)"
    and mem: "SysShutdown (fd (destwatcher b)) SHUT_WR \<in> set (new_events w w')"
  shows "\<exists>count b1 w1 b2 w2.
     read_source b w = (False, count, b1, w1) \<and> bridge_source count b1 w1 = (False, b2, w2) \<and>
     SysShutdown (fd (destwatcher b)) SHUT_WR \<in> set (new_events w1 w2) \<and>
     eofFromSource b1 \<and> sourceFlushed b2 \<and>
     (if replays_source count b1
      then fst (write_from_file (fd (destwatcher b1)) (srcFile b1) (srcPos b1) w1) = FILE_EOF \<and>
           length (fs w2 (fname (srcFile b2))) \<le> srcPos b2
      else sourceFlushed b \<and> count = 0 \<and> fs w2 = fs w \<and> srcPos b2 = srcPos b \<and>
           fname (srcFile b2) = fname (srcFile b)) \<and>
     (drained_if_flushed b w \<longrightarrow> length (fs w2 (fname (srcFile b2))) \<le> srcPos b2)"
proof -
  from bridge_cb_shutdown [OF run mem] have t: "transfer b w = (r, w')" by simp
  from transfer_shutdown [OF t mem] fds obtain count b1 w1 e2 b2 w2 where
    s1: "read_source b w = (False, count, b1, w1)"
    and s2: "bridge_source count b1 w1 = (e2, b2, w2)"
    and m2: "SysShutdown (fd (destwatcher b)) SHUT_WR \<in> set (new_events w1 w2)"
    by metis
  note f1 = read_source_effect [OF s1]
  note f2 = bridge_source_effect [OF s2]
  from f1 have d1: "destwatcher b1 = destwatcher b" by simp
  from f2 m2 have ok: "\<not> e2" "sourceFlushed b2" "eofFromSource b1"
    unfolding d1 by simp_all
  from s2 ok have s2': "bridge_source count b1 w1 = (False, b2, w2)" by simp
  from f2 have same2: "fs w2 = fs w1" "fname (srcFile b2) = fname (srcFile b1)" by simp_all
  from f1 have same1: "fname (srcFile b1) = fname (srcFile b)" "srcPos b1 = srcPos b"
    "sourceFlushed b1 = sourceFlushed b" by simp_all
  from f1 obtain data where data:
    "fs w1 = (fs w)(fname (srcFile b) := fs w (fname (srcFile b)) @ data)" "count = length data"
    by auto
  have branch: "if replays_source count b1
      then fst (write_from_file (fd (destwatcher b1)) (srcFile b1) (srcPos b1) w1) = FILE_EOF \<and>
           length (fs w2 (fname (srcFile b2))) \<le> srcPos b2
      else sourceFlushed b \<and> count = 0 \<and> fs w2 = fs w \<and> srcPos b2 = srcPos b \<and>
           fname (srcFile b2) = fname (srcFile b)"
  proof (cases "replays_source count b1")
    case True
    with f2 ok have "length (fs w1 (fname (srcFile b1))) \<le> srcPos b2"
      "fst (write_from_file (fd (destwatcher b1)) (srcFile b1) (srcPos b1) w1) = FILE_EOF"
      by simp_all
    with True same2 show ?thesis by simp
  next
    case False
    then have c0: "count = 0" and fl: "sourceFlushed b1" by (simp_all add: replays_source_def)
    from c0 data have "fs w1 = fs w" by simp
    moreover from f2 False have "srcPos b2 = srcPos b1" by simp
    ultimately show ?thesis using False c0 fl same1 same2 by simp
  qed
  have safe: "drained_if_flushed b w \<longrightarrow> length (fs w2 (fname (srcFile b2))) \<le> srcPos b2"
  proof
    assume "drained_if_flushed b w"
    then have half: "sourceFlushed b \<longrightarrow> length (fs w (fname (srcFile b))) \<le> srcPos b"
      by (simp add: drained_if_flushed_def)
    from source_direction_steps [OF half s1 s2] m2 d1
    show "length (fs w2 (fname (srcFile b2))) \<le> srcPos b2" by simp
  qed
  from s1 s2' m2 ok branch safe show ?thesis by blast
qed

lemma source_write_half:
  assumes run: "bridge_cb on_dest flags b w = Returned (r, w')"
    and fds: "fd (srcwatcher b) \<noteq> fd (destwatcher b)"
    and mem: "SysShutdown (fd (srcwatcher b)) SHUT_WR \<in> set (new_events w w')"
  shows "\<exists>c1 b1 w1 b2 w2 count b3 w3 b4 w4.
     read_source b w = (False, c1, b1, w1) \<and> bridge_source c1 b1 w1 = (False, b2, w2) \<and>
     read_destination b2 w2 = (False, count, b3, w3) \<and>
     bridge_destination count b3 w3 = (False, b4, w4) \<and>
     SysShutdown (fd (srcwatcher b)) SHUT_WR \<in> set (new_events w3 w4) \<and>
     eofFromDestination b3 \<and> destinationFlushed b4 \<and>
     (if replays_destination count b3
      then fst (write_from_file (fd (srcwatcher b3)) (destFile b3) (destPos b3) w3) = FILE_EOF \<and>
           length (fs w4 (fname (destFile b4))) \<le> destPos b4
      else destinationFlushed b \<and> count = 0 \<and> fs w4 = fs w2 \<and> destPos b4 = destPos b \<and>
           fname (destFile b4) = fname (destFile b)) \<and>
     (drained_if_flushed b w \<and> fname (srcFile b) \<noteq> fname (destFile b) \<longrightarrow>
        length (fs w4 (fname (destFile b4))) \<le> destPos b4)"
proof -
  from bridge_cb_shutdown [OF run mem] have t: "transfer b w = (r, w')" by simp
  from transfer_shutdown [OF t mem] fds obtain c1 b1 w1 e2 b2 w2 count b3 w3 e4 b4 w4 where
    s1: "read_source b w = (False, c1, b1, w1)"
    and s2: "bridge_source c1 b1 w1 = (e2, b2, w2)" and n2: "\<not> e2"
    and s3: "read_destination b2 w2 = (False, count, b3, w3)"
    and s4: "bridge_destination count b3 w3 = (e4, b4, w4)"
    and m4: "SysShutdown (fd (srcwatcher b)) SHUT_WR \<in> set (new_events w3 w4)"
    by metis
  from s2 n2 have s2': "bridge_source c1 b1 w1 = (False, b2, w2)" by simp
  note f1 = read_source_effect [OF s1]
  note f2 = bridge_source_effect [OF s2]
  note f3 = read_destination_effect [OF s3]
  note f4 = bridge_destination_effect [OF s4]
  from f1 have q1: "srcwatcher b1 = srcwatcher b" "destFile b1 = destFile b"
    "destPos b1 = destPos b" "destinationFlushed b1 = destinationFlushed b" by simp_all
  from f2 have q2: "srcwatcher b2 = srcwatcher b1" "destFile b2 = destFile b1"
    "destPos b2 = destPos b1" "destinationFlushed b2 = destinationFlushed b1" by simp_all
  from f3 have q3: "srcwatcher b3 = srcwatcher b2" "fname (destFile b3) = fname (destFile b2)"
    "destPos b3 = destPos b2" "destinationFlushed b3 = destinationFlushed b2" by simp_all
  from q1 q2 q3 have sw: "srcwatcher b3 = srcwatcher b" by simp
  from f4 m4 have ok: "\<not> e4" "destinationFlushed b4" "eofFromDestination b3"
    unfolding sw by simp_all
  from s4 ok have s4': "bridge_destination count b3 w3 = (False, b4, w4)" by simp
  from f4 have same4: "fs w4 = fs w3" "fname (destFile b4) = fname (destFile b3)" by simp_all
  from f3 obtain data where data:
    "fs w3 = (fs w2)(fname (destFile b2) := fs w2 (fname (destFile b2)) @ data)"
    "count = length data"
    by auto
  have branch: "if replays_destination count b3
      then fst (write_from_file (fd (srcwatcher b3)) (destFile b3) (destPos b3) w3) = FILE_EOF \<and>
           length (fs w4 (fname (destFile b4))) \<le> destPos b4
      else destinationFlushed b \<and> count = 0 \<and> fs w4 = fs w2 \<and> destPos b4 = destPos b \<and>
           fname (destFile b4) = fname (destFile b)"
  proof (cases "replays_destination count b3")
    case True
    with f4 ok have "length (fs w3 (fname (destFile b3))) \<le> destPos b4"
      "fst (write_from_file (fd (srcwatcher b3)) (destFile b3) (destPos b3) w3) = FILE_EOF"
      by simp_all
    with True same4 show ?thesis by simp
  next
    case False
    then have c0: "count = 0" and fl: "destinationFlushed b3"
      by (simp_all add: replays_destination_def)
    from c0 data have "fs w3 = fs w2" by simp
    moreover from f4 False have "destPos b4 = destPos b3" by simp
    ultimately show ?thesis using False c0 fl same4 q1 q2 q3 by simp
  qed
  have safe: "drained_if_flushed b w \<and> fname (srcFile b) \<noteq> fname (destFile b) \<longrightarrow>
        length (fs w4 (fname (destFile b4))) \<le> destPos b4"
  proof
    assume a: "drained_if_flushed b w \<and> fname (srcFile b) \<noteq> fname (destFile b)"
    then have half: "destinationFlushed b \<longrightarrow> length (fs w (fname (destFile b))) \<le> destPos b"
      and names: "fname (srcFile b) \<noteq> fname (destFile b)"
      by (simp_all add: drained_if_flushed_def)
    from source_direction_frame [OF half names s1 s2]
    have half2: "destinationFlushed b2 \<longrightarrow> length (fs w2 (fname (destFile b2))) \<le> destPos b2"
      by simp
    from destination_direction_steps [OF half2 s3 s4] m4 sw
    show "length (fs w4 (fname (destFile b4))) \<le> destPos b4" by simp
  qed
  from s1 s2' s3 s4' m4 ok branch safe show ?thesis by blast
qed

text \<open>
  Claim C6, amended.  During a dispatch of a bridge whose two sockets are
  different descriptors, the write half of the destination socket is shut
  down only by step two, and only when the source has ended and the step
  ends with the source journal taken to be drained.  That happens in one
  of two ways.  Either replay of the source journal has run and reported
  it drained; then the replay cursor is at the end of the journal.  Or
  replay was not run, because the journal was already marked as flushed
  and this dispatch read no byte from the source; then the journal and the
  cursor are exactly as they were when the dispatch began, and the journal
  is not looked at.  So the write half is never shut down while the
  journal holds undelivered bytes provided the journal held none when it
  was marked as flushed at the start of the dispatch, and this is the case
  at every dispatch of a bridge whose journals are two different files
  that nothing else writes to.  Step two shuts the write half down exactly
  when it ends without error, the journal flushed and the source ended.
  The same holds for the write half of the source socket and step four,
  with the two directions exchanged.
\<close>

theorem shutdown_only_when_drained:
  "(bridge_cb on_dest flags b w = Returned (r, w') \<and>
    fd (srcwatcher b) \<noteq> fd (destwatcher b) \<and>
    SysShutdown (fd (destwatcher b)) SHUT_WR \<in> set (new_events w w') \<longrightarrow>
      (\<exists>count b1 w1 b2 w2.
         read_source b w = (False, count, b1, w1) \<and>
         bridge_source count b1 w1 = (False, b2, w2) \<and>
         SysShutdown (fd (destwatcher b)) SHUT_WR \<in> set (new_events w1 w2) \<and>
         eofFromSource b1 \<and> sourceFlushed b2 \<and>
         (if replays_source count b1
          then fst (write_from_file (fd (destwatcher b1)) (srcFile b1) (srcPos b1) w1) = FILE_EOF \<and>
               length (fs w2 (fname (srcFile b2))) \<le> srcPos b2
          else sourceFlushed b \<and> count = 0 \<and> fs w2 = fs w \<and> srcPos b2 = srcPos b \<and>
               fname (srcFile b2) = fname (srcFile b)) \<and>
         (drained_if_flushed b w \<longrightarrow> length (fs w2 (fname (srcFile b2))) \<le> srcPos b2))) \<and>
   (bridge_cb on_dest flags b w = Returned (r, w') \<and>
    fd (srcwatcher b) \<noteq> fd (destwatcher b) \<and>
    SysShutdown (fd (srcwatcher b)) SHUT_WR \<in> set (new_events w w') \<longrightarrow>
      (\<exists>c1 b1 w1 b2 w2 count b3 w3 b4 w4.
         read_source b w = (False, c1, b1, w1) \<and> bridge_source c1 b1 w1 = (False, b2, w2) \<and>
         read_destination b2 w2 = (False, count, b3, w3) \<and>
         bridge_destination count b3 w3 = (False, b4, w4) \<and>
         SysShutdown (fd (srcwatcher b)) SHUT_WR \<in> set (new_events w3 w4) \<and>
         eofFromDestination b3 \<and> destinationFlushed b4 \<and>
         (if replays_destination count b3
          then fst (write_from_file (fd (srcwatcher b3)) (destFile b3) (destPos b3) w3) = FILE_EOF \<and>
               length (fs w4 (fname (destFile b4))) \<le> destPos b4
          else destinationFlushed b \<and> count = 0 \<and> fs w4 = fs w2 \<and> destPos b4 = destPos b \<and>
               fname (destFile b4) = fname (destFile b)) \<and>
         (drained_if_flushed b w \<and> fname (srcFile b) \<noteq> fname (destFile b) \<longrightarrow>
            length (fs w4 (fname (destFile b4))) \<le> destPos b4))) \<and>
   (bridge_source count b w = (err, b', w') \<longrightarrow>
      (SysShutdown (fd (destwatcher b)) SHUT_WR \<in> set (new_events w w') \<longleftrightarrow>
         \<not> err \<and> sourceFlushed b' \<and> eofFromSource b)) \<and>
   (bridge_destination count b w = (err, b', w') \<longrightarrow>
      (SysShutdown (fd (srcwatcher b)) SHUT_WR \<in> set (new_events w w') \<longleftrightarrow>
         \<not> err \<and> destinationFlushed b' \<and> eofFromDestination b)) \<and>
   (undisturbed b w \<longrightarrow> drained_if_flushed b w \<and> fname (srcFile b) \<noteq> fname (destFile b)) \<and>
   (undisturbed b w \<and> bridge_cb on_dest flags b w = Returned (r, w') \<and>
    fd (srcwatcher b) \<noteq> fd (destwatcher b) \<and>
    SysShutdown (fd (destwatcher b)) SHUT_WR \<in> set (new_events w w') \<longrightarrow>
      (\<exists>count b1 w1 b2 w2.
         read_source b w = (False, count, b1, w1) \<and>
         bridge_source count b1 w1 = (False, b2, w2) \<and>
         SysShutdown (fd (destwatcher b)) SHUT_WR \<in> set (new_events w1 w2) \<and>
         length (fs w2 (fname (srcFile b2))) \<le> srcPos b2)) \<and>
   (undisturbed b w \<and> bridge_cb on_dest flags b w = Returned (r, w') \<and>
    fd (srcwatcher b) \<noteq> fd (destwatcher b) \<and>
    SysShutdown (fd (srcwatcher b)) SHUT_WR \<in> set (new_events w w') \<longrightarrow>
      (\<exists>c1 b1 w1 b2 w2 count b3 w3 b4 w4.
         read_source b w = (False, c1, b1, w1) \<and> bridge_source c1 b1 w1 = (False, b2, w2) \<and>
         read_destination b2 w2 = (False, count, b3, w3) \<and>
         bridge_destination count b3 w3 = (False, b4, w4) \<and>
         SysShutdown (fd (srcwatcher b)) SHUT_WR \<in> set (new_events w3 w4) \<and>
         length (fs w4 (fname (destFile b4))) \<le> destPos b4))"
proof (intro conjI impI)
  assume "bridge_cb on_dest flags b w = Returned (r, w') \<and>
    fd (srcwatcher b) \<noteq> fd (destwatcher b) \<and>
    SysShutdown (fd (destwatcher b)) SHUT_WR \<in> set (new_events w w')"
  then have "bridge_cb on_dest flags b w = Returned (r, w')"
    "fd (srcwatcher b) \<noteq> fd (destwatcher b)"
    "SysShutdown (fd (destwatcher b)) SHUT_WR \<in> set (new_events w w')" by simp_all
  then show "\<exists>count b1 w1 b2 w2.
         read_source b w = (False, count, b1, w1) \<and>
         bridge_source count b1 w1 = (False, b2, w2) \<and>
         SysShutdown (fd (destwatcher b)) SHUT_WR \<in> set (new_events w1 w2) \<and>
         eofFromSource b1 \<and> sourceFlushed b2 \<and>
         (if replays_source count b1
          then fst (write_from_file (fd (destwatcher b1)) (srcFile b1) (srcPos b1) w1) = FILE_EOF \<and>
               length (fs w2 (fname (srcFile b2))) \<le> srcPos b2
          else sourceFlushed b \<and> count = 0 \<and> fs w2 = fs w \<and> srcPos b2 = srcPos b \<and>
               fname (srcFile b2) = fname (srcFile b)) \<and>
         (drained_if_flushed b w \<longrightarrow> length (fs w2 (fname (srcFile b2))) \<le> srcPos b2)"
    by (rule destination_write_half)
next
  assume "bridge_cb on_dest flags b w = Returned (r, w') \<and>
    fd (srcwatcher b) \<noteq> fd (destwatcher b) \<and>
    SysShutdown (fd (srcwatcher b)) SHUT_WR \<in> set (new_events w w')"
  then have "bridge_cb on_dest flags b w = Returned (r, w')"
    "fd (srcwatcher b) \<noteq> fd (destwatcher b)"
    "SysShutdown (fd (srcwatcher b)) SHUT_WR \<in> set (new_events w w')" by simp_all
  then show "\<exists>c1 b1 w1 b2 w2 count b3 w3 b4 w4.
         read_source b w = (False, c1, b1, w1) \<and> bridge_source c1 b1 w1 = (False, b2, w2) \<and>
         read_destination b2 w2 = (False, count, b3, w3) \<and>
         bridge_destination count b3 w3 = (False, b4, w4) \<and>
         SysShutdown (fd (srcwatcher b)) SHUT_WR \<in> set (new_events w3 w4) \<and>
         eofFromDestination b3 \<and> destinationFlushed b4 \<and>
         (if replays_destination count b3
          then fst (write_from_file (fd (srcwatcher b3)) (destFile b3) (destPos b3) w3) = FILE_EOF \<and>
               length (fs w4 (fname (destFile b4))) \<le> destPos b4
          else destinationFlushed b \<and> count = 0 \<and> fs w4 = fs w2 \<and> destPos b4 = destPos b \<and>
               fname (destFile b4) = fname (destFile b)) \<and>
         (drained_if_flushed b w \<and> fname (srcFile b) \<noteq> fname (destFile b) \<longrightarrow>
            length (fs w4 (fname (destFile b4))) \<le> destPos b4)"
    by (rule source_write_half)
next
  assume "bridge_source count b w = (err, b', w')"
  from bridge_source_effect [OF this]
  show "SysShutdown (fd (destwatcher b)) SHUT_WR \<in> set (new_events w w') \<longleftrightarrow>
         \<not> err \<and> sourceFlushed b' \<and> eofFromSource b" by simp
next
  assume "bridge_destination count b w = (err, b', w')"
  from bridge_destination_effect [OF this]
  show "SysShutdown (fd (srcwatcher b)) SHUT_WR \<in> set (new_events w w') \<longleftrightarrow>
         \<not> err \<and> destinationFlushed b' \<and> eofFromDestination b" by simp
next
  assume u: "undisturbed b w"
  from undisturbed_drained [OF u]
  show "drained_if_flushed b w" "fname (srcFile b) \<noteq> fname (destFile b)" by simp_all
next
  assume a: "undisturbed b w \<and> bridge_cb on_dest flags b w = Returned (r, w') \<and>
    fd (srcwatcher b) \<noteq> fd (destwatcher b) \<and>
    SysShutdown (fd (destwatcher b)) SHUT_WR \<in> set (new_events w w')"
  then have u: "undisturbed b w" and run: "bridge_cb on_dest flags b w = Returned (r, w')"
    and fds: "fd (srcwatcher b) \<noteq> fd (destwatcher b)"
    and mem: "SysShutdown (fd (destwatcher b)) SHUT_WR \<in> set (new_events w w')" by simp_all
  from undisturbed_drained [OF u] have inv: "drained_if_flushed b w" by simp
  from destination_write_half [OF run fds mem] inv
  show "\<exists>count b1 w1 b2 w2.
         read_source b w = (False, count, b1, w1) \<and>
         bridge_source count b1 w1 = (False, b2, w2) \<and>
         SysShutdown (fd (destwatcher b)) SHUT_WR \<in> set (new_events w1 w2) \<and>
         length (fs w2 (fname (srcFile b2))) \<le> srcPos b2"
    by blast
next
  assume a: "undisturbed b w \<and> bridge_cb on_dest flags b w = Returned (r, w') \<and>
    fd (srcwatcher b) \<noteq> fd (destwatcher b) \<and>
    SysShutdown (fd (srcwatcher b)) SHUT_WR \<in> set (new_events w w')"
  then have u: "undisturbed b w" and run: "bridge_cb on_dest flags b w = Returned (r, w')"
    and fds: "fd (srcwatcher b) \<noteq> fd (destwatcher b)"
    and mem: "SysShutdown (fd (srcwatcher b)) SHUT_WR \<in> set (new_events w w')" by simp_all
  from undisturbed_drained [OF u] have inv: "drained_if_flushed b w"
    and names: "fname (srcFile b) \<noteq> fname (destFile b)" by simp_all
  from source_write_half [OF run fds mem] inv names
  show "\<exists>c1 b1 w1 b2 w2 count b3 w3 b4 w4.
         read_source b w = (False, c1, b1, w1) \<and> bridge_source c1 b1 w1 = (False, b2, w2) \<and>
         read_destination b2 w2 = (False, count, b3, w3) \<and>
         bridge_destination count b3 w3 = (False, b4, w4) \<and>
         SysShutdown (fd (srcwatcher b)) SHUT_WR \<in> set (new_events w3 w4) \<and>
         length (fs w4 (fname (destFile b4))) \<le> destPos b4"
    by blast
qed

theorem shutdown_only_when_drained_witness:
  "bridge_cb False EV_READ fresh_bridge farewell_world =
     Returned (Running (farewell_sent\<lparr>srcwatcher := \<lparr>fd = 5, events = 0x80, active = False\<rparr>\<rparr>),
               farewell_sent_world\<lparr>trace := [SysShutdown 5 SHUT_RD, SysShutdown 7 SHUT_WR, EvIoStop 5]\<rparr>) \<and>
   fd (srcwatcher fresh_bridge) \<noteq> fd (destwatcher fresh_bridge) \<and>
   SysShutdown (fd (destwatcher fresh_bridge)) SHUT_WR \<in> set (new_events farewell_world
     (farewell_sent_world\<lparr>trace := [SysShutdown 5 SHUT_RD, SysShutdown 7 SHUT_WR, EvIoStop 5]\<rparr>)) \<and>
   read_source fresh_bridge farewell_world = (False, 5, farewell_read, farewell_read_world) \<and>
   bridge_source 5 farewell_read farewell_read_world = (False, farewell_sent, farewell_sent_world) \<and>
   SysShutdown (fd (destwatcher fresh_bridge)) SHUT_WR
     \<in> set (new_events farewell_read_world farewell_sent_world) \<and>
   eofFromSource farewell_read \<and> sourceFlushed farewell_sent \<and> replays_source 5 farewell_read \<and>
   fst (write_from_file (fd (destwatcher farewell_read)) (srcFile farewell_read)
          (srcPos farewell_read) farewell_read_world) = FILE_EOF \<and>
   length (fs farewell_sent_world (fname (srcFile farewell_sent))) \<le> srcPos farewell_sent \<and>
   undisturbed fresh_bridge farewell_world \<and> undisturbed fresh_bridge dest_eof_world \<and>
   drained_if_flushed fresh_bridge farewell_world \<and>
   fname (srcFile fresh_bridge) \<noteq> fname (destFile fresh_bridge) \<and>
   bridge_cb True EV_READ fresh_bridge dest_eof_world =
     Returned (Running (dest_ended\<lparr>destwatcher := \<lparr>fd = 7, events = 0x80, active = False\<rparr>\<rparr>),
               quiet_world\<lparr>trace := [SysShutdown 7 SHUT_RD, SysShutdown 5 SHUT_WR, EvIoStop 7]\<rparr>) \<and>
   SysShutdown (fd (srcwatcher fresh_bridge)) SHUT_WR \<in> set (new_events dest_eof_world
     (quiet_world\<lparr>trace := [SysShutdown 7 SHUT_RD, SysShutdown 5 SHUT_WR, EvIoStop 7]\<rparr>)) \<and>
   read_source fresh_bridge dest_eof_world = (False, 0, fresh_bridge, dest_eof_world) \<and>
   bridge_source 0 fresh_bridge dest_eof_world = (False, fresh_bridge, dest_eof_world) \<and>
   read_destination fresh_bridge dest_eof_world =
     (False, 0, dest_ended, quiet_world\<lparr>trace := [SysShutdown 7 SHUT_RD]\<rparr>) \<and>
   bridge_destination 0 dest_ended (quiet_world\<lparr>trace := [SysShutdown 7 SHUT_RD]\<rparr>) =
     (False, dest_ended, quiet_world\<lparr>trace := [SysShutdown 7 SHUT_RD, SysShutdown 5 SHUT_WR]\<rparr>) \<and>
   SysShutdown (fd (srcwatcher dest_ended)) SHUT_WR
     \<in> set (new_events (quiet_world\<lparr>trace := [SysShutdown 7 SHUT_RD]\<rparr>)
              (quiet_world\<lparr>trace := [SysShutdown 7 SHUT_RD, SysShutdown 5 SHUT_WR]\<rparr>)) \<and>
   eofFromDestination dest_ended \<and> destinationFlushed dest_ended \<and>
   \<not> replays_destination 0 dest_ended \<and> destinationFlushed fresh_bridge \<and>
   fs (quiet_world\<lparr>trace := [SysShutdown 7 SHUT_RD, SysShutdown 5 SHUT_WR]\<rparr>) = fs dest_eof_world \<and>
   destPos dest_ended = destPos fresh_bridge \<and>
   drained_if_flushed fresh_bridge dest_eof_world \<and>
   length (fs (quiet_world\<lparr>trace := [SysShutdown 7 SHUT_RD, SysShutdown 5 SHUT_WR]\<rparr>)
             (fname (destFile dest_ended))) \<le> destPos dest_ended \<and>
   \<not> eofFromSource fresh_bridge \<and>
   SysShutdown (fd (destwatcher fresh_bridge)) SHUT_WR
     \<notin> set (new_events dest_eof_world dest_eof_world)"
proof -
  note c1 = shutdown_only_when_drained [THEN conjunct1, THEN mp]
  note c2 = shutdown_only_when_drained [THEN conjunct2, THEN conjunct1, THEN mp]
  note c3 = shutdown_only_when_drained [THEN conjunct2, THEN conjunct2, THEN conjunct1, THEN mp]
  note c4 = shutdown_only_when_drained
    [THEN conjunct2, THEN conjunct2, THEN conjunct2, THEN conjunct1, THEN mp]
  note c5 = shutdown_only_when_drained
    [THEN conjunct2, THEN conjunct2, THEN conjunct2, THEN conjunct2, THEN conjunct1, THEN mp]
  note c6 = shutdown_only_when_drained
    [THEN conjunct2, THEN conjunct2, THEN conjunct2, THEN conjunct2, THEN conjunct2,
     THEN conjunct1, THEN mp]
  note c7 = shutdown_only_when_drained
    [THEN conjunct2, THEN conjunct2, THEN conjunct2, THEN conjunct2, THEN conjunct2,
     THEN conjunct2, THEN mp]
  note run = cb_defs run_defs ev_defs example_defs const_upd
  let ?done = "farewell_sent_world\<lparr>trace := [SysShutdown 5 SHUT_RD, SysShutdown 7 SHUT_WR, EvIoStop 5]\<rparr>"
  let ?half = "quiet_world\<lparr>trace := [SysShutdown 7 SHUT_RD]\<rparr>"
  let ?full = "quiet_world\<lparr>trace := [SysShutdown 7 SHUT_RD, SysShutdown 5 SHUT_WR]\<rparr>"
  let ?gone = "quiet_world\<lparr>trace := [SysShutdown 7 SHUT_RD, SysShutdown 5 SHUT_WR, EvIoStop 7]\<rparr>"
  have d1: "bridge_cb False EV_READ fresh_bridge farewell_world =
     Returned (Running (farewell_sent\<lparr>srcwatcher := \<lparr>fd = 5, events = 0x80, active = False\<rparr>\<rparr>), ?done)"
    by (simp add: run)
  have d2: "bridge_cb True EV_READ fresh_bridge dest_eof_world =
     Returned (Running (dest_ended\<lparr>destwatcher := \<lparr>fd = 7, events = 0x80, active = False\<rparr>\<rparr>), ?gone)"
    by (simp add: run)
  have r1: "read_source fresh_bridge farewell_world = (False, 5, farewell_read, farewell_read_world)"
    by (simp add: run)
  have r2: "bridge_source 5 farewell_read farewell_read_world =
      (False, farewell_sent, farewell_sent_world)"
    by (simp add: run)
  have r3: "read_source fresh_bridge dest_eof_world = (False, 0, fresh_bridge, dest_eof_world)"
    by (simp add: run)
  have r4: "bridge_source 0 fresh_bridge dest_eof_world = (False, fresh_bridge, dest_eof_world)"
    by (simp add: run)
  have r5: "read_destination fresh_bridge dest_eof_world = (False, 0, dest_ended, ?half)"
    by (simp add: run)
  have r6: "bridge_destination 0 dest_ended ?half = (False, dest_ended, ?full)"
    by (simp add: run)
  have r7: "bridge_init 5 16 client_addr upstream quiet_world =
      (Returned (Some fresh_bridge), created_world)"
    by (simp add: init_defs addr_defs ev_defs example_defs stdio_defs const_upd Let_def)
  have fds: "fd (srcwatcher fresh_bridge) \<noteq> fd (destwatcher fresh_bridge)"
    "fd (destwatcher fresh_bridge) = 7" "fd (srcwatcher fresh_bridge) = 5"
    "fd (srcwatcher dest_ended) = 5" "fd (destwatcher farewell_read) = 7"
    by (simp_all add: example_defs)
  have names: "fname (srcFile fresh_bridge) \<noteq> fname (destFile fresh_bridge)"
    by (simp add: example_defs)
  have m1: "SysShutdown (fd (destwatcher fresh_bridge)) SHUT_WR \<in> set (new_events farewell_world ?done)"
    by (simp add: new_events_def example_defs)
  have m2: "SysShutdown (fd (srcwatcher fresh_bridge)) SHUT_WR \<in> set (new_events dest_eof_world ?gone)"
    by (simp add: new_events_def example_defs)
  have p2: "replays_source 5 farewell_read" by (simp add: replays_source_def)
  have p6: "\<not> replays_destination 0 dest_ended"
    by (simp add: replays_destination_def example_defs)
  have u: "undisturbed fresh_bridge farewell_world"
    by (rule undisturbed.elsewhere [OF undisturbed.begun [OF r7 names]])
       (simp_all add: example_defs)
  have u2: "undisturbed fresh_bridge dest_eof_world"
    by (rule undisturbed.elsewhere [OF undisturbed.begun [OF r7 names]])
       (simp_all add: example_defs)
  from c5 [OF u] have inv: "drained_if_flushed fresh_bridge farewell_world" by simp
  from c5 [OF u2] have inv2: "drained_if_flushed fresh_bridge dest_eof_world" by simp
  from c1 [OF conjI [OF d1 conjI [OF fds(1) m1]]] obtain count b1 w1 b2 w2 where
    k: "read_source fresh_bridge farewell_world = (False, count, b1, w1)"
      "bridge_source count b1 w1 = (False, b2, w2)"
      "SysShutdown (fd (destwatcher fresh_bridge)) SHUT_WR \<in> set (new_events w1 w2)"
      "eofFromSource b1" "sourceFlushed b2"
      "if replays_source count b1
       then fst (write_from_file (fd (destwatcher b1)) (srcFile b1) (srcPos b1) w1) = FILE_EOF \<and>
            length (fs w2 (fname (srcFile b2))) \<le> srcPos b2
       else sourceFlushed fresh_bridge \<and> count = 0 \<and> fs w2 = fs farewell_world \<and>
            srcPos b2 = srcPos fresh_bridge \<and> fname (srcFile b2) = fname (srcFile fresh_bridge)"
      "drained_if_flushed fresh_bridge farewell_world \<longrightarrow>
         length (fs w2 (fname (srcFile b2))) \<le> srcPos b2"
    by blast
  from k(1) r1 have e1: "count = 5" "b1 = farewell_read" "w1 = farewell_read_world" by simp_all
  from k(2) r2 have e2: "b2 = farewell_sent" "w2 = farewell_sent_world" unfolding e1 by simp_all
  from k(3-6) p2 have first:
    "SysShutdown (fd (destwatcher fresh_bridge)) SHUT_WR
       \<in> set (new_events farewell_read_world farewell_sent_world)"
    "eofFromSource farewell_read" "sourceFlushed farewell_sent"
    "fst (write_from_file (fd (destwatcher farewell_read)) (srcFile farewell_read)
          (srcPos farewell_read) farewell_read_world) = FILE_EOF"
    unfolding e1 e2 by simp_all
  from k(7) inv have safe: "length (fs farewell_sent_world (fname (srcFile farewell_sent))) \<le>
      srcPos farewell_sent"
    unfolding e2 by simp
  from c2 [OF conjI [OF d2 conjI [OF fds(1) m2]]] obtain c1' b1 w1 b2 w2 count b3 w3 b4 w4 where
    j: "read_source fresh_bridge dest_eof_world = (False, c1', b1, w1)"
      "bridge_source c1' b1 w1 = (False, b2, w2)"
      "read_destination b2 w2 = (False, count, b3, w3)"
      "bridge_destination count b3 w3 = (False, b4, w4)"
      "SysShutdown (fd (srcwatcher fresh_bridge)) SHUT_WR \<in> set (new_events w3 w4)"
      "eofFromDestination b3" "destinationFlushed b4"
      "if replays_destination count b3
       then fst (write_from_file (fd (srcwatcher b3)) (destFile b3) (destPos b3) w3) = FILE_EOF \<and>
            length (fs w4 (fname (destFile b4))) \<le> destPos b4
       else destinationFlushed fresh_bridge \<and> count = 0 \<and> fs w4 = fs w2 \<and>
            destPos b4 = destPos fresh_bridge \<and> fname (destFile b4) = fname (destFile fresh_bridge)"
      "drained_if_flushed fresh_bridge dest_eof_world \<and>
       fname (srcFile fresh_bridge) \<noteq> fname (destFile fresh_bridge) \<longrightarrow>
         length (fs w4 (fname (destFile b4))) \<le> destPos b4"
    by blast
  from j(1) r3 have g1: "c1' = 0" "b1 = fresh_bridge" "w1 = dest_eof_world" by simp_all
  from j(2) r4 have g2: "b2 = fresh_bridge" "w2 = dest_eof_world" unfolding g1 by simp_all
  from j(3) r5 have g3: "count = 0" "b3 = dest_ended" "w3 = ?half" unfolding g2 by simp_all
  from j(4) r6 have g4: "b4 = dest_ended" "w4 = ?full" unfolding g3 by simp_all
  from j(5-8) p6 have second:
    "SysShutdown (fd (srcwatcher fresh_bridge)) SHUT_WR \<in> set (new_events ?half ?full)"
    "eofFromDestination dest_ended" "destinationFlushed dest_ended"
    "destinationFlushed fresh_bridge" "fs ?full = fs dest_eof_world"
    "destPos dest_ended = destPos fresh_bridge"
    unfolding g1 g2 g3 g4 by simp_all
  from j(9) inv2 names have safe2: "length (fs ?full (fname (destFile dest_ended))) \<le>
      destPos dest_ended"
    unfolding g4 by simp
  from c6 [OF conjI [OF u conjI [OF d1 conjI [OF fds(1) m1]]]] obtain n x1 y1 x2 y2 where
    h: "read_source fresh_bridge farewell_world = (False, n, x1, y1)"
      "bridge_source n x1 y1 = (False, x2, y2)"
      "length (fs y2 (fname (srcFile x2))) \<le> srcPos x2"
    by blast
  from h(1) r1 have "n = 5" "x1 = farewell_read" "y1 = farewell_read_world" by simp_all
  with h(2) r2 have "x2 = farewell_sent" "y2 = farewell_sent_world" by simp_all
  with h(3) have never: "length (fs farewell_sent_world (fname (srcFile farewell_sent))) \<le>
      srcPos farewell_sent" by simp
  from c7 [OF conjI [OF u2 conjI [OF d2 conjI [OF fds(1) m2]]]]
  obtain n1 x1 y1 x2 y2 n3 x3 y3 x4 y4 where
    i: "read_source fresh_bridge dest_eof_world = (False, n1, x1, y1)"
      "bridge_source n1 x1 y1 = (False, x2, y2)"
      "read_destination x2 y2 = (False, n3, x3, y3)"
      "bridge_destination n3 x3 y3 = (False, x4, y4)"
      "length (fs y4 (fname (destFile x4))) \<le> destPos x4"
    by blast
  from i(1) r3 have "n1 = 0" "x1 = fresh_bridge" "y1 = dest_eof_world" by simp_all
  with i(2) r4 have "x2 = fresh_bridge" "y2 = dest_eof_world" by simp_all
  with i(3) r5 have "n3 = 0" "x3 = dest_ended" "y3 = ?half" by simp_all
  with i(4) r6 have "x4 = dest_ended" "y4 = ?full" by simp_all
  with i(5) have never2: "length (fs ?full (fname (destFile dest_ended))) \<le> destPos dest_ended"
    by simp
  have noeof: "\<not> eofFromSource fresh_bridge" by (simp add: example_defs)
  from c3 [OF r4] noeof
  have quiet: "SysShutdown (fd (destwatcher fresh_bridge)) SHUT_WR
      \<notin> set (new_events dest_eof_world dest_eof_world)" by simp
  from c4 [OF r6] second(2,3)
  have third: "SysShutdown (fd (srcwatcher dest_ended)) SHUT_WR \<in> set (new_events ?half ?full)"
    by simp
  from d1 fds(1) m1 r1 r2 first p2 safe u inv names d2 m2 r3 r4 r5 r6 third second p6 inv2 safe2
    never never2 u2 noeof quiet
  show ?thesis by simp
qed

text \<open>
  Claim C6 as stated fails in two ways.  On a connection that carries no
  byte the client closes its side at once: step one reads end of input,
  the journal stays empty, and step two shuts down the write half of the
  destination socket without having called replay at all.  And when
  something else has appended \<^verbatim>\<open>hello\<close> to the file that is the source
  journal, the same dispatch shuts the write half down although the journal
  holds five bytes beyond the replay cursor, none of which has been sent.
\<close>

theorem shutdown_without_replay_counterexample:
  "read_source fresh_bridge eof_world =
     (False, 0, source_ended, quiet_world\<lparr>trace := [SysShutdown 5 SHUT_RD]\<rparr>) \<and>
   \<not> replays_source 0 source_ended \<and>
   bridge_source 0 source_ended (quiet_world\<lparr>trace := [SysShutdown 5 SHUT_RD]\<rparr>) =
     (False, source_ended, quiet_world\<lparr>trace := [SysShutdown 5 SHUT_RD, SysShutdown 7 SHUT_WR]\<rparr>) \<and>
   sent (quiet_world\<lparr>trace := [SysShutdown 5 SHUT_RD, SysShutdown 7 SHUT_WR]\<rparr>) 7 = [] \<and>
   bridge_cb False EV_READ fresh_bridge eof_world =
     Returned (Running half_closed,
       quiet_world\<lparr>trace := [SysShutdown 5 SHUT_RD, SysShutdown 7 SHUT_WR, EvIoStop 5]\<rparr>) \<and>
   reachable fresh_bridge shared_world \<and>
   bridge_cb False EV_READ fresh_bridge shared_world =
     Returned (Running half_closed,
       quiet_world\<lparr>fs := (\<lambda>_. [])(''192.0.2.7:54321'' := hello),
                   trace := [SysShutdown 5 SHUT_RD, SysShutdown 7 SHUT_WR, EvIoStop 5]\<rparr>) \<and>
   fd (destwatcher fresh_bridge) = 7 \<and>
   srcPos half_closed = 0 \<and> fname (srcFile half_closed) = ''192.0.2.7:54321'' \<and>
   length (fs shared_world ''192.0.2.7:54321'') = 5 \<and>
   sent (quiet_world\<lparr>fs := (\<lambda>_. [])(''192.0.2.7:54321'' := hello),
                      trace := [SysShutdown 5 SHUT_RD, SysShutdown 7 SHUT_WR, EvIoStop 5]\<rparr>) 7 = []"
proof -
  note run = cb_defs run_defs ev_defs example_defs shared_world_def const_upd
  have "read_source fresh_bridge eof_world =
     (False, 0, source_ended, quiet_world\<lparr>trace := [SysShutdown 5 SHUT_RD]\<rparr>)"
    by (simp add: run)
  moreover have "\<not> replays_source 0 source_ended"
    by (simp add: replays_source_def example_defs)
  moreover have "bridge_source 0 source_ended (quiet_world\<lparr>trace := [SysShutdown 5 SHUT_RD]\<rparr>) =
     (False, source_ended, quiet_world\<lparr>trace := [SysShutdown 5 SHUT_RD, SysShutdown 7 SHUT_WR]\<rparr>)"
    by (simp add: run)
  moreover have "sent (quiet_world\<lparr>trace := [SysShutdown 5 SHUT_RD, SysShutdown 7 SHUT_WR]\<rparr>) 7 = []"
    by (simp add: example_defs)
  moreover have "bridge_cb False EV_READ fresh_bridge eof_world =
     Returned (Running half_closed,
       quiet_world\<lparr>trace := [SysShutdown 5 SHUT_RD, SysShutdown 7 SHUT_WR, EvIoStop 5]\<rparr>)"
    by (simp add: run)
  moreover have "reachable fresh_bridge shared_world"
  proof -
    have i: "bridge_init 5 16 client_addr upstream quiet_world =
        (Returned (Some fresh_bridge), created_world)"
      by (simp add: init_defs addr_defs ev_defs example_defs stdio_defs const_upd Let_def)
    have g: "files_grow created_world shared_world"
      by (simp add: files_grow_def example_defs shared_world_def)
    show ?thesis by (rule reachable.outside [OF reachable.created [OF i] g])
  qed
  moreover have "bridge_cb False EV_READ fresh_bridge shared_world =
     Returned (Running half_closed,
       quiet_world\<lparr>fs := (\<lambda>_. [])(''192.0.2.7:54321'' := hello),
                   trace := [SysShutdown 5 SHUT_RD, SysShutdown 7 SHUT_WR, EvIoStop 5]\<rparr>)"
    by (simp add: run)
  moreover have "fd (destwatcher fresh_bridge) = 7" "srcPos half_closed = 0"
    "fname (srcFile half_closed) = ''192.0.2.7:54321''"
    "length (fs shared_world ''192.0.2.7:54321'') = 5"
    "sent (quiet_world\<lparr>fs := (\<lambda>_. [])(''192.0.2.7:54321'' := hello),
                      trace := [SysShutdown 5 SHUT_RD, SysShutdown 7 SHUT_WR, EvIoStop 5]\<rparr>) 7 = []"
    by (simp_all add: example_defs shared_world_def)
  ultimately show ?thesis by simp
qed

end
